(* ===== verification/HP_Prelude.thy ===== *)
theory HP_Prelude
  imports Main "HOL-Library.Word" "HOL-Library.Monad_Syntax"
begin

text \<open>
  Bytes, bounds-checked memory blocks and C strings, shared by every component.

  A block of memory (a \<open>calloc\<close>ed message, an array on the stack, a global table) is a list of
  its cells. Every read and write of the C code that can leave the block is modelled by \<open>rd\<close>,
  \<open>wr\<close>, \<open>rdn\<close> and \<open>wrn\<close>, which return \<open>None\<close> where the C code would touch memory outside
  the block: \<open>None\<close> stands for undefined behaviour throughout the development, and code that is
  sequenced after such an access is sequenced by the option monad.
\<close>

unbundle bit_operations_syntax

type_synonym byte = "8 word"
type_synonym u32 = "32 word"

named_theorems mem_simps "bounds-checked reads and writes"

section \<open>Memory blocks\<close>

definition rd :: "'a list \<Rightarrow> nat \<Rightarrow> 'a option" where
  "rd b i = (if i < length b then Some (b ! i) else None)"

definition wr :: "'a list \<Rightarrow> nat \<Rightarrow> 'a \<Rightarrow> 'a list option" where
  "wr b i x = (if i < length b then Some (b[i := x]) else None)"

definition rdn :: "'a list \<Rightarrow> nat \<Rightarrow> nat \<Rightarrow> 'a list option" where
  "rdn b i n = (if i + n \<le> length b then Some (take n (drop i b)) else None)"

definition wrn :: "'a list \<Rightarrow> nat \<Rightarrow> 'a list \<Rightarrow> 'a list option" where
  "wrn b i xs = (if i + length xs \<le> length b
                 then Some (take i b @ xs @ drop (i + length xs) b) else None)"

text \<open>An index that is a signed \<open>int\<close> in the C code may also be negative.\<close>

definition rdi :: "'a list \<Rightarrow> int \<Rightarrow> 'a option" where
  "rdi b c = (if c < 0 then None else rd b (nat c))"

lemma rd_Some_iff [mem_simps]: "rd b i = Some x \<longleftrightarrow> i < length b \<and> b ! i = x"
  by (auto simp: rd_def)

lemma wr_Some_iff [mem_simps]: "wr b i x = Some b' \<longleftrightarrow> i < length b \<and> b' = b[i := x]"
  by (auto simp: wr_def)

lemma rdn_Some_iff [mem_simps]:
  "rdn b i n = Some xs \<longleftrightarrow> i + n \<le> length b \<and> xs = take n (drop i b)"
  by (auto simp: rdn_def)

lemma wrn_Some_iff [mem_simps]:
  "wrn b i xs = Some b' \<longleftrightarrow>
     i + length xs \<le> length b \<and> b' = take i b @ xs @ drop (i + length xs) b"
  by (auto simp: wrn_def)

lemma wr_length: "wr b i x = Some b' \<Longrightarrow> length b' = length b"
  by (auto simp: wr_def split: if_splits)

lemma wrn_length: "wrn b i xs = Some b' \<Longrightarrow> length b' = length b"
  by (auto simp: wrn_def split: if_splits)

lemma wrn_nth:
  assumes "wrn b i xs = Some b'" and "k < length b"
  shows "b' ! k = (if i \<le> k \<and> k < i + length xs then xs ! (k - i) else b ! k)"
  using assms by (auto simp: wrn_Some_iff nth_append)

lemma rd_None_iff [mem_simps]: "rd b i = None \<longleftrightarrow> length b \<le> i"
  by (auto simp: rd_def)

lemma wr_None_iff [mem_simps]: "wr b i x = None \<longleftrightarrow> length b \<le> i"
  by (auto simp: wr_def)

lemma wrn_None_iff [mem_simps]: "wrn b i xs = None \<longleftrightarrow> length b < i + length xs"
  by (auto simp: wrn_def)

lemma rdn_None_iff [mem_simps]: "rdn b i n = None \<longleftrightarrow> length b < i + n"
  by (auto simp: rdn_def)

text \<open>What was stored by a block copy is what a read of the same region returns.\<close>

lemma rdn_wrn_same: "wrn b i xs = Some b' \<Longrightarrow> rdn b' i (length xs) = Some xs"
  by (auto simp: wrn_Some_iff rdn_def)

text \<open>A block copy is a sequence of single writes.\<close>

lemma wrn_Nil: "i \<le> length b \<Longrightarrow> wrn b i [] = Some b"
  by (simp add: wrn_def)

lemma wrn_Cons: "wrn b i (x # xs) = do { b' \<leftarrow> wr b i x; wrn b' (Suc i) xs }"
  by (auto simp: wrn_def wr_def take_Suc_conv_app_nth)

lemma wrn_single: "wrn b i [x] = wr b i x"
  by (auto simp: wrn_def wr_def upd_conv_take_nth_drop)

section \<open>C strings\<close>

definition bytes :: "string \<Rightarrow> byte list" where
  "bytes s = map of_char s"

text \<open>The string that starts at index \<open>i\<close>: the bytes up to the first NUL inside the block.\<close>

definition cstr :: "byte list \<Rightarrow> nat \<Rightarrow> byte list option" where
  "cstr b i = (if 0 \<in> set (drop i b) then Some (takeWhile (\<lambda>c. c \<noteq> 0) (drop i b)) else None)"

lemma length_bytes [simp]: "length (bytes s) = length s"
  by (simp add: bytes_def)

lemma cstr_no_nul: "cstr b i = Some s \<Longrightarrow> 0 \<notin> set s"
  by (auto simp: cstr_def split: if_splits dest: set_takeWhileD)

lemma takeWhile_nul_append [simp]:
  "0 \<notin> set s \<Longrightarrow> takeWhile (\<lambda>c. c \<noteq> (0::byte)) (s @ 0 # r) = s"
  by (induction s) auto

lemma cstr_append [simp]: "0 \<notin> set s \<Longrightarrow> cstr (p @ s @ 0 # r) (length p) = Some s"
  by (simp add: cstr_def)

lemma cstr_Some_split:
  assumes "cstr m i = Some s"
  obtains r where "drop i m = s @ 0 # r" and "i + length s < length m" and "0 \<notin> set s"
proof -
  from assms have nul: "0 \<in> set (drop i m)" and s: "s = takeWhile (\<lambda>c. c \<noteq> 0) (drop i m)"
    by (auto simp: cstr_def split: if_splits)
  from split_list_first [OF nul] obtain p r where pr: "drop i m = p @ 0 # r" "0 \<notin> set p"
    by blast
  then have "s = p" using s by simp
  moreover from arg_cong [OF pr(1), of length] have "i + length p < length m" by simp
  ultimately show ?thesis using that pr by blast
qed

text \<open>
  A comparison of consecutive cells with given bytes, which stops at the first difference
  (\<open>strncmp\<close> with a literal, and a chain of \<open>==\<close> joined by \<open>&&\<close>).
\<close>

fun strncmp_is :: "byte list \<Rightarrow> nat \<Rightarrow> byte list \<Rightarrow> bool option" where
  "strncmp_is b i [] = Some True"
| "strncmp_is b i (k # ks) = do { c \<leftarrow> rd b i; (if c = k then strncmp_is b (i + 1) ks else Some False) }"

text \<open>What \<open>sprintf\<close> prints for \<open>%d\<close> and \<open>%u\<close> of a number that is not negative.\<close>

fun decimal :: "nat \<Rightarrow> string" where
  "decimal n = (if n < 10 then [char_of (48 + n)] else decimal (n div 10) @ [char_of (48 + n mod 10)])"

declare decimal.simps [simp del]

lemma decimal_digits: "n < 10 ^ k \<Longrightarrow> 0 < k \<Longrightarrow> length (decimal n) \<le> k"
proof (induction n arbitrary: k rule: decimal.induct)
  case (1 n)
  show ?case
  proof (cases "n < 10")
    case True
    then show ?thesis using 1(3) by (simp add: decimal.simps [of n])
  next
    case False
    obtain j where k: "k = Suc j" using 1(3) by (cases k) auto
    have "0 < j" using False 1(2) k by (cases j) auto
    moreover have "n div 10 < 10 ^ j" using 1(2) k by (simp add: less_mult_imp_div_less)
    ultimately have "length (decimal (n div 10)) \<le> j" using 1(1) False by blast
    then show ?thesis using False k by (simp add: decimal.simps [of n])
  qed
qed

text \<open>\<open>strcpy\<close> to the start of a block, and \<open>strcat\<close>.\<close>

definition strcpy :: "byte list \<Rightarrow> byte list \<Rightarrow> byte list option" where
  "strcpy b s = wrn b 0 (s @ [0])"

definition strcat :: "byte list \<Rightarrow> byte list \<Rightarrow> byte list option" where
  "strcat b s = do { t \<leftarrow> cstr b 0; wrn b (length t) (s @ [0]) }"

lemma strcpy_cstr: "strcpy b s = Some b' \<Longrightarrow> 0 \<notin> set s \<Longrightarrow> cstr b' 0 = Some s"
  using cstr_append [of s "[]"] by (auto simp: strcpy_def wrn_def split: if_splits)

section \<open>Bytes as numbers\<close>

lemma unat_byte_less [simp]: "unat (b::byte) < 256"
  using unsigned_less [of b] by simp

lemma unat_of_nat_byte [simp]: "n < 256 \<Longrightarrow> unat (of_nat n :: byte) = n"
  by (simp add: unsigned_of_nat take_bit_nat_eq_self_iff)

lemma of_nat_byte_eq_0 [simp]: "n < 256 \<Longrightarrow> (of_nat n :: byte) = 0 \<longleftrightarrow> n = 0"
  by (auto simp: word_of_nat_eq_0_iff dest: dvd_imp_le)

lemma unat_Suc_byte: "b + 1 \<noteq> (0::byte) \<Longrightarrow> unat (b + 1) = Suc (unat b)"
  by (metis add.commute unatSuc)

lemma unat_inc_byte: "unat b < 255 \<Longrightarrow> unat (b + 1 :: byte) = Suc (unat b)"
  by (simp add: unat_word_ariths)

lemma u32_le_1: "(c::u32) \<le> 1 \<longleftrightarrow> c = 0 \<or> c = 1"
  by (auto simp: word_le_nat_alt le_Suc_eq word_unat_eq_iff)

lemma unat_dec: "c \<noteq> 0 \<Longrightarrow> unat (c - 1 :: u32) = unat c - 1"
  by (simp add: unat_minus_one)

lemma byte_of_digit: "of_char (char_of (n :: nat) :: char) = (of_nat (n mod 256) :: byte)"
  by (metis of_nat_of_char of_char_of)

lemma decimal_bytes: "set (bytes (decimal n)) \<subseteq> {0x30..0x39}"
proof (induction n rule: decimal.induct)
  case (1 n)
  have "(of_nat ((48 + k) mod 256) :: byte) \<in> {0x30..0x39}" if "k < 10" for k
    using that unat_of_nat_byte [of "48 + k"] by (simp add: word_le_nat_alt del: of_nat_add unat_of_nat_byte)
  then show ?case using 1 by (subst decimal.simps) (auto simp: bytes_def byte_of_digit)
qed

section \<open>Generic list lemmas\<close>

lemma drop_eq_Cons_iff:
  "drop i xs = y # ys \<longleftrightarrow> i < length xs \<and> xs ! i = y \<and> drop (Suc i) xs = ys"
  by (cases "i < length xs") (auto simp: Cons_nth_drop_Suc [symmetric])

lemma find_Some_least:
  "find P [a..<b] = Some i \<longleftrightarrow> a \<le> i \<and> i < b \<and> P i \<and> (\<forall>j. a \<le> j \<and> j < i \<longrightarrow> \<not> P j)"
proof (induction "b - a" arbitrary: a)
  case 0
  then show ?case by auto
next
  case (Suc n)
  then have "a < b" and "n = b - Suc a" by auto
  then show ?case
    using Suc.hyps(1) [of "Suc a"] by (auto simp: upt_conv_Cons Suc_le_eq nat_less_le)
qed

lemma find_None_range: "find P [a..<b] = None \<longleftrightarrow> (\<forall>i. a \<le> i \<and> i < b \<longrightarrow> \<not> P i)"
  by (auto simp: find_None_iff)

end
