(* ===== verification/HexCodec.thy ===== *)
theory HexCodec
  imports HP_Prelude
begin

text \<open>
  The hexadecimal codecs: \<open>hexbinary_to_binary\<close>, \<open>binary_to_hexbinary\<close> and
  \<open>binary_to_hexbinaryString\<close> of \<open>ihaplite/auxfunctions.c\<close>, and \<open>htoi\<close> of
  \<open>DZigbee-bridge/zigbee.c\<close>. Characters and counters are bytes; every index is checked against
  its block.
\<close>

section \<open>Decoding\<close>

text \<open>One character of the decoder: a hexadecimal digit is shifted in, anything else is skipped.\<close>

definition hex_acc :: "byte \<Rightarrow> byte \<Rightarrow> byte" where
  "hex_acc v c =
     (if 0x30 \<le> c \<and> c \<le> 0x39 then push_bit 4 v + (c - 0x30)
      else if 0x41 \<le> c \<and> c \<le> 0x46 then push_bit 4 v + (c - 0x41 + 10)
      else if 0x61 \<le> c \<and> c \<le> 0x66 then push_bit 4 v + (c - 0x61 + 10)
      else v)"

text \<open>
  The input either lies in a block of its own (\<open>Some src\<close>) or in the block that is written
  (\<open>None\<close>, the in-place call of the IP task).
\<close>

definition rd_src :: "byte list option \<Rightarrow> byte list \<Rightarrow> nat \<Rightarrow> byte option" where
  "rd_src src m i = (case src of Some s \<Rightarrow> rd s i | None \<Rightarrow> rd m i)"

fun hexbin_loop :: "byte list option \<Rightarrow> byte list \<Rightarrow> nat \<Rightarrow> nat \<Rightarrow> nat \<Rightarrow> byte list option" where
  "hexbin_loop src m i j 0 = wr m j 0"
| "hexbin_loop src m i j (Suc n) = do {
     c1 \<leftarrow> rd_src src m i;
     c2 \<leftarrow> rd_src src m (i + 1);
     m' \<leftarrow> wr m j (hex_acc (hex_acc 0 c1) c2);
     hexbin_loop src m' (i + 2) (j + 1) n
   }"

definition hexbinary_to_binary ::
  "byte list option \<Rightarrow> byte list \<Rightarrow> nat \<Rightarrow> nat \<Rightarrow> (byte \<times> byte list) option" where
  "hexbinary_to_binary src m i j = do {
     s \<leftarrow> cstr (case src of Some s \<Rightarrow> s | None \<Rightarrow> m) i;
     let len = (of_nat (length s div 2) :: byte);
     m' \<leftarrow> hexbin_loop src m i j (unat len);
     Some (len, m')
   }"

section \<open>Encoding\<close>

definition hexdigit :: "byte \<Rightarrow> byte" where
  "hexdigit v = (if v < 10 then v + 0x30 else v + 55)"

text \<open>
  The loop counter is an \<open>unsigned char\<close>, the bound an \<open>unsigned int\<close>; the final write uses the
  counter as an index from the output pointer, which the loop has advanced.
\<close>

function b2h_loop ::
  "byte list \<Rightarrow> nat \<Rightarrow> byte list \<Rightarrow> nat \<Rightarrow> byte \<Rightarrow> nat \<Rightarrow> (byte \<times> byte list) option" where
  "b2h_loop inp i out k j n =
     (if unat j < n then do {
        b \<leftarrow> rd inp i;
        out1 \<leftarrow> wr out k (hexdigit (drop_bit 4 b));
        out2 \<leftarrow> wr out1 (k + 1) (hexdigit (b AND 0x0F));
        b2h_loop inp (i + 1) out2 (k + 2) (j + 1) n
      } else do {
        out' \<leftarrow> wr out (k + unat j) 0;
        Some (of_nat (n * 2), out')
      })"
  by pat_completeness auto

termination
  by (relation "measure (\<lambda>(inp, i, out, k, j, n). length inp - i)") (auto simp: rd_Some_iff)

declare b2h_loop.simps [simp del]

definition binary_to_hexbinary ::
  "byte list \<Rightarrow> nat \<Rightarrow> byte list \<Rightarrow> nat \<Rightarrow> (byte \<times> byte list) option" where
  "binary_to_hexbinary inp i out n = b2h_loop inp i out 0 0 n"

text \<open>The debug printer: each byte is printed as two digits, a space and a terminating NUL.\<close>

fun hexstring_loop :: "byte list \<Rightarrow> nat \<Rightarrow> nat \<Rightarrow> nat \<Rightarrow> byte list \<Rightarrow> byte list option" where
  "hexstring_loop inp i k 0 out = Some out"
| "hexstring_loop inp i k (Suc n) out = do {
     b \<leftarrow> rd inp (i + k);
     out' \<leftarrow> wrn out (k * 3) [hexdigit (drop_bit 4 b), hexdigit (b AND 0x0F), 0x20, 0];
     hexstring_loop inp i (k + 1) n out'
   }"

definition binary_to_hexbinaryString :: "byte list \<Rightarrow> nat \<Rightarrow> nat \<Rightarrow> byte list \<Rightarrow> byte list option" where
  "binary_to_hexbinaryString inp i n out = hexstring_loop inp i 0 n out"

section \<open>Parsing a number\<close>

definition is_ws :: "byte \<Rightarrow> bool" where "is_ws c \<longleftrightarrow> c = 0x20 \<or> c = 0x09"

definition hex_val :: "byte \<Rightarrow> u32 option" where
  "hex_val c =
     (if 0x30 \<le> c \<and> c \<le> 0x39 then Some (ucast c - 0x30)
      else if 0x41 \<le> c \<and> c \<le> 0x46 then Some (ucast c - 0x41 + 10)
      else if 0x61 \<le> c \<and> c \<le> 0x66 then Some (ucast c - 0x61 + 10)
      else None)"

fun htoi_loop :: "u32 \<Rightarrow> byte list \<Rightarrow> u32 option" where
  "htoi_loop v [] = None"
| "htoi_loop v (c # cs) =
     (case hex_val c of None \<Rightarrow> Some v | Some d \<Rightarrow> htoi_loop (push_bit 4 v + d) cs)"

definition htoi :: "byte list \<Rightarrow> nat \<Rightarrow> u32 option" where
  "htoi m i = htoi_loop 0 (dropWhile is_ws (drop i m))"

section \<open>Reference codecs\<close>

text \<open>What a list of characters decodes to, and what a list of bytes encodes to.\<close>

fun unhex :: "byte list \<Rightarrow> byte list" where
  "unhex (a # b # cs) = hex_acc (hex_acc 0 a) b # unhex cs"
| "unhex _ = []"

definition hex2 :: "byte \<Rightarrow> byte list" where
  "hex2 b = [hexdigit (drop_bit 4 b), hexdigit (b AND 0x0F)]"

definition hexes :: "byte list \<Rightarrow> byte list" where
  "hexes bs = concat (map hex2 bs)"

lemma length_hex2 [simp]: "length (hex2 b) = 2"
  by (simp add: hex2_def)

lemma hexes_Nil [simp]: "hexes [] = []"
  by (simp add: hexes_def)

lemma hexes_Cons [simp]: "hexes (b # bs) = hex2 b @ hexes bs"
  by (simp add: hexes_def)

lemma hexes_append: "hexes (xs @ ys) = hexes xs @ hexes ys"
  by (simp add: hexes_def)

lemma length_hexes [simp]: "length (hexes bs) = 2 * length bs"
  by (induction bs) auto

lemma length_unhex [simp]: "length (unhex cs) = length cs div 2"
  by (induction cs rule: unhex.induct) auto

lemma unhex_take: "take n (unhex cs) = unhex (take (2 * n) cs)"
  by (induction cs arbitrary: n rule: unhex.induct) (auto simp: take_Cons' numeral_2_eq_2)

text \<open>The low and high half of a byte.\<close>

lemma low_nibble: "b AND 0x0F = take_bit 4 (b::byte)"
  by (simp add: take_bit_eq_mask mask_eq_exp_minus_1)

lemma nibble_join: "push_bit 4 (drop_bit 4 b) + (b AND 0x0F) = (b::byte)"
  by (simp add: low_nibble bits_ident)

lemma nibble_bound: "unat (drop_bit 4 b) < 16" "unat (b AND 0x0F) < 16" for b :: byte
proof -
  have "unat b div 16 < 16" using unat_byte_less [of b] by (simp del: unat_byte_less)
  then show "unat (drop_bit 4 b) < 16" by (simp add: unsigned_drop_bit_eq drop_bit_nat_def take_bit_nat_eq_self)
  show "unat (b AND 0x0F) < 16"
    using take_bit_nat_less_exp [of 4 "unat b"] by (simp add: low_nibble unsigned_take_bit_eq)
qed

lemma nibble_cases:
  fixes d :: byte
  assumes "unat d < 16"
  shows "d \<in> {0, 1, 2, 3, 4, 5, 6, 7, 8, 9, 10, 11, 12, 13, 14, 15}"
proof -
  have "unat d \<in> set [0..<16]" using assms by simp
  also have "[0..<16] = [0, 1, 2, 3, 4, 5, 6, 7, 8, 9, 10, 11, 12, 13, 14, 15::nat]"
    by (simp add: upt_rec)
  finally show ?thesis by (auto simp: word_unat_eq_iff)
qed

text \<open>The decoder reads back a digit written by the encoder, as does the number parser.\<close>

lemma hex_acc_hexdigit:
  assumes "unat d < 16"
  shows "hex_acc v (hexdigit d) = push_bit 4 v + d"
  using nibble_cases [OF assms] unfolding insert_iff empty_iff
  by (elim disjE) (simp_all add: hex_acc_def hexdigit_def)

lemma hexdigit_ne_0: "unat d < 16 \<Longrightarrow> hexdigit d \<noteq> 0"
  by (drule nibble_cases) (auto simp: hexdigit_def)

lemma unhex_hexes: "unhex (hexes bs) = bs"
proof (induction bs)
  case (Cons b bs)
  have "hex_acc (hex_acc 0 (hexdigit (drop_bit 4 b))) (hexdigit (b AND 0x0F)) = b"
    by (simp only: hex_acc_hexdigit nibble_bound push_bit_of_0 add_0_left nibble_join)
  then show ?case by (simp only: hexes_Cons hex2_def append.simps unhex.simps Cons)
qed simp

lemma hexes_no_nul: "0 \<notin> set (hexes bs)"
proof (induction bs)
  case (Cons b bs)
  then show ?case
    using hexdigit_ne_0 [OF nibble_bound(1) [of b]] hexdigit_ne_0 [OF nibble_bound(2) [of b]]
    by (simp add: hex2_def eq_commute [of 0])
qed simp

section \<open>The decoder in a separate and in the same block\<close>

text \<open>
  With the input in a block of its own, the loop writes the decoded bytes and a NUL. In place it
  writes the same, as long as the output does not start behind the input: the write position never
  overtakes the read position.
\<close>

lemma hexbin_loop_separate:
  assumes "2 * n \<le> length cs" and "drop i src = cs"
  shows "hexbin_loop (Some src) m i j n = wrn m j (take n (unhex cs) @ [0])"
  using assms
proof (induction n arbitrary: m i j cs)
  case 0
  then show ?case by (simp add: wrn_single)
next
  case (Suc n)
  then obtain a b cs' where cs: "cs = a # b # cs'"
    by (cases cs; cases "tl cs") auto
  have src: "i < length src" "src ! i = a" "Suc i < length src" "src ! Suc i = b"
    "drop (Suc (Suc i)) src = cs'"
    using Suc.prems(2) unfolding cs drop_eq_Cons_iff by auto
  have IH: "hexbin_loop (Some src) m' (i + 2) (j + 1) n = wrn m' (j + 1) (take n (unhex cs') @ [0])"
    for m'
    using Suc.prems cs src by (intro Suc.IH) simp_all
  show ?case
    by (simp add: rd_src_def rd_def src cs IH [simplified] wrn_Cons)
qed

lemma hexbin_loop_in_place:
  assumes "2 * n \<le> length cs" and "drop i m = cs" and "j \<le> i"
  shows "hexbin_loop None m i j n = wrn m j (take n (unhex cs) @ [0])"
  using assms
proof (induction n arbitrary: m i j cs)
  case 0
  then show ?case by (simp add: wrn_single)
next
  case (Suc n)
  then obtain a b cs' where cs: "cs = a # b # cs'"
    by (cases cs; cases "tl cs") auto
  have src: "i < length m" "m ! i = a" "Suc i < length m" "m ! Suc i = b"
    "drop (Suc (Suc i)) m = cs'"
    using Suc.prems(2) unfolding cs drop_eq_Cons_iff by auto
  have "hexbin_loop None m' (i + 2) (j + 1) n = wrn m' (j + 1) (take n (unhex cs') @ [0])"
    if "m' = m[j := hex_acc (hex_acc 0 a) b]" for m'
    using Suc.prems cs src that by (intro Suc.IH) simp_all
  then show ?case
    using src Suc.prems(3) by (simp add: rd_src_def rd_def cs wr_def wrn_Cons)
qed

section \<open>Properties of the decoder\<close>


text \<open>The input may lie in the same block (\<open>None\<close>) or be read from a copy of it.\<close>

lemma hexbinary_decodes:
  assumes "cstr m i = Some s" and "j \<le> i" and "length s < 512" and "src = None \<or> src = Some m"
  shows "hexbinary_to_binary src m i j =
      Some (of_nat (length s div 2), take j m @ unhex s @ 0 # drop (j + length s div 2 + 1) m)"
proof -
  obtain r where r: "drop i m = s @ 0 # r" and len: "i + length s < length m"
    using assms(1) by (rule cstr_Some_split)
  let ?n = "length s div 2"
  have n: "unat (of_nat ?n :: byte) = ?n" using assms(3) by simp
  have enough: "2 * ?n \<le> length (s @ 0 # r)" by simp
  have take: "take ?n (unhex (s @ 0 # r)) = unhex s"
  proof -
    have "take ?n (unhex (s @ 0 # r)) = unhex (take (2 * ?n) s)"
      by (simp add: unhex_take)
    also have "\<dots> = take ?n (unhex s)" by (simp add: unhex_take)
    finally show ?thesis by simp
  qed
  have "hexbin_loop src m i j ?n = wrn m j (unhex s @ [0])"
    using assms(4) hexbin_loop_in_place [OF enough r assms(2)] hexbin_loop_separate [OF enough r]
    by (elim disjE) (simp_all only: take)
  moreover have "j + ?n < length m" using assms(2) len by linarith
  then have "wrn m j (unhex s @ [0]) = Some (take j m @ unhex s @ 0 # drop (j + ?n + 1) m)"
    by (simp add: wrn_def)
  ultimately show ?thesis
    using assms(1,4) n by (auto simp: hexbinary_to_binary_def Let_def)
qed

text \<open>Decoding from another block.\<close>

lemma hexbinary_separate:
  assumes "cstr src i = Some s"
  shows "hexbinary_to_binary (Some src) m i j =
    (let n = unat (of_nat (length s div 2) :: byte) in
     map_option (\<lambda>m'. (of_nat (length s div 2), m')) (wrn m j (take n (unhex s) @ [0])))"
proof -
  let ?n = "unat (of_nat (length s div 2) :: byte)"
  obtain r where r: "drop i src = s @ 0 # r" using assms by (rule cstr_Some_split)
  have n: "?n \<le> length s div 2" by (simp add: unsigned_of_nat)
  then have "2 * ?n \<le> length (s @ 0 # r)" by simp
  from hexbin_loop_separate [OF this r]
  have "hexbin_loop (Some src) m i j ?n = wrn m j (take ?n (unhex (s @ 0 # r)) @ [0])" .
  moreover have "take ?n (unhex (s @ 0 # r)) = take ?n (unhex s)"
    using n unhex_take [of ?n "s @ 0 # r"] unhex_take [of ?n s] by simp
  ultimately show ?thesis
    using assms by (cases "wrn m j (take ?n (unhex s) @ [0])") (simp_all add: hexbinary_to_binary_def Let_def)
qed

lemma hexbinary_keeps_before:
  assumes "hexbinary_to_binary (Some src) m i j = Some (l, m')"
  shows "length m' = length m \<and> take j m' = take j m"
proof -
  obtain s where "cstr src i = Some s"
    using assms by (auto simp: hexbinary_to_binary_def split: bind_splits)
  then show ?thesis using assms by (auto simp: hexbinary_separate Let_def wrn_def split: if_splits)
qed

text \<open>
  The in-place conversion is safe: \<open>hexbinary_to_binary(p, q)\<close> with \<open>q\<close> not behind \<open>p\<close> in the
  same buffer gives the same bytes as a conversion from a separate copy of the input, never leaves
  the block (a NUL-terminated input is enough), and changes only the decoded bytes and their NUL.
\<close>

theorem hexbinary_in_place:
  assumes "cstr m i = Some s" and "j \<le> i" and "length s < 512"
  shows "hexbinary_to_binary None m i j = hexbinary_to_binary (Some m) m i j \<and>
    hexbinary_to_binary None m i j =
      Some (of_nat (length s div 2), take j m @ unhex s @ 0 # drop (j + length s div 2 + 1) m)"
  using hexbinary_decodes [OF assms] by auto

theorem hexbinary_in_place_witness:
  "hexbinary_to_binary None [9, 1, 0x34, 0x31, 0x66, 0x46, 0, 7] 2 2 =
     Some (2, [9, 1, 0x41, 0xFF, 0, 0x46, 0, 7])"
proof -
  have "cstr [9, 1, 0x34, 0x31, 0x66, 0x46, 0, 7] 2 = Some [0x34, 0x31, 0x66, 0x46]"
    by (simp add: cstr_def)
  from hexbinary_in_place [OF this, of 2, THEN conjunct2] show ?thesis
    by (simp add: hex_acc_def)
qed

section \<open>Properties of the encoder\<close>

lemma b2h_loop_eq:
  assumes "n < 256" and "unat j \<le> n" and "i + (n - unat j) \<le> length inp"
  shows "b2h_loop inp i out k j n = do {
      out1 \<leftarrow> wrn out k (hexes (take (n - unat j) (drop i inp)));
      out2 \<leftarrow> wr out1 (k + 2 * (n - unat j) + n) 0;
      Some (of_nat (n * 2), out2)
    }"
  using assms(2,3)
proof (induction "n - unat j" arbitrary: i out k j)
  case 0
  then show ?case
    by (subst b2h_loop.simps) (cases "k \<le> length out"; simp add: wrn_def wr_def)
next
  case (Suc d)
  have lt: "unat j < n" and i: "i < length inp" using Suc.hyps(2) Suc.prems by auto
  then have j1: "unat (j + 1) = Suc (unat j)" using assms(1) by (intro unat_inc_byte) simp
  have IH: "b2h_loop inp (i + 1) out2 (k + 2) (j + 1) n = do {
      out1 \<leftarrow> wrn out2 (k + 2) (hexes (take (n - Suc (unat j)) (drop (Suc i) inp)));
      out2 \<leftarrow> wr out1 (k + 2 + 2 * (n - Suc (unat j)) + n) 0;
      Some (of_nat (n * 2), out2)
    }" for out2
    using Suc.hyps(2) Suc.prems lt
    by (subst Suc.hyps(1) [of "j + 1" "i + 1"]) (simp_all add: j1)
  have step: "n - unat j = Suc (n - Suc (unat j))" using lt by simp
  have drop: "drop i inp = inp ! i # drop (Suc i) inp" using i by (simp add: Cons_nth_drop_Suc)
  show ?case
    using lt i
    by (subst b2h_loop.simps) (simp add: IH [simplified] rd_def step drop hex2_def wrn_Cons)
qed

lemma binary_to_hexbinary_eq:
  assumes "n < 256" and "i + n \<le> length inp"
  shows "binary_to_hexbinary inp i out n = do {
      out1 \<leftarrow> wrn out 0 (hexes (take n (drop i inp)));
      out2 \<leftarrow> wr out1 (2 * n + n) 0;
      Some (of_nat (n * 2), out2)
    }"
  using b2h_loop_eq [of n 0 i inp out 0] assms by (simp add: binary_to_hexbinary_def)

lemma binary_to_hexbinary_cases:
  assumes "n < 256" and "i + n \<le> length inp"
  shows "binary_to_hexbinary inp i out n =
    (if 3 * n + 1 \<le> length out
     then Some (of_nat (2 * n), (hexes (take n (drop i inp)) @ drop (2 * n) out)[3 * n := 0])
     else None)"
  using assms by (auto simp: binary_to_hexbinary_eq wrn_def wr_def mult.commute)

text \<open>
  Where the encoder writes. For up to 255 input bytes it succeeds exactly when the output
  block has \<open>3 n + 1\<close> cells, although the text needs \<open>2 n + 1\<close>: the terminating NUL is stored \<open>n\<close>
  cells behind the end of the text. The text itself is right, the cells between text and NUL keep
  their old contents, and the returned length is \<open>2 n\<close> reduced to a byte.
\<close>

theorem binary_to_hexbinary_bounds:
  assumes "n < 256" and "i + n \<le> length inp"
  shows "binary_to_hexbinary inp i out n =
    (if 3 * n + 1 \<le> length out
     then Some (of_nat (2 * n), (hexes (take n (drop i inp)) @ drop (2 * n) out)[3 * n := 0])
     else None)"
  using assms by (rule binary_to_hexbinary_cases)

theorem binary_to_hexbinary_bounds_witness:
  "binary_to_hexbinary [0xAB] 0 [1, 1, 1, 1, 1] 1 = Some (2, [0x41, 0x42, 1, 0, 1]) \<and>
   binary_to_hexbinary [0xAB] 0 [1, 1, 1] 1 = None"
  using binary_to_hexbinary_bounds [of 1 0 "[0xAB]" "[1, 1, 1, 1, 1]"]
    binary_to_hexbinary_bounds [of 1 0 "[0xAB]" "[1, 1, 1]"]
  by (simp add: hex2_def hexdigit_def drop_bit_eq_div)

text \<open>
  C32. Round trip: what the encoder writes into a cleared buffer, the decoder turns back, in place,
  into the original bytes and their number.
\<close>

theorem hex_roundtrip:
  assumes "length bs < 256" and "3 * length bs + 1 \<le> N"
    and "binary_to_hexbinary bs 0 (replicate N 0) (length bs) = Some (r, out)"
  shows "\<exists>out'. hexbinary_to_binary None out 0 0 = Some (of_nat (length bs), out') \<and>
    rdn out' 0 (length bs) = Some bs"
proof -
  let ?n = "length bs"
  have "out = (hexes bs @ replicate (N - 2 * ?n) 0)[3 * ?n := 0]"
    using assms by (simp add: binary_to_hexbinary_cases)
  also have "\<dots> = hexes bs @ replicate (N - 2 * ?n) 0"
  proof -
    have "?n < N - 2 * ?n" using assms(2) by simp
    then have "(replicate (N - 2 * ?n) 0)[?n := 0] = replicate (N - 2 * ?n) (0::byte)"
      by (metis length_replicate list_update_id nth_replicate)
    then show ?thesis by (simp add: list_update_append)
  qed
  also have "replicate (N - 2 * ?n) (0::byte) = 0 # replicate (N - 2 * ?n - 1) 0"
    using assms(2) by (cases "N - 2 * ?n") auto
  finally have out: "out = hexes bs @ 0 # replicate (N - 2 * ?n - 1) 0" .
  have "cstr out 0 = Some (hexes bs)"
    unfolding out using cstr_append [OF hexes_no_nul, of "[]"] by simp
  then have "hexbinary_to_binary None out 0 0 =
      Some (of_nat ?n, take 0 out @ bs @ 0 # drop (0 + ?n + 1) out)"
    using hexbinary_decodes [of out 0 "hexes bs" 0 None] assms(1)
    by (simp add: unhex_hexes)
  then show ?thesis by (auto simp: rdn_def)
qed

theorem hex_roundtrip_witness:
  "\<exists>out out'. binary_to_hexbinary [0xAB, 0] 0 (replicate 7 0) 2 = Some (4, out) \<and>
     hexbinary_to_binary None out 0 0 = Some (2, out') \<and> rdn out' 0 2 = Some [0xAB, 0]"
proof -
  obtain out where out: "binary_to_hexbinary [0xAB, 0] 0 (replicate 7 0) 2 = Some (4, out)"
    using binary_to_hexbinary_eq [of 2 0 "[0xAB, 0]" "replicate 7 0"] by (simp add: wrn_def wr_def)
  then show ?thesis
    using hex_roundtrip [of "[0xAB, 0]" 7 4 out] by (auto simp: numeral_2_eq_2)
qed

section \<open>The debug printer and the number parser\<close>

lemma hexstring_loop_ok:
  "(hexstring_loop inp i k n out \<noteq> None) \<longleftrightarrow>
     n = 0 \<or> (i + k + n \<le> length inp \<and> 3 * (k + n) + 1 \<le> length out)"
proof (induction n arbitrary: k out)
  case (Suc n)
  show ?case
  proof (cases "i + k < length inp \<and> 3 * k + 4 \<le> length out")
    case True
    then obtain out' where
      "wrn out (k * 3) [hexdigit (drop_bit 4 (inp ! (i + k))), hexdigit (inp ! (i + k) AND 0x0F), 0x20, 0]
        = Some out'" and "length out' = length out"
      by (auto simp: wrn_def)
    then show ?thesis using True Suc.IH [of "k + 1" out'] by (auto simp: rd_def)
  next
    case False
    then show ?thesis by (auto simp: rd_def wrn_def)
  qed
qed simp

text \<open>
  The print buffers of the tasks have \<open>DATASIZE = 255\<close> cells. This is the only effect of a debug
  print on the rest of the program: it is a fault exactly when the text does not fit.
\<close>

lemma debug_print_ok [mem_simps]:
  "(\<exists>o'. binary_to_hexbinaryString inp i n out = Some o') \<longleftrightarrow>
     n = 0 \<or> (i + n \<le> length inp \<and> 3 * n + 1 \<le> length out)"
  using hexstring_loop_ok [of inp i 0 n out] by (auto simp: binary_to_hexbinaryString_def)

lemma hex_val_hexdigit: "unat d < 16 \<Longrightarrow> hex_val (hexdigit d) = Some (ucast d)"
  by (drule nibble_cases, unfold insert_iff empty_iff, elim disjE)
     (simp_all add: hex_val_def hexdigit_def)

lemma hexdigit_not_ws: "unat d < 16 \<Longrightarrow> \<not> is_ws (hexdigit d)"
  by (drule nibble_cases, unfold insert_iff empty_iff, elim disjE)
     (simp_all add: is_ws_def hexdigit_def)

lemma ucast_nibbles: "push_bit 4 (ucast (drop_bit 4 b)) + ucast (b AND 0x0F) = (ucast b :: u32)"
  for b :: byte
proof -
  have "push_bit 4 (ucast (drop_bit 4 b)) = (push_bit 4 (drop_bit 4 (ucast b)) :: u32)"
    by (rule bit_word_eqI) (auto simp: bit_simps)
  moreover have "ucast (b AND 0x0F) = (take_bit 4 (ucast b) :: u32)"
    by (rule bit_word_eqI) (auto simp: low_nibble bit_simps)
  ultimately show ?thesis by (simp add: bits_ident)
qed

text \<open>
  The parser of the endpoint field of a \<open>GETDESC_REQ\<close> command: leading blanks are skipped, the
  two digits that the encoder prints for a byte are read back as that byte, and reading stops at the
  first character that is no digit.
\<close>

theorem htoi_reads_byte:
  assumes "drop i m = ws @ hex2 b @ c # r" and "list_all is_ws ws" and "hex_val c = None"
  shows "htoi m i = Some (ucast b)"
proof -
  have "dropWhile is_ws (ws @ hex2 b @ c # r) = hex2 b @ c # r"
    using assms(2) hexdigit_not_ws [OF nibble_bound(1) [of b]]
    by (induction ws) (auto simp: hex2_def)
  then show ?thesis
    using assms(1,3) by (simp add: htoi_def hex2_def hex_val_hexdigit nibble_bound ucast_nibbles)
qed

theorem htoi_reads_byte_witness: "htoi (bytes ''GETDESC_REQ 0A'' @ [0]) 11 = Some 10"
proof -
  have "drop 11 (bytes ''GETDESC_REQ 0A'' @ [0]) = [0x20] @ hex2 10 @ 0 # []"
    by (simp add: bytes_def hex2_def hexdigit_def of_char_def drop_bit_eq_div)
  from htoi_reads_byte [OF this] show ?thesis by (simp add: is_ws_def hex_val_def)
qed

end
