(* ===== verification/Framework.thy ===== *)
theory Framework
  imports HP_Prelude
begin

text \<open>
  The task framework (\<open>ihaplite/framework.h\<close>): sizes and port numbers, the message a task passes on
  by pointer, and the context through which a task receives it.

  A message is \<open>[VPS][payload length][payload]\<close> in one \<open>calloc\<close>ed block. Tasks hand the pointer on
  and two of them move it inside the block, so a message is its block and the pointer's offset in
  it; only a pointer to the start of the block may be freed.
\<close>

definition DATASIZE :: nat where "DATASIZE = 255"
definition SENDERNAMESIZE :: nat where "SENDERNAMESIZE = 3"
definition QUEUESIZE :: nat where "QUEUESIZE = 4"
definition SESSION_TIMEOUT :: u32 where "SESSION_TIMEOUT = 15"
definition SERVER_PORT :: int where "SERVER_PORT = 10000"
definition MAX_OUTPUT :: nat where "MAX_OUTPUT = 11"

text \<open>
  The number of tasks and of virtual ports, which \<open>main\<close> of \<open>DZigbee-bridge/zigbee-bridge.c\<close> stores
  in \<open>max_tasks\<close> and \<open>max_vps\<close>.
\<close>

definition USER_TASKS :: nat where "USER_TASKS = 9"
definition TOTAL_VPS :: nat where "TOTAL_VPS = 6"
definition TOTAL_TASKS :: nat where "TOTAL_TASKS = (USER_TASKS + TOTAL_VPS) + 1"

lemma TOTAL_TASKS_16: "TOTAL_TASKS = 16"
  by (simp add: TOTAL_TASKS_def USER_TASKS_def TOTAL_VPS_def)

abbreviation (input) UNUSED :: byte where "UNUSED \<equiv> 0"
abbreviation (input) In1 :: byte where "In1 \<equiv> 1"
abbreviation (input) In2 :: byte where "In2 \<equiv> 2"
abbreviation (input) Out1 :: byte where "Out1 \<equiv> 1"
abbreviation (input) Out2 :: byte where "Out2 \<equiv> 2"

section \<open>Messages\<close>

record msg =
  mbuf :: "byte list"
  moff :: nat

definition mrd :: "msg \<Rightarrow> nat \<Rightarrow> byte option" where
  "mrd m i = rd (mbuf m) (moff m + i)"

definition mwr :: "msg \<Rightarrow> nat \<Rightarrow> byte \<Rightarrow> msg option" where
  "mwr m i b = map_option (\<lambda>buf. m\<lparr>mbuf := buf\<rparr>) (wr (mbuf m) (moff m + i) b)"

definition mrdn :: "msg \<Rightarrow> nat \<Rightarrow> nat \<Rightarrow> byte list option" where
  "mrdn m i n = rdn (mbuf m) (moff m + i) n"

definition mwrn :: "msg \<Rightarrow> nat \<Rightarrow> byte list \<Rightarrow> msg option" where
  "mwrn m i bs = map_option (\<lambda>buf. m\<lparr>mbuf := buf\<rparr>) (wrn (mbuf m) (moff m + i) bs)"

definition madv :: "msg \<Rightarrow> nat \<Rightarrow> msg" where
  "madv m k = m\<lparr>moff := moff m + k\<rparr>"

definition mfree :: "msg \<Rightarrow> unit option" where
  "mfree m = (if moff m = 0 then Some () else None)"

text \<open>A message as the receiver reads it: port, and as many payload bytes as the length says.\<close>

definition mvps :: "msg \<Rightarrow> byte option" where
  "mvps m = mrd m 0"

definition mpayload :: "msg \<Rightarrow> byte list option" where
  "mpayload m = do { n \<leftarrow> mrd m 1; mrdn m 2 (unat n) }"

text \<open>The cells of the block from the pointer on.\<close>

definition mdata :: "msg \<Rightarrow> byte list" where
  "mdata m = drop (moff m) (mbuf m)"

lemma mrd_mdata: "mrd m i = rd (mdata m) i"
  by (auto simp: mrd_def mdata_def rd_def)

lemma mrdn_mdata: "moff m \<le> length (mbuf m) \<Longrightarrow> mrdn m i n = rdn (mdata m) i n"
  by (auto simp: mrdn_def mdata_def rdn_def add.commute)

lemma mdata_mwrn:
  "moff m \<le> length (mbuf m) \<Longrightarrow> map_option mdata (mwrn m i bs) = wrn (mdata m) i bs"
  by (auto simp: mwrn_def mdata_def wrn_def add.commute add.left_commute drop_take)

lemma mwr_moff: "mwr m i b = Some m' \<Longrightarrow> moff m' = moff m \<and> length (mbuf m') = length (mbuf m)"
  by (auto simp: mwr_def wr_Some_iff)

lemma mwrn_moff: "mwrn m i bs = Some m' \<Longrightarrow> moff m' = moff m \<and> length (mbuf m') = length (mbuf m)"
  by (auto simp: mwrn_def dest: wrn_length)

section \<open>Task contexts\<close>

text \<open>
  The condition variable and the mutex of a context are not data: a context is read and written
  only by the thread that holds its mutex, so one critical section is one step of the model.
\<close>

record task_context =
  holder :: "msg option"
  sender :: "byte list"
  occupied :: byte

definition empty_context :: task_context where
  "empty_context = \<lparr>holder = None, sender = replicate SENDERNAMESIZE 0, occupied = 0\<rparr>"

abbreviation sender_task :: "task_context \<Rightarrow> byte" where "sender_task c \<equiv> sender c ! 0"
abbreviation sender_input :: "task_context \<Rightarrow> byte" where "sender_input c \<equiv> sender c ! 1"
abbreviation sender_output :: "task_context \<Rightarrow> byte" where "sender_output c \<equiv> sender c ! 2"

end
