(* ===== verification/Alarm.thy ===== *)
theory Alarm
  imports Framework
begin

text \<open>
  The time manager (\<open>ihaplite/timemanager.c\<close>): one countdown and one signal flag for each task. A
  pass of \<open>TimeManagerTask\<close> runs every 100 ms; \<open>alarmSet\<close> and \<open>alarmTestAndReset\<close> are called by the
  tasks.
\<close>

record alarms =
  AlarmCountdown :: "u32 list"
  AlarmSignal :: "byte list"

definition alarms_init :: "nat \<Rightarrow> alarms" where
  "alarms_init n = \<lparr>AlarmCountdown = replicate n 0, AlarmSignal = replicate n 0\<rparr>"

text \<open>One pass over the tasks; the second component lists the tasks whose condition is signalled.\<close>

fun tick_from :: "nat list \<Rightarrow> alarms \<Rightarrow> alarms \<times> nat list" where
  "tick_from [] s = (s, [])"
| "tick_from (i # is) s =
     (if AlarmCountdown s ! i = 0 then tick_from is s
      else if AlarmCountdown s ! i \<le> 1 then
        (let s1 = s\<lparr>AlarmSignal := (AlarmSignal s)[i := 1],
                    AlarmCountdown := (AlarmCountdown s)[i := 0]\<rparr>;
             (s2, woken) = tick_from is s1
         in (s2, i # woken))
      else tick_from is (s\<lparr>AlarmCountdown := (AlarmCountdown s)[i := AlarmCountdown s ! i - 1]\<rparr>))"

definition TimeManager_tick :: "nat \<Rightarrow> alarms \<Rightarrow> alarms \<times> nat list" where
  "TimeManager_tick max_tasks s = tick_from [0..<max_tasks] s"

definition alarmSet :: "nat \<Rightarrow> u32 \<Rightarrow> alarms \<Rightarrow> alarms option" where
  "alarmSet i t s = map_option (\<lambda>c. s\<lparr>AlarmCountdown := c\<rparr>) (wr (AlarmCountdown s) i t)"

definition alarmTestAndReset :: "nat \<Rightarrow> alarms \<Rightarrow> (bool \<times> alarms) option" where
  "alarmTestAndReset i s = do {
     f \<leftarrow> rd (AlarmSignal s) i;
     (if f = 1 then Some (True, s\<lparr>AlarmSignal := (AlarmSignal s)[i := 0]\<rparr>)
      else Some (False, s))
   }"

section \<open>The contract of a timer\<close>

text \<open>
  A timer counts every armed alarm down by one in each tick and raises its flag when it gets to
  zero.
\<close>

locale alarm_clock =
  fixes ok :: "'s \<Rightarrow> nat \<Rightarrow> bool"
    and remaining :: "'s \<Rightarrow> nat \<Rightarrow> nat"
    and raised :: "'s \<Rightarrow> nat \<Rightarrow> bool"
    and tick :: "'s \<Rightarrow> 's"
  assumes ok_tick: "ok s i \<Longrightarrow> ok (tick s) i"
    and remaining_tick: "ok s i \<Longrightarrow> remaining (tick s) i = remaining s i - 1"
    and raised_tick: "ok s i \<Longrightarrow> raised (tick s) i \<longleftrightarrow> raised s i \<or> remaining s i = 1"
begin

lemma ok_ticks: "ok s i \<Longrightarrow> ok ((tick ^^ k) s) i"
  by (induction k) (auto intro: ok_tick)

lemma remaining_ticks: "ok s i \<Longrightarrow> remaining ((tick ^^ k) s) i = remaining s i - k"
  by (induction k) (auto simp: remaining_tick ok_ticks)

lemma raised_ticks:
  "ok s i \<Longrightarrow> raised ((tick ^^ k) s) i \<longleftrightarrow>
     raised s i \<or> (0 < remaining s i \<and> remaining s i \<le> k)"
  by (induction k) (auto simp: raised_tick ok_ticks remaining_ticks)

end

section \<open>The time manager implements it\<close>

definition alarm_ok :: "nat \<Rightarrow> alarms \<Rightarrow> nat \<Rightarrow> bool" where
  "alarm_ok n s i \<longleftrightarrow> i < n \<and> length (AlarmCountdown s) = n \<and> length (AlarmSignal s) = n"

abbreviation alarm_remaining :: "alarms \<Rightarrow> nat \<Rightarrow> nat" where
  "alarm_remaining s i \<equiv> unat (AlarmCountdown s ! i)"

abbreviation alarm_raised :: "alarms \<Rightarrow> nat \<Rightarrow> bool" where
  "alarm_raised s i \<equiv> AlarmSignal s ! i = 1"

lemma tick_from_lengths:
  "length (AlarmCountdown (fst (tick_from is s))) = length (AlarmCountdown s) \<and>
   length (AlarmSignal (fst (tick_from is s))) = length (AlarmSignal s)"
  by (induction "is" s rule: tick_from.induct) (auto simp: Let_def split: prod.splits)

text \<open>A pass treats every task that it visits once, and no other.\<close>

lemma tick_from_nth:
  assumes "distinct is" and "k < length (AlarmCountdown s)" and "k < length (AlarmSignal s)"
  shows "AlarmCountdown (fst (tick_from is s)) ! k =
      (if k \<in> set is \<and> AlarmCountdown s ! k \<noteq> 0 then AlarmCountdown s ! k - 1
       else AlarmCountdown s ! k) \<and>
    AlarmSignal (fst (tick_from is s)) ! k =
      (if k \<in> set is \<and> AlarmCountdown s ! k = 1 then 1 else AlarmSignal s ! k)"
  using assms
proof (induction "is" arbitrary: s)
  case (Cons i "is")
  show ?case
    using Cons.prems
    by (cases "i = k") (simp_all add: Cons.IH u32_le_1 Let_def case_prod_beta)
qed simp

lemma tick_from_woken:
  "distinct is \<Longrightarrow> set is \<subseteq> {..<length (AlarmCountdown s)} \<Longrightarrow>
   snd (tick_from is s) = filter (\<lambda>i. AlarmCountdown s ! i = 1) is"
proof (induction "is" arbitrary: s)
  case (Cons i "is")
  have *: "filter (\<lambda>k. (AlarmCountdown s)[i := c] ! k = 1) is =
      filter (\<lambda>k. AlarmCountdown s ! k = 1) is" for c
    using Cons.prems(1) by (intro filter_cong refl) (metis distinct.simps(2) nth_list_update_neq)
  show ?case
    using Cons.prems by (simp add: Cons.IH * u32_le_1 Let_def case_prod_beta)
qed simp

interpretation tm: alarm_clock "alarm_ok n" alarm_remaining alarm_raised
  "\<lambda>s. fst (TimeManager_tick n s)" for n
proof (unfold_locales, goal_cases)
  case (1 s i)
  then show ?case
    using tick_from_lengths by (auto simp: alarm_ok_def TimeManager_tick_def)
next
  case (2 s i)
  then show ?case
    by (auto simp: alarm_ok_def TimeManager_tick_def tick_from_nth unat_dec)
next
  case (3 s i)
  have "(c = 1) = (unat c = 1)" for c :: u32 by (simp add: word_unat_eq_iff)
  with 3 show ?case
    by (auto simp: alarm_ok_def TimeManager_tick_def tick_from_nth)
qed

section \<open>Properties\<close>

text \<open>
  Alarms fire on time and only once: after \<open>alarmSet(i, t)\<close> on a task whose flag is down, a test
  after \<open>k\<close> ticks succeeds exactly when \<open>0 < t \<le> k\<close>; an alarm set to 0 never fires; and once a
  fired alarm has been tested, it stays down for any number of further ticks.
\<close>

theorem alarm_fires_once:
  fixes s s1 :: alarms and n i k :: nat and t :: u32
  assumes "alarm_ok n s i" and "\<not> alarm_raised s i" and "alarmSet i t s = Some s1"
  defines "sk \<equiv> ((\<lambda>s. fst (TimeManager_tick n s)) ^^ k) s1"
  shows "\<exists>s2. alarmTestAndReset i sk = Some (0 < unat t \<and> unat t \<le> k, s2) \<and>
    (unat t \<le> k \<longrightarrow> (\<forall>j. \<not> alarm_raised (((\<lambda>s. fst (TimeManager_tick n s)) ^^ j) s2) i))"
proof -
  have s1: "alarm_ok n s1 i" "alarm_remaining s1 i = unat t" "\<not> alarm_raised s1 i"
    using assms(1-3) by (auto simp: alarm_ok_def alarmSet_def wr_def)
  have ok: "alarm_ok n sk i" and raised: "alarm_raised sk i \<longleftrightarrow> 0 < unat t \<and> unat t \<le> k"
    and rem: "alarm_remaining sk i = unat t - k"
    using tm.ok_ticks [OF s1(1)] tm.raised_ticks [OF s1(1)] tm.remaining_ticks [OF s1(1)] s1
    by (auto simp: sk_def)
  let ?s2 = "if alarm_raised sk i then sk\<lparr>AlarmSignal := (AlarmSignal sk)[i := 0]\<rparr> else sk"
  have "alarmTestAndReset i sk = Some (0 < unat t \<and> unat t \<le> k, ?s2)"
    using ok raised by (auto simp: alarmTestAndReset_def alarm_ok_def rd_def)
  moreover have "alarm_ok n ?s2 i" "\<not> alarm_raised ?s2 i" "alarm_remaining ?s2 i = unat t - k"
    using ok rem by (auto simp: alarm_ok_def)
  then have "\<not> alarm_raised (((\<lambda>s. fst (TimeManager_tick n s)) ^^ j) ?s2) i" if "unat t \<le> k" for j
    using that tm.raised_ticks [of n ?s2 i j] by simp
  ultimately show ?thesis by blast
qed

theorem alarm_fires_once_witness:
  "\<exists>s1 s2. alarmSet 2 3 (alarms_init 4) = Some s1 \<and>
     alarmTestAndReset 2 (((\<lambda>s. fst (TimeManager_tick 4 s)) ^^ 3) s1) = Some (True, s2)"
proof -
  have ok: "alarm_ok 4 (alarms_init 4) 2" "\<not> alarm_raised (alarms_init 4) 2"
    by (simp_all add: alarm_ok_def alarms_init_def)
  obtain s1 where s1: "alarmSet 2 3 (alarms_init 4) = Some s1"
    by (simp add: alarmSet_def wr_def alarms_init_def)
  from alarm_fires_once [OF ok s1, of 3] s1 show ?thesis by auto
qed

text \<open>
  A tick wakes exactly the tasks whose alarm has one tick left, in the order of their
  numbers, and does not touch the alarm of any other task.
\<close>

theorem tick_wakes:
  assumes "length (AlarmCountdown s) = n" and "length (AlarmSignal s) = n"
  shows "snd (TimeManager_tick n s) = filter (\<lambda>i. AlarmCountdown s ! i = 1) [0..<n] \<and>
    (\<forall>i<n. alarm_raised (fst (TimeManager_tick n s)) i \<longleftrightarrow>
       alarm_raised s i \<or> i \<in> set (snd (TimeManager_tick n s)))"
proof -
  have "snd (TimeManager_tick n s) = filter (\<lambda>i. AlarmCountdown s ! i = 1) [0..<n]"
    using assms by (simp add: TimeManager_tick_def tick_from_woken atLeast0LessThan)
  then show ?thesis
    using assms by (auto simp: TimeManager_tick_def tick_from_nth)
qed

theorem tick_wakes_witness:
  "snd (TimeManager_tick 3 \<lparr>AlarmCountdown = [0, 1, 2], AlarmSignal = [0, 0, 0]\<rparr>) = [1]"
proof -
  let ?s = "\<lparr>AlarmCountdown = [0, 1, 2], AlarmSignal = [0, 0, 0]\<rparr>"
  have "length (AlarmCountdown ?s) = 3" "length (AlarmSignal ?s) = 3" by simp_all
  from tick_wakes [OF this] show ?thesis by (simp add: upt_rec)
qed

end
