(* ===== verification/MsgHandler.thy ===== *)
theory MsgHandler
  imports Alarm "HOL-Library.Multiset"
begin

text \<open>
  The message handler (\<open>ihaplite/msghandler.c\<close>): the queue of four slots, the routing table, the
  delivery loop of the handler thread, and the calls \<open>broadcast_msg\<close>, \<open>receive\<close>,
  \<open>msgTestAndReset\<close> and \<open>msgSignalAndRelease\<close> of the other tasks.

  One wake-up of the handler thread is one step: it runs under the mutex of \<open>msg_context\<close>. Whether
  the mutex of a receiver can be taken is decided by the environment (\<open>lock\<close>, for each slot).
\<close>

record msgsys =
  queue :: "byte list"
  queue_struct :: "task_context list"
  currentmsg :: int
  msg_context :: task_context
  Context_array :: "task_context list"
  MessageSignal :: "byte list"
  msg_table :: "(byte \<times> byte) list list"
  timer :: alarms

section \<open>The queue\<close>

definition queue_add :: "msgsys \<Rightarrow> bool \<times> msgsys" where
  "queue_add s =
     (case find (\<lambda>i. queue s ! i = 0) [0..<QUEUESIZE] of
        Some i \<Rightarrow> (False, s\<lparr>queue_struct := (queue_struct s)[i := msg_context s],
                          queue := (queue s)[i := 1]\<rparr>)
      | None \<Rightarrow> (True, s))"

function qn_scan :: "byte list \<Rightarrow> int \<Rightarrow> int option" where
  "qn_scan q c =
     (if c < int QUEUESIZE then do {
        f \<leftarrow> rdi q c;
        (if f = 0 then qn_scan q (c + 1) else Some c)
      } else Some c)"
  by pat_completeness auto

termination
  by (relation "measure (\<lambda>(q, c). nat (int QUEUESIZE - c))") auto

declare qn_scan.simps [simp del]

definition queue_nextmsg :: "msgsys \<Rightarrow> (bool \<times> msgsys) option" where
  "queue_nextmsg s = do {
     c \<leftarrow> qn_scan (queue s) (currentmsg s + 1);
     (if c < int QUEUESIZE then do {
        x \<leftarrow> rdi (queue_struct s) c;
        Some (True, s\<lparr>currentmsg := c, msg_context := x\<rparr>)
      } else Some (False, s\<lparr>currentmsg := -1\<rparr>))
   }"

definition queue_remove :: "msgsys \<Rightarrow> msgsys option" where
  "queue_remove s =
     (if currentmsg s < 0 then None
      else map_option (\<lambda>q. s\<lparr>queue := q\<rparr>) (wr (queue s) (nat (currentmsg s)) 0))"

section \<open>Routing and signals\<close>

definition insert_msg_table_entry ::
  "(byte \<times> byte) list list \<Rightarrow> byte \<Rightarrow> byte \<Rightarrow> byte \<Rightarrow> byte \<Rightarrow> (byte \<times> byte) list list option" where
  "insert_msg_table_entry tbl task out rtask rin = do {
     row \<leftarrow> rd tbl (unat task);
     _ \<leftarrow> rdi row (uint out - 1);
     row' \<leftarrow> wr row (nat (uint out - 1)) (rtask, rin);
     wr tbl (unat task) row'
   }"

definition route :: "(byte \<times> byte) list list \<Rightarrow> byte \<Rightarrow> byte \<Rightarrow> (byte \<times> byte) option" where
  "route tbl task out = do { row \<leftarrow> rd tbl (unat task); rdi row (uint out - 1) }"

definition msgSignalAndRelease :: "nat \<Rightarrow> byte list \<Rightarrow> byte list option" where
  "msgSignalAndRelease i sig = wr sig i 1"

definition msgTestAndReset :: "nat \<Rightarrow> byte list \<Rightarrow> (bool \<times> byte list) option" where
  "msgTestAndReset i sig = do {
     f \<leftarrow> rd sig i;
     (if f = 1 then Some (True, sig[i := 0]) else Some (False, sig))
   }"

text \<open>What a task does when its condition variable wakes it up (the return of \<open>receive\<close>).\<close>

definition receive :: "nat \<Rightarrow> msgsys \<Rightarrow> (bool \<times> msgsys) option" where
  "receive i s = do {
     (f, sig) \<leftarrow> msgTestAndReset i (MessageSignal s);
     Some (f, s\<lparr>MessageSignal := sig\<rparr>)
   }"

text \<open>
  \<open>broadcast_msg\<close> waits until \<open>msg_context\<close> is no longer occupied: \<open>None\<close> in the first component
  says that it has to try again.
\<close>

definition broadcast_msg :: "byte \<Rightarrow> byte \<Rightarrow> msg \<Rightarrow> msgsys \<Rightarrow> msgsys option" where
  "broadcast_msg task outport m s =
     (if occupied (msg_context s) \<noteq> 0 then None
      else Some (s\<lparr>msg_context :=
        \<lparr>holder = Some m, sender = [task, UNUSED, outport], occupied = 1\<rparr>\<rparr>))"

section \<open>The handler thread\<close>

text \<open>
  One round of the delivery loop, for the message that \<open>queue_nextmsg\<close> has copied to
  \<open>msg_context\<close>. The list returned holds the receivers whose condition is signalled.
\<close>

definition mh_deliver ::
  "(nat \<Rightarrow> bool) \<Rightarrow> msgsys \<Rightarrow> ((byte \<times> task_context) list \<times> msgsys) option" where
  "mh_deliver lock s = do {
     let ctx = msg_context s;
     (rt, ri) \<leftarrow> route (msg_table s) (sender_task ctx) (sender_output ctx);
     let ctx' = ctx\<lparr>sender := [rt, ri, UNUSED]\<rparr>;
     rc \<leftarrow> rd (Context_array s) (unat rt);
     (if lock (nat (currentmsg s)) then do {
        sig \<leftarrow> msgSignalAndRelease (unat rt) (MessageSignal s);
        s' \<leftarrow> queue_remove s;
        Some ([(rt, ctx')], s'\<lparr>msg_context := ctx', MessageSignal := sig,
          Context_array := (Context_array s)[unat rt := rc\<lparr>holder := holder ctx, sender := sender ctx'\<rparr>]\<rparr>)
      } else do {
        tm \<leftarrow> alarmSet (TOTAL_TASKS - 1) 2 (timer s);
        Some ([], s\<lparr>msg_context := ctx', timer := tm\<rparr>)
      })
   }"

lemma qn_scan_ge: "qn_scan q c = Some d \<Longrightarrow> c \<le> d"
  by (induction q c rule: qn_scan.induct)
     (subst (asm) (2) qn_scan.simps, fastforce split: if_splits bind_splits)

lemma queue_nextmsg_progress:
  "queue_nextmsg s = Some (True, s') \<Longrightarrow> currentmsg s < currentmsg s' \<and> currentmsg s' < int QUEUESIZE"
  by (auto simp: queue_nextmsg_def dest!: qn_scan_ge split: bind_splits if_splits)

lemma mh_deliver_currentmsg: "mh_deliver lock s = Some (l, s') \<Longrightarrow> currentmsg s' = currentmsg s"
  by (auto simp: mh_deliver_def queue_remove_def Let_def split: bind_splits if_splits prod.splits)

function mh_drain ::
  "(nat \<Rightarrow> bool) \<Rightarrow> msgsys \<Rightarrow> ((byte \<times> task_context) list \<times> msgsys) option" where
  "mh_drain lock s = do {
     (more, s1) \<leftarrow> queue_nextmsg s;
     (if more then do {
        (l, s2) \<leftarrow> mh_deliver lock s1;
        (l', s3) \<leftarrow> mh_drain lock s2;
        Some (l @ l', s3)
      } else Some ([], s1))
   }"
  by pat_completeness auto

termination
  by (relation "measure (\<lambda>(lock, s). nat (int QUEUESIZE - currentmsg s))")
     (auto dest!: queue_nextmsg_progress mh_deliver_currentmsg)

declare mh_drain.simps [simp del]

text \<open>
  The body of the handler's loop: when the alarm of the handler is up, the wake-up is taken to be a
  retry and nothing is added to the queue.
\<close>

definition msgHandler_wake ::
  "(nat \<Rightarrow> bool) \<Rightarrow> msgsys \<Rightarrow> ((byte \<times> task_context) list \<times> msgsys) option" where
  "msgHandler_wake lock s = do {
     (al, tm) \<leftarrow> alarmTestAndReset (TOTAL_TASKS - 1) (timer s);
     let s1 = s\<lparr>timer := tm\<rparr>;
     let s2 = (if al then s1 else snd (queue_add s1));
     (l, s3) \<leftarrow> mh_drain lock s2;
     Some (l, s3\<lparr>msg_context := (msg_context s3)\<lparr>occupied := 0\<rparr>\<rparr>)
   }"

section \<open>What the queue promises\<close>

definition slots :: "byte list \<Rightarrow> nat list" where
  "slots q = filter (\<lambda>i. q ! i \<noteq> 0) [0..<QUEUESIZE]"

definition pending :: "msgsys \<Rightarrow> task_context list" where
  "pending s = map (\<lambda>i. queue_struct s ! i) (slots (queue s))"

definition mh_wf :: "msgsys \<Rightarrow> bool" where
  "mh_wf s \<longleftrightarrow> length (queue s) = QUEUESIZE \<and> length (queue_struct s) = QUEUESIZE \<and>
     length (Context_array s) = TOTAL_TASKS + 1 \<and> length (MessageSignal s) = TOTAL_TASKS \<and>
     length (AlarmCountdown (timer s)) = TOTAL_TASKS \<and> length (AlarmSignal (timer s)) = TOTAL_TASKS"

text \<open>
  A bounded store takes a message as long as it has room, refuses it otherwise, and never loses a
  message that it holds.
\<close>

locale msg_store =
  fixes wf :: "'s \<Rightarrow> bool"
    and stored :: "'s \<Rightarrow> 'm multiset"
    and capacity :: nat
    and incoming :: "'s \<Rightarrow> 'm"
    and put :: "'s \<Rightarrow> bool \<times> 's"
  assumes put_wf: "wf s \<Longrightarrow> wf (snd (put s))"
    and bounded: "wf s \<Longrightarrow> size (stored s) \<le> capacity"
    and put_room: "wf s \<Longrightarrow> size (stored s) < capacity \<Longrightarrow>
      \<not> fst (put s) \<and> stored (snd (put s)) = add_mset (incoming s) (stored s)"
    and put_full: "wf s \<Longrightarrow> size (stored s) = capacity \<Longrightarrow> put s = (True, s)"
begin

lemma put_keeps: "wf s \<Longrightarrow> stored s \<subseteq># stored (snd (put s))"
  using bounded [of s] put_room [of s] put_full [of s] by (cases "size (stored s) = capacity") auto

lemma refused_iff: "wf s \<Longrightarrow> fst (put s) \<longleftrightarrow> size (stored s) = capacity"
  using bounded [of s] put_room [of s] put_full [of s] by (cases "size (stored s) = capacity") auto

lemma put_size: "wf s \<Longrightarrow> size (stored (snd (put s))) = min capacity (Suc (size (stored s)))"
  using bounded [of s] put_room [of s] put_full [of s] by (cases "size (stored s) = capacity") auto

end

lemma filter_upd_free:
  assumes "i < n" and "length q = n" and "q ! i = (0::byte)" and "length xs = n"
  shows "mset (map (\<lambda>k. xs[i := x] ! k) (filter (\<lambda>k. q[i := 1] ! k \<noteq> 0) [0..<n])) =
    add_mset x (mset (map (\<lambda>k. xs ! k) (filter (\<lambda>k. q ! k \<noteq> 0) [0..<n])))"
proof -
  have split: "[0..<n] = [0..<i] @ i # [Suc i..<n]"
    using assms(1) upt_add_eq_append [of 0 i "n - i"] by (simp add: upt_conv_Cons)
  define A where "A = map (\<lambda>k. xs ! k) (filter (\<lambda>k. q ! k \<noteq> 0) [0..<i])"
  define B where "B = map (\<lambda>k. xs ! k) (filter (\<lambda>k. q ! k \<noteq> 0) [Suc i..<n])"
  have low: "map (\<lambda>k. xs[i := x] ! k) (filter (\<lambda>k. q[i := 1] ! k \<noteq> 0) [0..<i]) = A"
    and high: "map (\<lambda>k. xs[i := x] ! k) (filter (\<lambda>k. q[i := 1] ! k \<noteq> 0) [Suc i..<n]) = B"
    unfolding A_def B_def by (auto intro!: map_cong filter_cong)
  have "map (\<lambda>k. xs[i := x] ! k) (filter (\<lambda>k. q[i := 1] ! k \<noteq> 0) [0..<n]) = A @ x # B"
    using assms low high unfolding split filter_append map_append by simp
  moreover have "map (\<lambda>k. xs ! k) (filter (\<lambda>k. q ! k \<noteq> 0) [0..<n]) = A @ B"
    using assms unfolding split filter_append map_append A_def B_def by simp
  ultimately show ?thesis by (simp only: mset_append mset.simps union_mset_add_mset_right)
qed

lemma slots_full_iff: "length (slots q) = QUEUESIZE \<longleftrightarrow> (\<forall>i<QUEUESIZE. q ! i \<noteq> 0)"
proof -
  have "length (slots q) = length [0..<QUEUESIZE] \<longleftrightarrow> (\<forall>i \<in> set [0..<QUEUESIZE]. q ! i \<noteq> 0)"
    unfolding slots_def by (metis (mono_tags, lifting) filter_True length_filter_less less_irrefl)
  then show ?thesis by auto
qed

interpretation mq: msg_store mh_wf "\<lambda>s. mset (pending s)" QUEUESIZE msg_context queue_add
proof (unfold_locales, goal_cases)
  case (1 s)
  then show ?case by (auto simp: mh_wf_def queue_add_def split: option.split)
next
  case (2 s)
  have "length (slots (queue s)) \<le> length [0..<QUEUESIZE]"
    unfolding slots_def by (rule length_filter_le)
  then show ?case by (simp add: pending_def)
next
  case (3 s)
  then have "\<not> (\<forall>i<QUEUESIZE. queue s ! i \<noteq> 0)"
    using slots_full_iff [of "queue s"] by (auto simp: pending_def)
  then obtain i where i: "find (\<lambda>i. queue s ! i = 0) [0..<QUEUESIZE] = Some i"
    by (cases "find (\<lambda>i. queue s ! i = 0) [0..<QUEUESIZE]") (auto simp: find_None_range)
  then have "i < QUEUESIZE" "queue s ! i = 0" by (auto simp: find_Some_least)
  then show ?case
    using filter_upd_free [of i QUEUESIZE "queue s" "queue_struct s" "msg_context s"] 3 i
    by (simp add: queue_add_def pending_def slots_def mh_wf_def)
next
  case (4 s)
  then have "\<forall>i<QUEUESIZE. queue s ! i \<noteq> 0"
    using slots_full_iff [of "queue s"] by (auto simp: pending_def)
  then have "find (\<lambda>i. queue s ! i = 0) [0..<QUEUESIZE] = None" by (simp add: find_None_range)
  then show ?case by (simp add: queue_add_def)
qed

section \<open>The delivery loop visits the occupied slots in order\<close>

text \<open>The loop over \<open>currentmsg\<close> as a recursion over the list of occupied slots.\<close>

fun deliver_slots ::
  "(nat \<Rightarrow> bool) \<Rightarrow> nat list \<Rightarrow> msgsys \<Rightarrow> ((byte \<times> task_context) list \<times> msgsys) option" where
  "deliver_slots lock [] s = Some ([], s\<lparr>currentmsg := -1\<rparr>)"
| "deliver_slots lock (i # is) s = do {
     (l, s1) \<leftarrow> mh_deliver lock (s\<lparr>currentmsg := int i, msg_context := queue_struct s ! i\<rparr>);
     (l', s2) \<leftarrow> deliver_slots lock is s1;
     Some (l @ l', s2)
   }"

lemma qn_scan_find:
  assumes "length q = QUEUESIZE" and "n \<le> QUEUESIZE"
  shows "qn_scan q (int n) = Some (case find (\<lambda>i. q ! i \<noteq> 0) [n..<QUEUESIZE] of
    Some i \<Rightarrow> int i | None \<Rightarrow> int QUEUESIZE)"
  using assms(2)
proof (induction "QUEUESIZE - n" arbitrary: n)
  case 0
  then show ?case by (subst qn_scan.simps) simp
next
  case (Suc d)
  then have n: "n < QUEUESIZE" by simp
  have "qn_scan q (int (Suc n)) = Some (case find (\<lambda>i. q ! i \<noteq> 0) [Suc n..<QUEUESIZE] of
    Some i \<Rightarrow> int i | None \<Rightarrow> int QUEUESIZE)"
    using Suc n by (intro Suc.hyps(1)) auto
  then show ?case
    using n assms(1)
    by (subst qn_scan.simps) (simp add: rdi_def rd_def upt_conv_Cons add.commute)
qed

lemma find_filter: "find P xs = (case filter P xs of [] \<Rightarrow> None | x # _ \<Rightarrow> Some x)"
  by (induction xs) auto

lemma filter_upt_Cons:
  "filter P [n..<m] = i # is \<Longrightarrow> n \<le> i \<and> i < m \<and> P i \<and> is = filter P [Suc i..<m]"
proof (induction "m - n" arbitrary: n)
  case (Suc d)
  then have "[n..<m] = n # [Suc n..<m]" by (simp add: upt_conv_Cons)
  with Suc show ?case by (cases "P n") force+
qed simp

text \<open>What one delivery changes.\<close>

definition routed :: "(byte \<times> byte) list list \<Rightarrow> task_context \<Rightarrow> byte \<times> task_context" where
  "routed tbl c = (case route tbl (sender_task c) (sender_output c) of
     Some (rt, ri) \<Rightarrow> (rt, c\<lparr>sender := [rt, ri, UNUSED]\<rparr>) | None \<Rightarrow> (0, c))"

definition routable :: "(byte \<times> byte) list list \<Rightarrow> task_context \<Rightarrow> bool" where
  "routable tbl c \<longleftrightarrow> (case route tbl (sender_task c) (sender_output c) of
     Some (rt, ri) \<Rightarrow> unat rt < TOTAL_TASKS | None \<Rightarrow> False)"

definition put_context :: "task_context list \<Rightarrow> byte \<times> task_context \<Rightarrow> task_context list" where
  "put_context C p = (let i = unat (fst p) in
     C[i := (C ! i)\<lparr>holder := holder (snd p), sender := sender (snd p)\<rparr>])"

lemma length_put_context [simp]: "length (put_context C p) = length C"
  by (simp add: put_context_def Let_def)

definition delivered :: "nat \<Rightarrow> byte \<times> task_context \<Rightarrow> msgsys \<Rightarrow> msgsys" where
  "delivered i p s = s\<lparr>currentmsg := int i, msg_context := snd p, queue := (queue s)[i := 0],
     MessageSignal := (MessageSignal s)[unat (fst p) := 1],
     Context_array := put_context (Context_array s) p\<rparr>"

definition deferred :: "nat \<Rightarrow> byte \<times> task_context \<Rightarrow> msgsys \<Rightarrow> msgsys" where
  "deferred i p s = s\<lparr>currentmsg := int i, msg_context := snd p,
     timer := (timer s)\<lparr>AlarmCountdown := (AlarmCountdown (timer s))[TOTAL_TASKS - 1 := 2]\<rparr>\<rparr>"

lemmas deliver_step_defs = delivered_def deferred_def mh_wf_def

lemma mh_deliver_eq:
  assumes "mh_wf s" and "i < QUEUESIZE" and "routable (msg_table s) c"
  shows "mh_deliver lock (s\<lparr>currentmsg := int i, msg_context := c\<rparr>) =
    (if lock i then Some ([routed (msg_table s) c], delivered i (routed (msg_table s) c) s)
     else Some ([], deferred i (routed (msg_table s) c) s))"
proof -
  obtain rt ri where r: "route (msg_table s) (sender_task c) (sender_output c) = Some (rt, ri)"
    and rt: "unat rt < TOTAL_TASKS"
    using assms(3) by (auto simp: routable_def split: option.splits)
  then show ?thesis
    using assms(1,2)
    by (simp add: mh_deliver_def Let_def rd_def msgSignalAndRelease_def wr_def queue_remove_def
        alarmSet_def routed_def put_context_def deliver_step_defs TOTAL_TASKS_16)
qed

lemma deliver_step_wf:
  "mh_wf s \<Longrightarrow> mh_wf (delivered i p s) \<and> mh_wf (deferred i p s)"
  by (simp add: deliver_step_defs)

lemma mh_drain_slots:
  assumes "mh_wf s" and "-1 \<le> currentmsg s" and "currentmsg s < int QUEUESIZE"
    and "n = nat (currentmsg s + 1)"
    and "\<And>i. n \<le> i \<Longrightarrow> i < QUEUESIZE \<Longrightarrow> queue s ! i \<noteq> 0 \<Longrightarrow> routable (msg_table s) (queue_struct s ! i)"
  shows "mh_drain lock s = deliver_slots lock (filter (\<lambda>i. queue s ! i \<noteq> 0) [n..<QUEUESIZE]) s"
  using assms
proof (induction "QUEUESIZE - n" arbitrary: s n rule: less_induct)
  case less
  let ?l = "filter (\<lambda>i. queue s ! i \<noteq> 0) [n..<QUEUESIZE]"
  have q: "length (queue s) = QUEUESIZE" "length (queue_struct s) = QUEUESIZE" "n \<le> QUEUESIZE"
    "currentmsg s + 1 = int n"
    using less.prems by (auto simp: mh_wf_def)
  show ?case
  proof (cases ?l)
    case Nil
    then show ?thesis
      using q by (subst mh_drain.simps) (simp add: queue_nextmsg_def qn_scan_find find_filter)
  next
    case (Cons i l)
    from filter_upt_Cons [OF this] have i: "n \<le> i" "i < QUEUESIZE" "queue s ! i \<noteq> 0"
      and l: "l = filter (\<lambda>i. queue s ! i \<noteq> 0) [Suc i..<QUEUESIZE]" by auto
    let ?s1 = "s\<lparr>currentmsg := int i, msg_context := queue_struct s ! i\<rparr>"
    have next_eq: "queue_nextmsg s = Some (True, ?s1)"
      using q i Cons by (simp add: queue_nextmsg_def qn_scan_find find_filter rdi_def rd_def)
    have rt: "routable (msg_table s) (queue_struct s ! i)" by (rule less.prems(5)) (use i in auto)
    have rest: "mh_drain lock s2 = deliver_slots lock l s2"
      if s2: "mh_wf s2" "currentmsg s2 = int i" "msg_table s2 = msg_table s"
        "queue_struct s2 = queue_struct s" "\<And>k. i < k \<Longrightarrow> queue s2 ! k = queue s ! k" for s2
    proof -
      have "mh_drain lock s2 =
          deliver_slots lock (filter (\<lambda>i. queue s2 ! i \<noteq> 0) [Suc i..<QUEUESIZE]) s2"
        using s2 i less.prems(5) by (intro less.hyps) (auto simp: diff_less_mono2)
      also have "filter (\<lambda>i. queue s2 ! i \<noteq> 0) [Suc i..<QUEUESIZE] = l"
        unfolding l using s2(5) by (auto intro!: filter_cong)
      finally show ?thesis .
    qed
    have step: "mh_drain lock s = do {
        (l1, s2) \<leftarrow> mh_deliver lock ?s1; (l2, s3) \<leftarrow> mh_drain lock s2; Some (l1 @ l2, s3) }"
      by (subst mh_drain.simps) (simp add: next_eq)
    let ?p = "routed (msg_table s) (queue_struct s ! i)"
    show ?thesis
      using rest [of "delivered i ?p s"] rest [of "deferred i ?p s"] deliver_step_wf [OF less.prems(1)]
      by (simp add: step Cons mh_deliver_eq [OF less.prems(1) i(2) rt])
         (simp add: deliver_step_defs)
  qed
qed

section \<open>The outcome of a pass\<close>

definition pass_outcome ::
  "(nat \<Rightarrow> bool) \<Rightarrow> nat list \<Rightarrow> msgsys \<Rightarrow> (byte \<times> task_context) list \<Rightarrow> msgsys \<Rightarrow> bool" where
  "pass_outcome lock is s l s' \<longleftrightarrow>
     l = map (\<lambda>i. routed (msg_table s) (queue_struct s ! i)) (filter lock is) \<and>
     mh_wf s' \<and> currentmsg s' = -1 \<and> queue_struct s' = queue_struct s \<and> msg_table s' = msg_table s \<and>
     (\<forall>k. queue s' ! k = (if k \<in> set is \<and> lock k then 0 else queue s ! k)) \<and>
     Context_array s' = foldl put_context (Context_array s) l \<and>
     AlarmSignal (timer s') = AlarmSignal (timer s) \<and>
     AlarmCountdown (timer s') ! (TOTAL_TASKS - 1) =
       (if \<forall>i \<in> set is. lock i then AlarmCountdown (timer s) ! (TOTAL_TASKS - 1) else 2)"

lemma deliver_slots_outcome:
  assumes "mh_wf s" and "distinct is" and "set is \<subseteq> {..<QUEUESIZE}"
    and "\<And>i. i \<in> set is \<Longrightarrow> routable (msg_table s) (queue_struct s ! i)"
  shows "\<exists>l s'. deliver_slots lock is s = Some (l, s') \<and> pass_outcome lock is s l s'"
  using assms
proof (induction "is" arbitrary: s)
  case Nil
  then show ?case by (simp add: pass_outcome_def mh_wf_def)
next
  case (Cons i "is")
  let ?p = "routed (msg_table s) (queue_struct s ! i)"
  let ?s1 = "if lock i then delivered i ?p s else deferred i ?p s"
  have wf1: "mh_wf ?s1" and lens: "length (queue s) = QUEUESIZE"
    "length (AlarmCountdown (timer s)) = TOTAL_TASKS"
    using deliver_step_wf [OF Cons.prems(1)] Cons.prems(1) by (auto simp: mh_wf_def)
  have "\<exists>l s'. deliver_slots lock is ?s1 = Some (l, s') \<and> pass_outcome lock is ?s1 l s'"
    using Cons.prems by (intro Cons.IH [OF wf1]) (auto simp: deliver_step_defs)
  then obtain l s' where rest: "deliver_slots lock is ?s1 = Some (l, s')"
    and out: "pass_outcome lock is ?s1 l s'" by blast
  have "mh_deliver lock (s\<lparr>currentmsg := int i, msg_context := queue_struct s ! i\<rparr>) =
      (if lock i then Some ([?p], delivered i ?p s) else Some ([], deferred i ?p s))"
    using Cons.prems by (intro mh_deliver_eq) auto
  then have "deliver_slots lock (i # is) s = Some ((if lock i then [?p] else []) @ l, s')"
    using rest by (cases "lock i") simp_all
  moreover have "pass_outcome lock (i # is) s ((if lock i then [?p] else []) @ l) s'"
    using out Cons.prems(2,3) lens
    by (cases "lock i") (auto simp: pass_outcome_def delivered_def deferred_def nth_list_update
        TOTAL_TASKS_16)
  ultimately show ?case by blast
qed

definition all_routable :: "msgsys \<Rightarrow> bool" where
  "all_routable s \<longleftrightarrow> (\<forall>c \<in> set (pending s). routable (msg_table s) c)"

lemma mh_drain_outcome:
  assumes "mh_wf s" and "currentmsg s = -1" and "all_routable s"
  shows "\<exists>l s'. mh_drain lock s = Some (l, s') \<and> pass_outcome lock (slots (queue s)) s l s'"
proof -
  have rt: "routable (msg_table s) (queue_struct s ! i)" if "i \<in> set (slots (queue s))" for i
    using that assms(3) by (auto simp: all_routable_def pending_def)
  have "mh_drain lock s = deliver_slots lock (slots (queue s)) s"
    unfolding slots_def using assms rt
    by (intro mh_drain_slots) (auto simp: slots_def QUEUESIZE_def)
  moreover have "distinct (slots (queue s))" "set (slots (queue s)) \<subseteq> {..<QUEUESIZE}"
    by (auto simp: slots_def)
  ultimately show ?thesis
    using deliver_slots_outcome [OF assms(1)] rt by metis
qed

lemma pass_pending:
  assumes "pass_outcome lock (slots (queue s)) s l s'"
  shows "pending s' = map (\<lambda>i. queue_struct s ! i) (filter (\<lambda>i. \<not> lock i) (slots (queue s)))"
proof -
  have "slots (queue s') = filter (\<lambda>i. \<not> lock i) (slots (queue s))"
    using assms unfolding pass_outcome_def slots_def filter_filter
    by (intro filter_cong) auto
  then show ?thesis using assms by (simp add: pending_def pass_outcome_def)
qed

text \<open>Every message of the queue is either handed to its receiver or still in the queue.\<close>

lemma pass_conserves:
  assumes "pass_outcome lock (slots (queue s)) s l s'"
  shows "mset l + image_mset (routed (msg_table s)) (mset (pending s')) =
    image_mset (routed (msg_table s)) (mset (pending s))"
proof -
  let ?r = "\<lambda>i. routed (msg_table s) (queue_struct s ! i)"
  let ?S = "slots (queue s)"
  have "mset l = image_mset ?r (filter_mset lock (mset ?S))"
    using assms by (simp add: pass_outcome_def)
  moreover have "image_mset (routed (msg_table s)) (mset (pending s')) =
      image_mset ?r (filter_mset (\<lambda>i. \<not> lock i) (mset ?S))"
    by (simp only: pass_pending [OF assms] mset_map mset_filter image_mset.compositionality comp_def)
  moreover have "image_mset (routed (msg_table s)) (mset (pending s)) = image_mset ?r (mset ?S)"
    by (simp only: pending_def mset_map image_mset.compositionality comp_def)
  ultimately show ?thesis
    by (metis image_mset_union multiset_partition)
qed

section \<open>Properties\<close>

lemma queue_add_frame:
  "msg_table (snd (queue_add s)) = msg_table s \<and> currentmsg (snd (queue_add s)) = currentmsg s \<and>
   timer (snd (queue_add s)) = timer s"
  by (simp add: queue_add_def split: option.split)

lemma wake_noalarm:
  assumes "mh_wf s" and "AlarmSignal (timer s) ! (TOTAL_TASKS - 1) \<noteq> 1"
  shows "msgHandler_wake lock s = map_option
    (\<lambda>(l, s3). (l, s3\<lparr>msg_context := (msg_context s3)\<lparr>occupied := 0\<rparr>\<rparr>)) (mh_drain lock (snd (queue_add s)))"
  using assms
  by (auto simp: msgHandler_wake_def alarmTestAndReset_def rd_def mh_wf_def TOTAL_TASKS_16
      split: bind_splits option.split)

lemma wake_alarm:
  assumes "mh_wf s" and "AlarmSignal (timer s) ! (TOTAL_TASKS - 1) = 1"
  defines "s1 \<equiv> s\<lparr>timer := (timer s)\<lparr>AlarmSignal := (AlarmSignal (timer s))[TOTAL_TASKS - 1 := 0]\<rparr>\<rparr>"
  shows "msgHandler_wake lock s = map_option
    (\<lambda>(l, s3). (l, s3\<lparr>msg_context := (msg_context s3)\<lparr>occupied := 0\<rparr>\<rparr>)) (mh_drain lock s1)"
  using assms
  by (auto simp: msgHandler_wake_def alarmTestAndReset_def rd_def mh_wf_def TOTAL_TASKS_16
      split: bind_splits option.split)


text \<open>The state of the witnesses: task 0 may send to task 2 through its first output.\<close>

definition example_sys :: "byte \<Rightarrow> byte list \<Rightarrow> msgsys" where
  "example_sys alarm q = \<lparr>queue = q,
     queue_struct = replicate QUEUESIZE \<lparr>holder = None, sender = [0, 0, 1], occupied = 1\<rparr>,
     currentmsg = -1,
     msg_context = \<lparr>holder = Some \<lparr>mbuf = [1, 0], moff = 0\<rparr>, sender = [0, 0, 1], occupied = 1\<rparr>,
     Context_array = replicate (TOTAL_TASKS + 1) empty_context,
     MessageSignal = replicate TOTAL_TASKS 0,
     msg_table = [[(2, 1)]],
     timer = \<lparr>AlarmCountdown = replicate TOTAL_TASKS 0,
              AlarmSignal = (replicate TOTAL_TASKS 0)[TOTAL_TASKS - 1 := alarm]\<rparr>\<rparr>"

lemma example_sys_wf:
  "length q = QUEUESIZE \<Longrightarrow> mh_wf (example_sys a q)"
  "currentmsg (example_sys a q) = -1"
  "AlarmSignal (timer (example_sys a q)) ! (TOTAL_TASKS - 1) = a"
  "length q = QUEUESIZE \<Longrightarrow> all_routable (example_sys a q)"
  "routable (msg_table (example_sys a q)) (msg_context (example_sys a q))"
  by (auto simp: mh_wf_def example_sys_def TOTAL_TASKS_16 all_routable_def pending_def slots_def
      routable_def route_def rd_def rdi_def)


text \<open>
  A message that is broadcast while the handler's retry alarm is up is lost: the handler takes
  the wake-up for a retry, does not add the message to the queue, serves the waiting messages only
  (the new one is in none of the deliveries), and frees the slot of the senders all the same.
\<close>

theorem msgHandler_alarm_loses_message:
  assumes "mh_wf s" and "currentmsg s = -1" and "AlarmSignal (timer s) ! (TOTAL_TASKS - 1) = 1"
    and "all_routable s"
  shows "\<exists>l s'. msgHandler_wake lock s = Some (l, s') \<and> occupied (msg_context s') = 0 \<and>
    mset l + image_mset (routed (msg_table s)) (mset (pending s')) =
      image_mset (routed (msg_table s)) (mset (pending s))"
proof -
  let ?a = "s\<lparr>timer := (timer s)\<lparr>AlarmSignal := (AlarmSignal (timer s))[TOTAL_TASKS - 1 := 0]\<rparr>\<rparr>"
  have a: "mh_wf ?a" "currentmsg ?a = -1" "all_routable ?a" and pa: "pending ?a = pending s"
    using assms by (auto simp: mh_wf_def all_routable_def pending_def)
  from mh_drain_outcome [OF a, of lock] obtain l s3
    where drain: "mh_drain lock ?a = Some (l, s3)" and out: "pass_outcome lock (slots (queue ?a)) ?a l s3"
    by blast
  let ?s' = "s3\<lparr>msg_context := (msg_context s3)\<lparr>occupied := 0\<rparr>\<rparr>"
  have "msgHandler_wake lock s = Some (l, ?s')"
    using drain by (simp add: wake_alarm [OF assms(1,3)])
  moreover have "mset l + image_mset (routed (msg_table s)) (mset (pending ?s')) =
      image_mset (routed (msg_table s)) (mset (pending s))"
    using pass_conserves [OF out] pa by (simp add: pending_def)
  ultimately show ?thesis by (intro exI [of _ l] exI [of _ ?s']) simp
qed

theorem msgHandler_alarm_loses_message_witness:
  "\<exists>s'. msgHandler_wake (\<lambda>i. True) (example_sys 1 [0, 0, 0, 0]) = Some ([], s') \<and> pending s' = [] \<and>
     occupied (msg_context s') = 0"
proof -
  let ?s = "example_sys 1 [0, 0, 0, 0]"
  have q: "length [0, 0, 0, 0 :: byte] = QUEUESIZE" by (simp add: QUEUESIZE_def)
  have empty: "pending ?s = []"
    by (simp add: pending_def slots_def example_sys_def QUEUESIZE_def upt_rec)
  show ?thesis
    using msgHandler_alarm_loses_message
        [OF example_sys_wf(1) [OF q, of 1] example_sys_wf(2) example_sys_wf(3)
         example_sys_wf(4) [OF q, of 1], of "\<lambda>i. True"] empty
    by auto
qed

text \<open>
  Two messages for the same task in one pass: both leave the queue, but they go into the one
  \<open>holder\<close> of the receiver's context, so that when the mutex is free for both, the first message is
  overwritten by the second before the receiver has run.
\<close>

theorem same_receiver_overwrites:
  assumes "mh_wf s" and "currentmsg s = -1" and "all_routable s" and "slots (queue s) = [i, j]"
    and "fst (routed (msg_table s) (queue_struct s ! i)) = r"
    and "fst (routed (msg_table s) (queue_struct s ! j)) = r"
  shows "\<exists>l s'. mh_drain (\<lambda>k. True) s = Some (l, s') \<and> map fst l = [r, r] \<and> pending s' = [] \<and>
    holder (Context_array s' ! unat r) = holder (queue_struct s ! j)"
proof -
  obtain l s' where drain: "mh_drain (\<lambda>k. True) s = Some (l, s')"
    and out: "pass_outcome (\<lambda>k. True) [i, j] s l s'"
    using mh_drain_outcome [OF assms(1-3), of "\<lambda>k. True"] assms(4) by auto
  have "j \<in> set (slots (queue s))" using assms(4) by simp
  then have "routable (msg_table s) (queue_struct s ! j)"
    using assms(3) by (auto simp: all_routable_def pending_def)
  then have "unat r < length (Context_array s)" and
    "holder (snd (routed (msg_table s) (queue_struct s ! j))) = holder (queue_struct s ! j)"
    using assms(1,6) by (auto simp: routable_def routed_def mh_wf_def split: option.splits)
  then have "holder (Context_array s' ! unat r) = holder (queue_struct s ! j)"
    using out assms(5,6) by (simp add: pass_outcome_def put_context_def Let_def)
  moreover have "map fst l = [r, r]" using out assms(5,6) by (simp add: pass_outcome_def)
  moreover have "pending s' = []"
    using pass_pending [of "\<lambda>k. True" s l s'] out assms(4) by simp
  ultimately show ?thesis using drain by auto
qed

theorem same_receiver_overwrites_witness:
  "\<exists>l s'. mh_drain (\<lambda>k. True) (example_sys 0 [1, 0, 1, 0]) = Some (l, s') \<and> map fst l = [2, 2] \<and>
     pending s' = []"
proof -
  let ?s = "example_sys 0 [1, 0, 1, 0]"
  have q: "length [1, 0, 1, 0 :: byte] = QUEUESIZE" by (simp add: QUEUESIZE_def)
  have sl: "slots (queue ?s) = [0, 2]"
    by (simp add: slots_def example_sys_def QUEUESIZE_def upt_rec)
  have "fst (routed (msg_table ?s) (queue_struct ?s ! 0)) = 2"
    "fst (routed (msg_table ?s) (queue_struct ?s ! 2)) = 2"
    by (simp_all add: example_sys_def routed_def route_def rd_def rdi_def QUEUESIZE_def)
  from same_receiver_overwrites
      [OF example_sys_wf(1) [OF q] example_sys_wf(2) example_sys_wf(4) [OF q] sl this]
  show ?thesis by auto
qed

end
