(* ===== verification/IpTask.thy ===== *)
theory IpTask
  imports HexCodec MsgHandler
begin

text \<open>
  The TCP side of the bridge: reading a command line and sending a reply
  (\<open>ihaplite/tcpserver.c\<close>), and the task that serves one virtual port (\<open>ihaplite/iptask.c\<close>).

  What arrives on a connection is a list of events: a byte, an end of file (\<open>read\<close> returns 0 and
  stores nothing), or a time-out of \<open>select\<close>; a connection with no further event times out.
\<close>

datatype rx = Byte byte | Eof | Timeout

section \<open>Receiving a command\<close>

text \<open>The outer option is a fault, the inner one the \<open>NULL\<close> that is returned after a time-out.\<close>

fun rcv_loop :: "rx list \<Rightarrow> byte list \<Rightarrow> nat \<Rightarrow> byte list option option" where
  "rcv_loop [] cmd cmd_len = Some None"
| "rcv_loop (Timeout # xs) cmd cmd_len = Some None"
| "rcv_loop (e # xs) cmd cmd_len = do {
     cmd1 \<leftarrow> (case e of Byte b \<Rightarrow> wr cmd cmd_len b | _ \<Rightarrow> Some cmd);
     c \<leftarrow> rd cmd1 cmd_len;
     (if c = 0x0d \<or> c = 0x0a then do {
        cmd2 \<leftarrow> wr cmd1 cmd_len 0;
        cmd3 \<leftarrow> wr cmd2 1 (of_nat (cmd_len + 1) - 3);
        Some (Some cmd3)
      } else if cmd_len + 1 = DATASIZE - 1 then Some (Some cmd1)
      else rcv_loop xs cmd1 (cmd_len + 1))
   }"

definition receive_cmd :: "rx list \<Rightarrow> byte \<Rightarrow> byte list option option" where
  "receive_cmd xs VPS = do {
     cmd \<leftarrow> wr (replicate DATASIZE 0) 0 VPS;
     rcv_loop xs cmd 2
   }"

section \<open>Sending a reply\<close>

definition DATASIZE_HEXBINARY :: nat where "DATASIZE_HEXBINARY = DATASIZE * 2 + 1"

text \<open>
  The bytes written to the connection. The output array is a local variable: what it holds before
  (\<open>junk\<close>) is an argument.
\<close>

definition IP_send_server_hexbinaryString ::
  "byte list \<Rightarrow> byte list \<Rightarrow> nat \<Rightarrow> byte \<Rightarrow> byte list option" where
  "IP_send_server_hexbinaryString junk data i len = do {
     (n, output) \<leftarrow> binary_to_hexbinary data i junk (unat len);
     (if len > 0 then rdn output 0 (unat n) else Some [])
   }"

definition IP_send_server_String :: "byte list \<Rightarrow> nat \<Rightarrow> byte \<Rightarrow> byte list option" where
  "IP_send_server_String data i len = (if len > 0 then rdn data i (unat len) else Some [])"

section \<open>The task of a virtual port\<close>

definition is_hex_char :: "byte \<Rightarrow> bool" where
  "is_hex_char c \<longleftrightarrow> (0x30 \<le> c \<and> c \<le> 0x39) \<or> (0x61 \<le> c \<and> c \<le> 0x66) \<or> (0x41 \<le> c \<and> c \<le> 0x46)"

text \<open>A debug print of a message into the task's \<open>printbuffer\<close>.\<close>

definition debug_print :: "byte list \<Rightarrow> nat \<Rightarrow> nat \<Rightarrow> unit option" where
  "debug_print b i n =
     map_option (\<lambda>_. ()) (binary_to_hexbinaryString b i n (replicate DATASIZE 0))"

lemma debug_print_Some [mem_simps]:
  "debug_print b i n = Some u \<longleftrightarrow> n = 0 \<or> (i + n \<le> length b \<and> n \<le> 84)"
  using debug_print_ok [of b i n "replicate DATASIZE 0"]
  by (auto simp: debug_print_def DATASIZE_def)

lemma debug_print_None [mem_simps]:
  "debug_print b i n = None \<longleftrightarrow> n \<noteq> 0 \<and> (length b < i + n \<or> 84 < n)"
  using debug_print_Some [of b i n "()"] by (cases "debug_print b i n") auto

definition print_msg :: "msg \<Rightarrow> unit option" where
  "print_msg m = do { n \<leftarrow> mrd m 1; debug_print (mbuf m) (moff m) (unat n + 2) }"

text \<open>What the printing of a message needs.\<close>

lemma print_msg_ok: "print_msg m = Some () \<longleftrightarrow>
    (\<exists>n. mrd m 1 = Some n \<and> moff m + unat n + 2 \<le> length (mbuf m) \<and> unat n \<le> 82)"
  by (cases "mrd m 1") (auto simp: print_msg_def debug_print_Some)

text \<open>From the accepted connection to the message that is broadcast on \<open>Out1\<close>.\<close>

definition iptask_request :: "byte \<Rightarrow> rx list \<Rightarrow> msg option option" where
  "iptask_request VPS xs = do {
     r \<leftarrow> receive_cmd xs VPS;
     (case r of
        None \<Rightarrow> Some None
      | Some d \<Rightarrow> do {
          n \<leftarrow> rd d 1;
          _ \<leftarrow> debug_print d 0 (unat n + 2);
          s \<leftarrow> cstr d 2;
          d1 \<leftarrow> wr d 1 (of_nat (length s));
          c \<leftarrow> rd d1 2;
          d2 \<leftarrow> (if is_hex_char c then do {
                   (l, d') \<leftarrow> hexbinary_to_binary None d1 2 2;
                   wr d' 1 l
                 } else Some d1);
          n2 \<leftarrow> rd d2 1;
          _ \<leftarrow> debug_print d2 0 (unat n2 + 2);
          Some (Some \<lparr>mbuf = d2, moff = 0\<rparr>)
        })
   }"

text \<open>
  From the wake-up to the reply. The first argument of \<open>receive\<close> is the VPS, not the number of the
  task.
\<close>

definition iptask_reply ::
  "byte \<Rightarrow> byte list \<Rightarrow> task_context \<Rightarrow> msgsys \<Rightarrow> (byte list \<times> msgsys) option" where
  "iptask_reply VPS junk ctx s = do {
     (_, s') \<leftarrow> receive (unat VPS) s;
     m \<leftarrow> holder ctx;
     n \<leftarrow> mrd m 1;
     _ \<leftarrow> debug_print (mbuf m) (moff m) (unat n + 2);
     out \<leftarrow> IP_send_server_hexbinaryString junk (mbuf m) (moff m + 2) n;
     Some (out, s')
   }"

section \<open>The receive loop is safe\<close>

lemma rcv_loop_safe:
  assumes "length cmd = DATASIZE" and "2 \<le> n" and "n < DATASIZE - 1"
    and "\<forall>k. n \<le> k \<and> k < DATASIZE \<longrightarrow> cmd ! k = 0"
  shows "\<exists>r. rcv_loop xs cmd n = Some r \<and>
    (\<forall>d. r = Some d \<longrightarrow> length d = DATASIZE \<and> d ! 0 = cmd ! 0 \<and> d ! (DATASIZE - 1) = 0)"
  using assms
proof (induction xs arbitrary: cmd n)
  case (Cons e xs)
  show ?case
  proof (cases "e = Timeout")
    case False
    define cmd1 where "cmd1 = (case e of Byte b \<Rightarrow> cmd[n := b] | _ \<Rightarrow> cmd)"
    have cmd1: "length cmd1 = DATASIZE" "cmd1 ! 0 = cmd ! 0"
      "\<forall>k. Suc n \<le> k \<and> k < DATASIZE \<longrightarrow> cmd1 ! k = 0"
      using Cons.prems by (auto simp: cmd1_def split: rx.splits)
    have "rcv_loop (e # xs) cmd n =
      (if cmd1 ! n = 0x0d \<or> cmd1 ! n = 0x0a
       then Some (Some (cmd1[n := 0, 1 := of_nat (n + 1) - 3]))
       else if n + 1 = DATASIZE - 1 then Some (Some cmd1) else rcv_loop xs cmd1 (n + 1))"
      using False Cons.prems(1-3)
      by (cases e) (auto simp: cmd1_def wr_def rd_def DATASIZE_def)
    moreover have "\<exists>r. rcv_loop xs cmd1 (n + 1) = Some r \<and>
      (\<forall>d. r = Some d \<longrightarrow> length d = DATASIZE \<and> d ! 0 = cmd1 ! 0 \<and> d ! (DATASIZE - 1) = 0)"
      if "n + 1 \<noteq> DATASIZE - 1"
      using that cmd1 Cons.prems(2,3) by (intro Cons.IH) auto
    moreover have "cmd1 ! (DATASIZE - 1) = 0" using cmd1(3) Cons.prems(3) by (simp add: DATASIZE_def)
    ultimately show ?thesis
      using cmd1 Cons.prems(2,3) by (auto simp: nth_list_update DATASIZE_def)
  qed simp
qed simp

text \<open>A line that ends in CR or LF before the buffer is full.\<close>

lemma rcv_loop_line:
  assumes "length cmd = DATASIZE" and "n + length bs < DATASIZE - 1" and "2 \<le> n"
    and "0x0d \<notin> set bs" and "0x0a \<notin> set bs" and "eol = 0x0d \<or> eol = 0x0a"
  shows "rcv_loop (map Byte bs @ Byte eol # xs) cmd n =
    Some (Some ((take n cmd @ bs @ 0 # drop (n + length bs + 1) cmd)
      [1 := of_nat (n + length bs + 1) - 3]))"
  using assms
proof (induction bs arbitrary: cmd n)
  case Nil
  then have "rcv_loop (Byte eol # xs) cmd n = Some (Some (cmd[n := 0, 1 := of_nat (n + 1) - 3]))"
    by (auto simp: wr_def rd_def DATASIZE_def)
  then show ?case
    using Nil by (simp add: upd_conv_take_nth_drop [of n cmd 0] DATASIZE_def)
next
  case (Cons b bs)
  have "rcv_loop (map Byte bs @ Byte eol # xs) (cmd[n := b]) (n + 1) =
    Some (Some ((take (n + 1) (cmd[n := b]) @ bs @ 0 # drop (n + 1 + length bs + 1) (cmd[n := b]))
      [1 := of_nat (n + 1 + length bs + 1) - 3]))"
    using Cons.prems by (intro Cons.IH) auto
  then show ?case
    using Cons.prems by (auto simp: wr_def rd_def DATASIZE_def take_Suc_conv_app_nth)
qed

section \<open>Properties\<close>

text \<open>
  C28. \<open>receive_cmd\<close> never writes outside its buffer, whatever the client sends and however the
  bytes are spaced, and a message that it returns carries the port in its first byte and has a NUL
  as its last, so that the \<open>strlen\<close> of the IP task ends inside the block.
\<close>

theorem receive_cmd_safe:
  "\<exists>r. receive_cmd xs VPS = Some r \<and>
    (\<forall>d. r = Some d \<longrightarrow> length d = DATASIZE \<and> d ! 0 = VPS \<and> (\<exists>s. cstr d 2 = Some s))"
proof -
  let ?cmd = "(replicate DATASIZE 0)[0 := VPS]"
  obtain r where r: "rcv_loop xs ?cmd 2 = Some r" and ok:
    "\<forall>d. r = Some d \<longrightarrow> length d = DATASIZE \<and> d ! 0 = VPS \<and> d ! (DATASIZE - 1) = 0"
    using rcv_loop_safe [of ?cmd 2 xs] by (auto simp: DATASIZE_def)
  have "\<exists>s. cstr d 2 = Some s" if "length d = DATASIZE" "d ! (DATASIZE - 1) = 0" for d :: "byte list"
  proof -
    have "drop 2 d ! (DATASIZE - 3) = 0" "DATASIZE - 3 < length (drop 2 d)"
      using that by (simp_all add: DATASIZE_def)
    then have "0 \<in> set (drop 2 d)" by (metis nth_mem)
    then show ?thesis by (simp add: cstr_def)
  qed
  then show ?thesis
    using r ok by (auto simp: receive_cmd_def wr_def DATASIZE_def)
qed

lemma receive_cmd_line:
  assumes "length bs < DATASIZE - 3" and "0x0d \<notin> set bs" and "0x0a \<notin> set bs"
    and "eol = 0x0d \<or> eol = 0x0a"
  shows "receive_cmd (map Byte bs @ Byte eol # xs) VPS =
    Some (Some (VPS # of_nat (length bs) # bs @ replicate (DATASIZE - 2 - length bs) 0))"
proof -
  let ?cmd = "(replicate DATASIZE 0)[0 := VPS]"
  have cmd: "?cmd = VPS # 0 # replicate (DATASIZE - 2) 0"
    by (simp add: DATASIZE_def numeral_eq_Suc)
  have rest: "0 # drop (2 + length bs + 1) ?cmd = replicate (DATASIZE - 2 - length bs) 0"
    using assms(1) unfolding cmd by (cases "DATASIZE - 2 - length bs") auto
  have len: "of_nat (2 + length bs + 1) - (3::byte) = of_nat (length bs)" by simp
  have "rcv_loop (map Byte bs @ Byte eol # xs) ?cmd 2 =
    Some (Some ((take 2 ?cmd @ bs @ 0 # drop (2 + length bs + 1) ?cmd)
      [1 := of_nat (2 + length bs + 1) - 3]))"
    using assms by (intro rcv_loop_line) auto
  also have "take 2 ?cmd = [VPS, 0]" unfolding cmd by simp
  finally show ?thesis
    unfolding rest len by (simp add: receive_cmd_def wr_def DATASIZE_def)
qed

theorem receive_cmd_safe_witness:
  "\<exists>d. receive_cmd [Byte 0x30, Byte 0x0a] 3 = Some (Some d) \<and> length d = DATASIZE \<and> d ! 0 = 3 \<and>
    (\<exists>s. cstr d 2 = Some s)"
  using receive_cmd_safe [of "[Byte 0x30, Byte 0x0a]" 3] receive_cmd_line [of "[0x30]" "0x0a" "[]" 3]
  by (auto simp: DATASIZE_def)

text \<open>A digit of the encoder is taken for hexadecimal input and does not end a line.\<close>

lemma hexdigit_char: "unat d < 16 \<Longrightarrow> is_hex_char (hexdigit d) \<and> hexdigit d \<noteq> 0x0d \<and> hexdigit d \<noteq> 0x0a"
  by (drule nibble_cases, unfold insert_iff empty_iff, elim disjE)
     (simp_all add: is_hex_char_def hexdigit_def)

lemma hexes_chars: "c \<in> set (hexes bs) \<Longrightarrow> is_hex_char c \<and> c \<noteq> 0x0d \<and> c \<noteq> 0x0a"
  using hexdigit_char nibble_bound by (induction bs) (auto simp: hex2_def)

text \<open>The steps of a request in hexadecimal, one fact for each.\<close>

lemma iptask_request_steps:
  assumes "receive_cmd xs VPS = Some (Some d)" and "rd d 1 = Some n"
    and "debug_print d 0 (unat n + 2) = Some ()" and "cstr d 2 = Some s"
    and "wr d 1 (of_nat (length s)) = Some d1" and "rd d1 2 = Some c" and "is_hex_char c"
    and "hexbinary_to_binary None d1 2 2 = Some (l, d')" and "wr d' 1 l = Some d2"
    and "rd d2 1 = Some n2" and "debug_print d2 0 (unat n2 + 2) = Some ()"
  shows "iptask_request VPS xs = Some (Some \<lparr>mbuf = d2, moff = 0\<rparr>)"
  by (simp only: iptask_request_def assms Option.bind.simps option.case prod.case if_True)

text \<open>
  A command line of \<open>n\<close> bytes in hexadecimal, ended by CR or LF, becomes the message
  \<open>[VPS][n][bytes]\<close> that is broadcast, for up to 41 bytes (82 characters).
\<close>

lemma iptask_request_hex:
  assumes "length bs \<le> 41" and "bs \<noteq> []" and "eol = 0x0d \<or> eol = 0x0a"
  shows "\<exists>m. iptask_request VPS (map Byte (hexes bs) @ Byte eol # xs) = Some (Some m) \<and>
    moff m = 0 \<and> length (mbuf m) = DATASIZE \<and> mvps m = Some VPS \<and> mpayload m = Some bs"
proof -
  let ?h = "hexes bs"
  let ?d = "VPS # of_nat (length ?h) # ?h @ replicate (DATASIZE - 2 - length ?h) 0"
  have len: "length ?h \<le> 82" "0 < length ?h" using assms(1,2) by auto
  then obtain k where k: "DATASIZE - 2 - length ?h = Suc k" "k = DATASIZE - 3 - length ?h"
    by (auto simp: DATASIZE_def)
  have recv: "receive_cmd (map Byte ?h @ Byte eol # xs) VPS = Some (Some ?d)"
    using assms(3) len hexes_chars by (intro receive_cmd_line) (auto simp: DATASIZE_def)
  have str: "cstr ?d 2 = Some ?h"
  proof -
    have "drop 2 ?d = ?h @ 0 # replicate k 0" unfolding k by simp
    then show ?thesis using hexes_no_nul [of bs] by (simp add: cstr_def del: drop_append)
  qed
  have hex: "is_hex_char (?d ! 2)"
    using hexes_chars [of "?h ! 0" bs] len by (simp add: nth_append numeral_2_eq_2)
  have half: "length ?h div 2 = length bs" "unhex ?h = bs" by (simp_all add: unhex_hexes)
  have "hexbinary_to_binary None ?d 2 2 = Some (of_nat (length ?h div 2),
      take 2 ?d @ unhex ?h @ 0 # drop (2 + length ?h div 2 + 1) ?d)"
    by (rule hexbinary_decodes [OF str order_refl _ disjI1 [OF refl]]) (use len in linarith)
  moreover have "take 2 ?d = [VPS, of_nat (length ?h)]" by simp
  moreover have "2 + length bs + 1 = length bs + 3" by simp
  moreover let ?m = "VPS # of_nat (length bs) # bs @ 0 # drop (length bs + 3) ?d"
  have "?m[1 := of_nat (length ?h)] = VPS # of_nat (length ?h) # bs @ 0 # drop (length bs + 3) ?d"
    by simp
  ultimately have dec: "hexbinary_to_binary None ?d 2 2 =
      Some (of_nat (length bs), ?m[1 := of_nat (length ?h)])"
    by (simp only: half append_Cons append_Nil)
  have len_m: "length ?m = DATASIZE" using len assms(1) by (simp add: DATASIZE_def)
  have n: "unat (of_nat (length ?h) :: byte) = length ?h" "unat (of_nat (length bs) :: byte) = length bs"
    using len(1) assms(1) by (auto intro!: unat_of_nat_byte simp del: length_hexes)
  have dbg: "debug_print ?d 0 (length ?h + 2) = Some ()" "debug_print ?m 0 (length bs + 2) = Some ()"
    using len len_m assms(1) by (auto simp: debug_print_Some DATASIZE_def)
  have cells: "rd ?d 1 = Some (of_nat (length ?h))" "wr ?d 1 (of_nat (length ?h)) = Some ?d"
    "rd ?d 2 = Some (?d ! 2)" "wr (?m[1 := of_nat (length ?h)]) 1 (of_nat (length bs)) = Some ?m" "rd ?m 1 = Some (of_nat (length bs))"
    by (simp_all add: rd_def wr_def DATASIZE_def)
  have "iptask_request VPS (map Byte ?h @ Byte eol # xs) = Some (Some \<lparr>mbuf = ?m, moff = 0\<rparr>)"
    by (rule iptask_request_steps [OF recv cells(1) _ str cells(2,3) hex dec cells(4,5)])
      (simp_all only: n dbg)
  then show ?thesis
    using len_m n by (auto simp: mvps_def mpayload_def mrd_def mrdn_def rd_def rdn_def)
qed

text \<open>
  A command line of 83 to 251 characters, which \<open>receive_cmd\<close> stores safely, overflows the
  255 cells of \<open>printbuffer\<close> when the task prints it: three characters are stored for each byte.
\<close>

theorem iptask_request_overflow:
  assumes "83 \<le> length bs" and "length bs < DATASIZE - 3"
    and "0x0d \<notin> set bs" and "0x0a \<notin> set bs" and "eol = 0x0d \<or> eol = 0x0a"
  shows "(\<exists>d. receive_cmd (map Byte bs @ Byte eol # xs) VPS = Some (Some d)) \<and>
    iptask_request VPS (map Byte bs @ Byte eol # xs) = None"
proof -
  let ?d = "VPS # of_nat (length bs) # bs @ replicate (DATASIZE - 2 - length bs) 0"
  have recv: "receive_cmd (map Byte bs @ Byte eol # xs) VPS = Some (Some ?d)"
    using assms by (intro receive_cmd_line)
  have n: "unat (of_nat (length bs) :: byte) = length bs"
    using assms(2) by (simp add: DATASIZE_def)
  have "debug_print ?d 0 (length bs + 2) = None"
    using assms(1) by (simp only: debug_print_None) linarith
  moreover have "rd ?d 1 = Some (of_nat (length bs))" by (simp add: rd_def)
  ultimately have "iptask_request VPS (map Byte bs @ Byte eol # xs) = None"
    by (simp only: iptask_request_def recv n Option.bind.simps option.case)
  then show ?thesis using recv by blast
qed

theorem iptask_request_overflow_witness:
  "iptask_request 3 (map Byte (replicate 83 0x41) @ [Byte 0x0a]) = None"
  using iptask_request_overflow [of "replicate 83 0x41" "0x0a" "[]" 3]
  by (simp add: DATASIZE_def)

text \<open>
  What \<open>IP_send_server_hexbinaryString\<close> puts on the connection. Up to 127 bytes the client
  gets all of them in hexadecimal. From 128 bytes on the number of characters wraps around in the
  \<open>unsigned char\<close> (128 bytes give an empty reply), and from 171 bytes on the NUL of the encoder is
  written behind the 511 cells of the output array.
\<close>

theorem IP_send_server_hexbinaryString_cases:
  assumes "length junk = DATASIZE_HEXBINARY" and "i + unat n \<le> length data"
  shows "IP_send_server_hexbinaryString junk data i n =
    (let text = hexes (take (unat n) (drop i data)) in
     if unat n \<le> 127 then Some text
     else if unat n \<le> 170 then Some (take (2 * unat n - 256) text)
     else None)"
proof -
  define k where "k = unat n"
  define hx where "hx = hexes (take k (drop i data))"
  have k: "k < 256" "n > 0 \<longleftrightarrow> k > 0" by (auto simp: k_def word_less_nat_alt unat_byte_less)
  have len: "length hx = 2 * k" using assms(2) by (simp add: hx_def k_def)
  have J: "length junk = 511" using assms(1) by (simp add: DATASIZE_HEXBINARY_def DATASIZE_def)
  have enc: "binary_to_hexbinary data i junk k =
      (if 3 * k + 1 \<le> 511 then Some (of_nat (2 * k), (hx @ drop (2 * k) junk)[3 * k := 0]) else None)"
    using binary_to_hexbinary_cases [of k i data junk] k(1) assms(2) by (simp add: hx_def k_def J)
  have pre: "take l ((hx @ drop (2 * k) junk)[3 * k := 0]) = take l hx" if "l \<le> 2 * k" for l
    using that len by (cases "l \<le> 3 * k") (simp_all add: take_update_cancel)
  have n: "unat (of_nat (2 * k) :: byte) = (if k \<le> 127 then 2 * k else 2 * k - 256)"
    using k(1) by (simp add: unsigned_of_nat take_bit_nat_def mod_if del: of_nat_mult)
  show ?thesis
  proof (cases "k \<le> 170")
    case True
    have len': "length ((hx @ drop (2 * k) junk)[3 * k := 0]) = 511"
      using len True by (simp add: J)
    show ?thesis
      using True k n pre [of "2 * k"] pre [of "2 * k - 256"] len len' hx_def
      unfolding k_def [symmetric] hx_def [symmetric]
      by (auto simp: IP_send_server_hexbinaryString_def k_def [symmetric] enc rdn_def Let_def
          simp del: length_append length_list_update)
  next
    case False
    then show ?thesis
      unfolding k_def [symmetric]
      by (simp add: IP_send_server_hexbinaryString_def k_def [symmetric] enc Let_def)
  qed
qed

theorem IP_send_server_hexbinaryString_cases_witness:
  "IP_send_server_hexbinaryString (replicate 511 0) (replicate 255 0) 2 128 = Some []"
  using IP_send_server_hexbinaryString_cases [of "replicate 511 0" 2 128 "replicate 255 0"]
  by (simp add: DATASIZE_HEXBINARY_def DATASIZE_def)

text \<open>
  A task of the port \<open>VPS\<close> waits for its reply under the number \<open>VPS\<close>, not under its own task
  number: what it resets is the signal of the task with that number, and every other signal,
  its own included, stays.
\<close>

theorem iptask_reply_flag:
  assumes "iptask_reply VPS junk ctx s = Some (out, s')"
  shows "MessageSignal s' = (if MessageSignal s ! unat VPS = 1
      then (MessageSignal s)[unat VPS := 0] else MessageSignal s) \<and>
    (\<forall>t. t \<noteq> unat VPS \<longrightarrow> MessageSignal s' ! t = MessageSignal s ! t)"
  using assms
  by (auto simp: iptask_reply_def receive_def msgTestAndReset_def rd_def split: bind_splits if_splits)

theorem iptask_reply_flag_witness:
  "\<exists>s'. iptask_reply 2 (replicate 511 0)
      \<lparr>holder = Some \<lparr>mbuf = [2, 1, 0x4f], moff = 0\<rparr>, sender = [0, 0, 0], occupied = 0\<rparr>
      ((example_sys 0 [0, 0, 0, 0])\<lparr>MessageSignal := [0, 0, 1, 0, 0, 1]\<rparr>) = Some ([0x34, 0x46], s') \<and>
    MessageSignal s' = [0, 0, 0, 0, 0, 1]"
proof -
  let ?ctx = "\<lparr>holder = Some \<lparr>mbuf = [2, 1, 0x4f], moff = 0\<rparr>, sender = [0, 0, 0], occupied = 0\<rparr>"
  let ?s = "(example_sys 0 [0, 0, 0, 0])\<lparr>MessageSignal := [0, 0, 1, 0, 0, 1]\<rparr>"
  have dbg: "debug_print [2, 1, 0x4f] 0 (Suc (Suc (Suc 0))) = Some ()" by (simp add: debug_print_Some)
  have "IP_send_server_hexbinaryString (replicate 511 0) [2, 1, 0x4f] (Suc (Suc 0)) 1 = Some [0x34, 0x46]"
    by code_simp
  then obtain s' where s': "iptask_reply 2 (replicate 511 0) ?ctx ?s = Some ([0x34, 0x46], s')"
    using dbg by (auto simp: iptask_reply_def receive_def msgTestAndReset_def rd_def mrd_def)
  show ?thesis using s' iptask_reply_flag [OF s'] by (simp add: s')
qed

end
