(* ===== verification/SessionManager.thy ===== *)
theory SessionManager
  imports IpTask
begin

text \<open>
  The session manager (\<open>ihaplite/sessionmanager.c\<close>): a client that has sent a command over a virtual
  port waits for one reply; the table holds the time that each port may still wait. Commands come
  in on \<open>In1\<close> and go to the radio task on \<open>Out1\<close>; replies come in on \<open>In2\<close> and go to the waiting IP
  task, or by UDP to everybody when no client waits.

  A wake-up of the task returns the list of what it does to the other tasks, in order.
\<close>

datatype sm_action = SmAlarm u32 | SmBroadcast byte msg | SmUdp nat "byte list"

definition UDPPORTBASE :: nat where "UDPPORTBASE = 10000"

text \<open>
  The table is allocated with the size of a pointer for each entry, but holds \<open>unsigned int\<close>s: it has
  one cell per port where pointers have four bytes, and two where they have eight.
\<close>

definition session_table_init :: "nat \<Rightarrow> u32 list" where
  "session_table_init pointer_size = replicate (TOTAL_VPS * pointer_size div 4) 0"

section \<open>A command from a client\<close>

definition sm_in1 :: "msg \<Rightarrow> u32 list \<Rightarrow> (sm_action list \<times> u32 list) option" where
  "sm_in1 m tbl = do {
     v \<leftarrow> mrd m 0;
     (if unat v > TOTAL_VPS then do { _ \<leftarrow> mfree m; Some ([], tbl) }
      else do {
        tbl1 \<leftarrow> wr tbl (unat v) SESSION_TIMEOUT;
        _ \<leftarrow> print_msg m;
        time \<leftarrow> strncmp_is (mbuf m) (moff m + 2) (bytes ''0TIME'');
        (if \<not> time then Some ([SmAlarm 10, SmBroadcast Out1 m], tbl1)
         else do {
           n \<leftarrow> mrd m 1;
           let len = n - 5;
           m1 \<leftarrow> mwr (madv m 5) 0 v;
           m2 \<leftarrow> mwr m1 1 len;
           _ \<leftarrow> print_msg m2;
           Some ([SmAlarm 3000, SmBroadcast Out1 m2], tbl1)
         })
      })
   }"

section \<open>A message from the radio task\<close>

text \<open>\<open>junk\<close> is what the local array \<open>broadcastbuffer\<close> holds, of 256 cells.\<close>

definition sm_in2 :: "byte list \<Rightarrow> msg \<Rightarrow> u32 list \<Rightarrow> (sm_action list \<times> u32 list) option" where
  "sm_in2 junk m tbl = do {
     v \<leftarrow> mrd m 0;
     (if unat v > TOTAL_VPS then do { _ \<leftarrow> mfree m; Some ([], tbl) }
      else do {
        t \<leftarrow> rd tbl (unat v);
        (if t \<noteq> 0 then do {
           tbl1 \<leftarrow> wr tbl (unat v) 0;
           Some ([SmBroadcast (v + 2) m], tbl1)
         } else do {
           n \<leftarrow> mrd m 1;
           (len, out) \<leftarrow> binary_to_hexbinary (mbuf m) (moff m + 2) junk (unat n);
           txt \<leftarrow> rdn out 0 (unat len);
           Some ([SmUdp (UDPPORTBASE + unat v) txt], tbl)
         })
      })
   }"

definition sm_message ::
  "byte list \<Rightarrow> task_context \<Rightarrow> u32 list \<Rightarrow> (sm_action list \<times> u32 list) option" where
  "sm_message junk ctx tbl =
     (if sender_input ctx = In1 then do { m \<leftarrow> holder ctx; sm_in1 m tbl }
      else if sender_input ctx = In2 then do { m \<leftarrow> holder ctx; sm_in2 junk m tbl }
      else Some ([], tbl))"

section \<open>The alarm\<close>

definition timeout_msg :: "nat \<Rightarrow> msg" where
  "timeout_msg i = \<lparr>mbuf = of_nat i # 12 # bytes ''TIMEOUT_SEND'' @ replicate (DATASIZE - 14) 0, moff = 0\<rparr>"

fun sm_scan :: "nat list \<Rightarrow> u32 list \<Rightarrow> (sm_action list \<times> u32 list) option" where
  "sm_scan [] tbl = Some ([], tbl)"
| "sm_scan (i # is) tbl = do {
     t \<leftarrow> rd tbl i;
     (acts, tbl1) \<leftarrow>
       (if t = 0 then Some ([], tbl)
        else if t \<le> 1 then Some ([SmBroadcast (of_nat (i + 2)) (timeout_msg i)], tbl[i := 0])
        else Some ([SmAlarm 10], tbl[i := t - 1]));
     (acts', tbl2) \<leftarrow> sm_scan is tbl1;
     Some (acts @ acts', tbl2)
   }"

definition sm_alarm :: "u32 list \<Rightarrow> (sm_action list \<times> u32 list) option" where
  "sm_alarm tbl = sm_scan [0..<TOTAL_VPS] tbl"

text \<open>One wake-up: the message flag and the alarm flag, as they are tested and reset.\<close>

definition SessionManagerTask ::
  "byte list \<Rightarrow> bool \<Rightarrow> bool \<Rightarrow> task_context \<Rightarrow> u32 list \<Rightarrow> (sm_action list \<times> u32 list) option" where
  "SessionManagerTask junk msgFlag alarmFlag ctx tbl = do {
     (a1, tbl1) \<leftarrow> (if msgFlag then sm_message junk ctx tbl else Some ([], tbl));
     (a2, tbl2) \<leftarrow> (if alarmFlag then sm_alarm tbl1 else Some ([], tbl1));
     Some (a1 @ a2, tbl2)
   }"

section \<open>The alarm as an operation on each session\<close>

definition session_tick :: "u32 \<Rightarrow> u32" where
  "session_tick t = (if t \<le> 1 then 0 else t - 1)"

definition session_act :: "nat \<Rightarrow> u32 \<Rightarrow> sm_action list" where
  "session_act i t = (if t = 0 then [] else if t \<le> 1 then [SmBroadcast (of_nat (i + 2)) (timeout_msg i)]
     else [SmAlarm 10])"

lemma unat_session_tick: "unat (session_tick t) = unat t - 1"
  using u32_le_1 [of t] unat_dec [of t] by (auto simp: session_tick_def)

lemma sm_scan_each:
  assumes "distinct is" and "\<forall>i \<in> set is. i < length tbl"
  shows "\<exists>tbl'. sm_scan is tbl = Some (concat (map (\<lambda>i. session_act i (tbl ! i)) is), tbl') \<and>
    length tbl' = length tbl \<and>
    (\<forall>j. tbl' ! j = (if j \<in> set is then session_tick (tbl ! j) else tbl ! j))"
  using assms
proof (induction "is" arbitrary: tbl)
  case (Cons i "is")
  let ?tbl1 = "tbl[i := session_tick (tbl ! i)]"
  obtain tbl' where IH: "sm_scan is ?tbl1 = Some (concat (map (\<lambda>j. session_act j (?tbl1 ! j)) is), tbl')"
    "length tbl' = length tbl" "\<forall>j. tbl' ! j = (if j \<in> set is then session_tick (?tbl1 ! j) else ?tbl1 ! j)"
    using Cons.IH [of ?tbl1] Cons.prems by auto
  have same: "tbl[i := 0] = tbl" if "tbl ! i = 0" using that by (metis list_update_id)
  have "sm_scan (i # is) tbl = do {
      (acts', tbl2) \<leftarrow> sm_scan is ?tbl1;
      Some (session_act i (tbl ! i) @ acts', tbl2) }"
    using Cons.prems same by (auto simp: rd_def session_act_def session_tick_def)
  moreover have acts: "map (\<lambda>j. session_act j (?tbl1 ! j)) is = map (\<lambda>j. session_act j (tbl ! j)) is"
    using Cons.prems(1) by (intro map_cong refl) (metis distinct.simps(2) nth_list_update_neq)
  ultimately have "sm_scan (i # is) tbl = Some (concat (map (\<lambda>j. session_act j (tbl ! j)) (i # is)), tbl')"
    using IH(1) by (simp only: acts Option.bind.simps prod.case list.map concat.simps)
  then show ?case
    using IH(2,3) Cons.prems by (auto simp: nth_list_update simp del: sm_scan.simps)
qed simp

text \<open>A number of alarms, one after the other.\<close>

primrec sm_alarms :: "nat \<Rightarrow> u32 list \<Rightarrow> (sm_action list \<times> u32 list) option" where
  "sm_alarms 0 tbl = Some ([], tbl)"
| "sm_alarms (Suc k) tbl = do {
     (a, tbl1) \<leftarrow> sm_alarms k tbl;
     (a', tbl2) \<leftarrow> sm_alarm tbl1;
     Some (a @ a', tbl2)
   }"

abbreviation timeout_to :: "nat \<Rightarrow> sm_action" where
  "timeout_to v \<equiv> SmBroadcast (of_nat (v + 2)) (timeout_msg v)"

lemma sm_alarm_session:
  assumes "TOTAL_VPS \<le> length tbl"
  shows "\<exists>acts tbl'. sm_alarm tbl = Some (acts, tbl') \<and> length tbl' = length tbl \<and>
    (\<forall>v. tbl' ! v = (if v < TOTAL_VPS then session_tick (tbl ! v) else tbl ! v)) \<and>
    (\<forall>v < 256. count_list acts (timeout_to v) = (if v < TOTAL_VPS \<and> tbl ! v = 1 then 1 else 0))"
proof -
  have once: "count_list (concat (map (\<lambda>i. session_act i (tbl ! i)) is)) (timeout_to v) =
      (if v \<in> set is \<and> tbl ! v = 1 then 1 else 0)"
    if "distinct is" "\<forall>i \<in> set is. i < 256" "v < 256" for "is" v
    using that
  proof (induction "is")
    case (Cons i "is")
    have "timeout_msg i = timeout_msg v \<longleftrightarrow> i = v"
      using Cons.prems by (auto simp: timeout_msg_def word_unat_eq_iff)
    then show ?case
      using Cons u32_le_1 [of "tbl ! i"] by (auto simp: session_act_def count_list_append)
  qed simp
  show ?thesis
    using sm_scan_each [of "[0..<TOTAL_VPS]" tbl] assms once [of "[0..<TOTAL_VPS]"]
    by (auto simp: sm_alarm_def TOTAL_VPS_def)
qed

lemma sm_alarms_session:
  assumes "TOTAL_VPS \<le> length tbl"
  shows "\<exists>acts tbl'. sm_alarms k tbl = Some (acts, tbl') \<and> length tbl' = length tbl \<and>
    (\<forall>v < TOTAL_VPS. unat (tbl' ! v) = unat (tbl ! v) - k \<and>
      count_list acts (timeout_to v) = (if 0 < unat (tbl ! v) \<and> unat (tbl ! v) \<le> k then 1 else 0)) \<and>
    (\<forall>v. TOTAL_VPS \<le> v \<and> v < 256 \<longrightarrow> tbl' ! v = tbl ! v \<and> count_list acts (timeout_to v) = 0)"
proof (induction k)
  case (Suc k)
  then obtain acts tbl1 where k: "sm_alarms k tbl = Some (acts, tbl1)" "length tbl1 = length tbl"
    and low: "\<forall>v < TOTAL_VPS. unat (tbl1 ! v) = unat (tbl ! v) - k \<and>
      count_list acts (timeout_to v) = (if 0 < unat (tbl ! v) \<and> unat (tbl ! v) \<le> k then 1 else 0)"
    and high: "\<forall>v. TOTAL_VPS \<le> v \<and> v < 256 \<longrightarrow> tbl1 ! v = tbl ! v \<and> count_list acts (timeout_to v) = 0"
    by blast
  obtain acts' tbl2 where s: "sm_alarm tbl1 = Some (acts', tbl2)" "length tbl2 = length tbl1"
    "\<forall>v. tbl2 ! v = (if v < TOTAL_VPS then session_tick (tbl1 ! v) else tbl1 ! v)"
    "\<forall>v < 256. count_list acts' (timeout_to v) = (if v < TOTAL_VPS \<and> tbl1 ! v = 1 then 1 else 0)"
    using sm_alarm_session [of tbl1] assms k(2) by auto
  have one: "tbl1 ! v = 1 \<longleftrightarrow> unat (tbl ! v) = Suc k" if "v < TOTAL_VPS" for v
    using low that by (auto simp: word_unat_eq_iff)
  show ?case
    using k s low high one
    by (auto simp: count_list_append unat_session_tick TOTAL_VPS_def)
qed auto

section \<open>Properties\<close>

text \<open>
  C17. Time-out of a session. After \<open>k\<close> alarms a session that had \<open>t\<close> left has \<open>t - k\<close> left, and the
  waiting task has got its \<open>TIMEOUT_SEND\<close> message exactly when the session was open and \<open>t\<close> has run
  out: once, however many alarms follow, and no other session has any influence on it.
\<close>

theorem session_expires_once:
  assumes "TOTAL_VPS \<le> length tbl" and "v < TOTAL_VPS"
  shows "\<exists>acts tbl'. sm_alarms k tbl = Some (acts, tbl') \<and> unat (tbl' ! v) = unat (tbl ! v) - k \<and>
    count_list acts (timeout_to v) = (if 0 < unat (tbl ! v) \<and> unat (tbl ! v) \<le> k then 1 else 0)"
  using sm_alarms_session [OF assms(1), of k] assms(2) by fast

theorem session_expires_once_witness:
  "\<exists>acts tbl'. sm_alarms 20 ((session_table_init 4)[3 := 15]) = Some (acts, tbl') \<and>
     unat (tbl' ! 3) = 0 \<and> count_list acts (timeout_to 3) = 1"
  using session_expires_once [of "(session_table_init 4)[3 := 15]" 3 20]
  by (simp add: session_table_init_def TOTAL_VPS_def)

lemma sm_in1_table: "sm_in1 m tbl = Some (acts, tbl') \<Longrightarrow> mrd m 0 = Some v \<Longrightarrow>
    tbl' = (if unat v > TOTAL_VPS then tbl else tbl[unat v := SESSION_TIMEOUT]) \<and>
    (unat v \<le> TOTAL_VPS \<longrightarrow> unat v < length tbl)"
  by (auto simp: sm_in1_def Let_def wr_Some_iff split: bind_splits if_splits)

lemma sm_in2_closed:
  assumes "mrd r 0 = Some v" and "unat v \<le> TOTAL_VPS" and "rd tbl (unat v) = Some 0"
    and "mpayload r = Some bs" and "length junk = 256" and "length bs \<le> 85"
  shows "sm_in2 junk r tbl = Some ([SmUdp (UDPPORTBASE + unat v) (hexes bs)], tbl)"
proof -
  obtain n where n: "mrd r 1 = Some n" "unat n = length bs" "moff r + 2 + unat n \<le> length (mbuf r)"
    and bs: "bs = take (length bs) (drop (moff r + 2) (mbuf r))"
    using assms(4) by (auto simp: mpayload_def mrdn_def rdn_def split: bind_splits if_splits)
  have "binary_to_hexbinary (mbuf r) (moff r + 2) junk (unat n) =
      Some (of_nat (2 * length bs), (hexes bs @ drop (2 * length bs) junk)[3 * length bs := 0])"
    using binary_to_hexbinary_cases [of "length bs" "moff r + 2" "mbuf r" junk] n assms(5,6) bs
    by (simp del: of_nat_mult)
  moreover have "unat (of_nat (2 * length bs) :: byte) = 2 * length bs"
    using assms(6) by (intro unat_of_nat_byte) simp
  moreover have "rdn ((hexes bs @ drop (2 * length bs) junk)[3 * length bs := 0]) 0 (2 * length bs) =
      Some (hexes bs)"
    using assms(5,6) by (simp add: rdn_def)
  ultimately show ?thesis
    using assms(1-3) n(1) by (simp add: sm_in2_def del: of_nat_mult)
qed

text \<open>
  C16. One reply for one request. Once a command for port \<open>v\<close> has been accepted, the next message of
  the radio task for \<open>v\<close> goes to the IP task of that port (output \<open>v + 2\<close>) and closes the session,
  and the one after it is broadcast by UDP in hexadecimal on port \<open>10000 + v\<close>; the sessions of the
  other ports are not touched.
\<close>

theorem one_reply_per_request:
  assumes "sm_in1 m tbl = Some (acts, tbl1)" and "mrd m 0 = Some v" and "unat v \<le> TOTAL_VPS"
    and "mrd r 0 = Some v" and "mrd r' 0 = Some v" and "mpayload r' = Some bs"
    and "length junk = 256" and "length bs \<le> 85"
  shows "sm_in2 junk r tbl1 = Some ([SmBroadcast (v + 2) r], tbl1[unat v := 0]) \<and>
    sm_in2 junk r' (tbl1[unat v := 0]) =
      Some ([SmUdp (UDPPORTBASE + unat v) (hexes bs)], tbl1[unat v := 0]) \<and>
    (\<forall>w. w \<noteq> unat v \<longrightarrow> tbl1[unat v := 0] ! w = tbl ! w)"
proof -
  have tbl1: "tbl1 = tbl[unat v := SESSION_TIMEOUT]" and len: "unat v < length tbl"
    using sm_in1_table [OF assms(1,2)] assms(3) by auto
  have "sm_in2 junk r tbl1 = Some ([SmBroadcast (v + 2) r], tbl1[unat v := 0])"
    using assms(3,4) len by (simp add: sm_in2_def tbl1 rd_def wr_def SESSION_TIMEOUT_def)
  moreover have "sm_in2 junk r' (tbl1[unat v := 0]) =
      Some ([SmUdp (UDPPORTBASE + unat v) (hexes bs)], tbl1[unat v := 0])"
    using assms(3,5-8) len by (intro sm_in2_closed) (simp_all add: rd_def tbl1)
  ultimately show ?thesis by (simp add: tbl1)
qed

theorem one_reply_per_request_witness:
  "\<exists>tbl1. sm_in1 \<lparr>mbuf = [3, 1, 7] @ replicate 252 0, moff = 0\<rparr> (session_table_init 4) =
      Some ([SmAlarm 10, SmBroadcast 1 \<lparr>mbuf = [3, 1, 7] @ replicate 252 0, moff = 0\<rparr>], tbl1) \<and>
    sm_in2 (replicate 256 0) \<lparr>mbuf = [3, 1, 0x4f], moff = 0\<rparr> tbl1 =
      Some ([SmBroadcast 5 \<lparr>mbuf = [3, 1, 0x4f], moff = 0\<rparr>], session_table_init 4)"
proof -
  let ?m = "\<lparr>mbuf = [3, 1, 7] @ replicate 252 0, moff = 0\<rparr>" and ?r = "\<lparr>mbuf = [3, 1, 0x4f], moff = 0\<rparr>"
  have print: "print_msg ?m = Some ()" by (simp add: print_msg_ok mrd_def rd_def)
  have in1: "sm_in1 ?m (session_table_init 4) =
      Some ([SmAlarm 10, SmBroadcast 1 ?m], (session_table_init 4)[3 := SESSION_TIMEOUT])"
    using print
    by (simp add: sm_in1_def mrd_def rd_def wr_def session_table_init_def TOTAL_VPS_def bytes_def)
  have bs: "mpayload ?r = Some [0x4f]" by (simp add: mpayload_def mrd_def mrdn_def rd_def rdn_def)
  have closed: "(session_table_init 4)[3 := 0] = session_table_init 4"
    using list_update_id [of "session_table_init 4" 3]
    by (simp add: session_table_init_def TOTAL_VPS_def)
  have v: "mrd ?m 0 = Some 3" "mrd ?r 0 = Some 3" "unat (3 :: byte) \<le> TOTAL_VPS"
    by (simp_all add: mrd_def rd_def TOTAL_VPS_def)
  have "sm_in2 (replicate 256 0) ?r ((session_table_init 4)[3 := SESSION_TIMEOUT]) =
      Some ([SmBroadcast 5 ?r], session_table_init 4)"
    using one_reply_per_request [OF in1 v(1,3,2,2) bs, of "replicate 256 0"] closed by simp
  then show ?thesis using in1 by blast
qed

text \<open>
  The test \<open>VPS > MAX_VPS\<close> lets port 6 through, although the ports are 0 to 5. With pointers of
  four bytes the write to the table is out of bounds; with pointers of eight bytes the session of
  port 6 is opened, and no alarm ever counts it down or reports its time-out.
\<close>

theorem sm_in1_port_6:
  assumes "mrd m 0 = Some 6"
  shows "sm_in1 m (session_table_init 4) = None \<and>
    (sm_in1 m (session_table_init 8) = Some (acts, tbl) \<longrightarrow>
      (\<exists>acts' tbl'. sm_alarms k tbl = Some (acts', tbl') \<and> tbl' ! 6 = SESSION_TIMEOUT \<and>
        count_list acts' (timeout_to 6) = 0))"
proof -
  have "sm_in1 m (session_table_init 4) = None"
    using assms by (simp add: sm_in1_def wr_def session_table_init_def TOTAL_VPS_def)
  moreover have "\<exists>acts' tbl'. sm_alarms k tbl = Some (acts', tbl') \<and> tbl' ! 6 = SESSION_TIMEOUT \<and>
      count_list acts' (timeout_to 6) = 0"
    if "sm_in1 m (session_table_init 8) = Some (acts, tbl)"
  proof -
    have tbl: "tbl = (session_table_init 8)[6 := SESSION_TIMEOUT]"
      using sm_in1_table [OF that assms] by (simp add: TOTAL_VPS_def)
    then have "TOTAL_VPS \<le> length tbl" "tbl ! 6 = SESSION_TIMEOUT"
      by (simp_all add: session_table_init_def TOTAL_VPS_def)
    then obtain acts' tbl' where "sm_alarms k tbl = Some (acts', tbl')"
      "\<forall>v. TOTAL_VPS \<le> v \<and> v < 256 \<longrightarrow> tbl' ! v = tbl ! v \<and> count_list acts' (timeout_to v) = 0"
      using sm_alarms_session [of tbl k] by blast
    then show ?thesis using \<open>tbl ! 6 = SESSION_TIMEOUT\<close> by (auto simp: TOTAL_VPS_def)
  qed
  ultimately show ?thesis by blast
qed

theorem sm_in1_port_6_witness:
  "sm_in1 \<lparr>mbuf = [6, 1, 7], moff = 0\<rparr> (session_table_init 4) = None"
  using sm_in1_port_6 [of "\<lparr>mbuf = [6, 1, 7], moff = 0\<rparr>"] by (simp add: mrd_def rd_def)

text \<open>
  A command with the prefix \<open>0TIME\<close> is passed on without the prefix and with the long alarm;
  but it is passed on by a pointer into the middle of the block, which the task at the end of the
  way cannot free.
\<close>

theorem sm_in1_0TIME:
  assumes "m = \<lparr>mbuf = v # of_nat (5 + length bs) # bytes ''0TIME'' @ bs @ rest, moff = 0\<rparr>"
    and "unat v < TOTAL_VPS" and "TOTAL_VPS \<le> length tbl" and "length bs \<le> 77"
  shows "\<exists>m'. sm_in1 m tbl = Some ([SmAlarm 3000, SmBroadcast Out1 m'], tbl[unat v := SESSION_TIMEOUT]) \<and>
    mvps m' = Some v \<and> mpayload m' = Some bs \<and> mfree m' = None"
proof -
  let ?buf = "v # of_nat (5 + length bs) # bytes ''0TIME'' @ bs @ rest"
  let ?n = "of_nat (5 + length bs) :: byte"
  have buf: "?buf = [v, ?n, 0x30, 0x54, 0x49, 0x4d, 0x45] @ bs @ rest" by (simp add: bytes_def)
  have n: "unat ?n = 5 + length bs" using assms(4) by (intro unat_of_nat_byte) simp
  have len: "?n - 5 = of_nat (length bs)" by simp
  let ?m' = "\<lparr>mbuf = [v, ?n, 0x30, 0x54, 0x49, v, of_nat (length bs)] @ bs @ rest, moff = 5\<rparr>"
  have p1: "print_msg m = Some ()"
    using n assms(4) unfolding print_msg_ok by (simp add: assms(1) buf mrd_def rd_def del: of_nat_add)
  have p2: "print_msg ?m' = Some ()"
    using assms(4) unfolding print_msg_ok by (simp add: mrd_def rd_def del: of_nat_add)
  have "strncmp_is (mbuf m) (moff m + 2) (bytes ''0TIME'') = Some True"
    by (simp add: assms(1) bytes_def rd_def)
  moreover have "mwr (madv m 5) 0 v = Some \<lparr>mbuf = [v, ?n, 0x30, 0x54, 0x49, v, 0x45] @ bs @ rest, moff = 5\<rparr>"
    by (simp add: assms(1) buf bytes_def madv_def mwr_def wr_def numeral_eq_Suc del: of_nat_add)
  moreover have "mwr \<lparr>mbuf = [v, ?n, 0x30, 0x54, 0x49, v, 0x45] @ bs @ rest, moff = 5\<rparr> 1 (?n - 5) = Some ?m'"
    unfolding len by (simp add: mwr_def wr_def numeral_eq_Suc del: of_nat_add)
  moreover have "mrd m 0 = Some v" "mrd m 1 = Some ?n"
    by (simp_all add: assms(1) mrd_def rd_def del: of_nat_add)
  moreover have "wr tbl (unat v) SESSION_TIMEOUT = Some (tbl[unat v := SESSION_TIMEOUT])"
    using assms(2,3) by (simp add: wr_def)
  ultimately have "sm_in1 m tbl =
      Some ([SmAlarm 3000, SmBroadcast Out1 ?m'], tbl[unat v := SESSION_TIMEOUT])"
    using assms(2) p1 p2 by (simp add: sm_in1_def Let_def del: of_nat_add)
  moreover have "mvps ?m' = Some v" "mpayload ?m' = Some bs" "mfree ?m' = None"
    using assms(4) by (simp_all add: mvps_def mpayload_def mfree_def mrd_def mrdn_def rd_def rdn_def)
  ultimately show ?thesis by blast
qed

theorem sm_in1_0TIME_witness:
  "\<exists>m'. sm_in1 \<lparr>mbuf = 3 # of_nat (5 + length [0x58::byte]) # bytes ''0TIME'' @ [0x58] @ [], moff = 0\<rparr>
        (session_table_init 4) =
      Some ([SmAlarm 3000, SmBroadcast 1 m'], (session_table_init 4)[3 := SESSION_TIMEOUT]) \<and>
    mpayload m' = Some [0x58] \<and> mfree m' = None"
  using sm_in1_0TIME [OF refl, of 3 "session_table_init 4" "[0x58]" "[]"]
  by (auto simp: session_table_init_def TOTAL_VPS_def)

end
