(* ===== verification/VpsTable.thy ===== *)
theory VpsTable
  imports HP_Prelude
begin

text \<open>
  The VPS table of the ZigBee bridge (\<open>DZigbee-bridge/vps2addr.c\<close>): it maps the virtual port
  (VPS) numbers 1 to 10 of the IP side to the 8-byte IEEE address and the 2-byte network address of
  a radio device. The C array \<open>addrs\<close> of \<open>MAXVPS\<close> pointers, filled by \<open>genvpstable\<close>, is a
  list of entries; an index outside of it is a fault.
\<close>

definition ADDRLEN :: nat where "ADDRLEN = 8"
definition ADDRLEN2 :: nat where "ADDRLEN2 = 2"
definition MAXVPS :: nat where "MAXVPS = 11"

record vps_entry =
  used :: byte
  addr :: "byte list"
  nwkaddr :: "byte list"

type_synonym vps_table = "vps_entry list"

definition genvpstable :: vps_table where
  "genvpstable = replicate MAXVPS
     \<lparr>used = 0, addr = replicate ADDRLEN 0, nwkaddr = replicate ADDRLEN2 0\<rparr>"

definition clearvpstable :: "vps_table \<Rightarrow> vps_table" where
  "clearvpstable t = map (\<lambda>e. e\<lparr>used := 0\<rparr>) t"

text \<open>
  The loop of \<open>vps_add\<close> counts an \<open>unsigned char\<close> from 1 until it wraps to 0; it has no test
  against \<open>MAXVPS\<close>.
\<close>

function vps_add_from :: "vps_table \<Rightarrow> byte \<Rightarrow> byte list \<Rightarrow> (byte \<times> vps_table) option" where
  "vps_add_from t i a =
     (if i = 0 then Some (0, t)
      else do {
        e \<leftarrow> rd t (unat i);
        (if used e = 0 then Some (i, t[unat i := e\<lparr>used := 1, addr := a\<rparr>])
         else vps_add_from t (i + 1) a)
      })"
  by pat_completeness auto

termination
proof (relation "measure (\<lambda>(t, i, a). if i = 0 then 0 else 256 - unat i)", goal_cases)
  case 1
  then show ?case by simp
next
  case (2 t i a e)
  then show ?case using unat_byte_less [of i] by (auto simp: unat_Suc_byte simp del: unat_byte_less)
qed

declare vps_add_from.simps [simp del]

definition vps_add :: "vps_table \<Rightarrow> byte list \<Rightarrow> (byte \<times> vps_table) option" where
  "vps_add t a = vps_add_from t 1 a"

definition vps_add_nwk :: "vps_table \<Rightarrow> byte \<Rightarrow> byte list \<Rightarrow> vps_table option" where
  "vps_add_nwk t v a = do {
     e \<leftarrow> rd t (unat v);
     wr t (unat v) (e\<lparr>nwkaddr := a\<rparr>)
   }"

definition vps_del :: "vps_table \<Rightarrow> byte \<Rightarrow> vps_table option" where
  "vps_del t v = do {
     e \<leftarrow> rd t (unat v);
     wr t (unat v) (e\<lparr>used := 0\<rparr>)
   }"

definition vps_vtoa :: "vps_table \<Rightarrow> byte \<Rightarrow> byte list option" where
  "vps_vtoa t v = map_option addr (rd t (unat v))"

definition vps_vtoa_nwk :: "vps_table \<Rightarrow> byte \<Rightarrow> byte list option" where
  "vps_vtoa_nwk t v = map_option nwkaddr (rd t (unat v))"

definition vps_atov :: "vps_table \<Rightarrow> byte list \<Rightarrow> byte" where
  "vps_atov t a =
     (case find (\<lambda>i. used (t ! i) \<noteq> 0 \<and> a = addr (t ! i)) [1..<MAXVPS] of
        Some i \<Rightarrow> of_nat i | None \<Rightarrow> 0)"

definition vps_atov_nwk :: "vps_table \<Rightarrow> byte list \<Rightarrow> byte" where
  "vps_atov_nwk t a =
     (case find (\<lambda>i. used (t ! i) \<noteq> 0 \<and> a = nwkaddr (t ! i)) [1..<MAXVPS] of
        Some i \<Rightarrow> of_nat i | None \<Rightarrow> 0)"

definition check_valid_vps :: "vps_table \<Rightarrow> byte \<Rightarrow> byte option" where
  "check_valid_vps t v = do {
     e \<leftarrow> rd t (unat v);
     Some (if used e = 1 then 1 else 0)
   }"

section \<open>Well-formed tables\<close>

definition vps_wf :: "vps_table \<Rightarrow> bool" where
  "vps_wf t \<longleftrightarrow> length t = MAXVPS \<and>
     (\<forall>e \<in> set t. length (addr e) = ADDRLEN \<and> length (nwkaddr e) = ADDRLEN2 \<and>
        (used e = 0 \<or> used e = 1))"

lemma vps_wf_gen: "vps_wf genvpstable"
  by (simp add: vps_wf_def genvpstable_def)

lemma vps_wf_clear: "vps_wf t \<Longrightarrow> vps_wf (clearvpstable t)"
  by (auto simp: vps_wf_def clearvpstable_def)

lemma vps_wf_update:
  "vps_wf t \<Longrightarrow> length (addr e) = ADDRLEN \<Longrightarrow> length (nwkaddr e) = ADDRLEN2 \<Longrightarrow>
   used e = 0 \<or> used e = 1 \<Longrightarrow> vps_wf (t[i := e])"
  unfolding vps_wf_def using set_update_subset_insert [of t i e] by (auto split: if_splits)

lemma vps_wf_nth:
  "vps_wf t \<Longrightarrow> i < MAXVPS \<Longrightarrow>
   length (addr (t ! i)) = ADDRLEN \<and> length (nwkaddr (t ! i)) = ADDRLEN2 \<and>
   (used (t ! i) = 0 \<or> used (t ! i) = 1)"
  by (auto simp: vps_wf_def)

section \<open>The first free slot\<close>

definition free_slot :: "vps_table \<Rightarrow> nat option" where
  "free_slot t = find (\<lambda>k. used (t ! k) = 0) [1..<MAXVPS]"

lemma vps_add_from_find:
  assumes "length t = MAXVPS" and "0 < n" and "n \<le> MAXVPS"
  shows "vps_add_from t (of_nat n) a =
    (case find (\<lambda>k. used (t ! k) = 0) [n..<MAXVPS] of
       None \<Rightarrow> None
     | Some k \<Rightarrow> Some (of_nat k, t[k := (t ! k)\<lparr>used := 1, addr := a\<rparr>]))"
  using assms(2,3)
proof (induction "MAXVPS - n" arbitrary: n)
  case 0
  then have "n = MAXVPS" by simp
  then show ?case
    using assms(1) by (subst vps_add_from.simps) (simp add: rd_def MAXVPS_def)
next
  case (Suc d)
  then have n: "n < MAXVPS" and small: "n < 256" by (auto simp: MAXVPS_def)
  have "vps_add_from t (of_nat (Suc n)) a =
    (case find (\<lambda>k. used (t ! k) = 0) [Suc n..<MAXVPS] of
       None \<Rightarrow> None
     | Some k \<Rightarrow> Some (of_nat k, t[k := (t ! k)\<lparr>used := 1, addr := a\<rparr>]))"
    using Suc n by (intro Suc.hyps(1)) auto
  then show ?case
    using n small Suc.prems assms(1)
    by (subst vps_add_from.simps) (simp add: rd_def upt_conv_Cons add.commute)
qed

lemma vps_add_eq:
  "vps_wf t \<Longrightarrow> vps_add t a =
    (case free_slot t of
       None \<Rightarrow> None
     | Some k \<Rightarrow> Some (of_nat k, t[k := (t ! k)\<lparr>used := 1, addr := a\<rparr>]))"
  using vps_add_from_find [of t 1 a] by (simp add: vps_add_def free_slot_def vps_wf_def MAXVPS_def)

lemma free_slot_Some:
  "free_slot t = Some k \<longleftrightarrow> 1 \<le> k \<and> k < MAXVPS \<and> used (t ! k) = 0 \<and>
     (\<forall>j. 1 \<le> j \<and> j < k \<longrightarrow> used (t ! j) \<noteq> 0)"
  by (simp add: free_slot_def find_Some_least)

lemma free_slot_None:
  "free_slot t = None \<longleftrightarrow> (\<forall>k. 1 \<le> k \<and> k < MAXVPS \<longrightarrow> used (t ! k) \<noteq> 0)"
  by (simp add: free_slot_def find_None_range)

section \<open>The table as a partial map\<close>

text \<open>
  What the table promises is a partial map from slot numbers to keys, where the key of a slot is
  its IEEE address or its network address.
\<close>

definition slot_key :: "(vps_entry \<Rightarrow> byte list) \<Rightarrow> vps_table \<Rightarrow> nat \<Rightarrow> byte list option" where
  "slot_key f t i =
     (if 1 \<le> i \<and> i < MAXVPS \<and> used (t ! i) \<noteq> 0 then Some (f (t ! i)) else None)"

abbreviation vps_abs :: "vps_table \<Rightarrow> nat \<Rightarrow> byte list option" where
  "vps_abs \<equiv> slot_key addr"

abbreviation nwk_abs :: "vps_table \<Rightarrow> nat \<Rightarrow> byte list option" where
  "nwk_abs \<equiv> slot_key nwkaddr"

lemma slot_key_Some:
  "slot_key f t i = Some k \<longleftrightarrow> 1 \<le> i \<and> i < MAXVPS \<and> used (t ! i) \<noteq> 0 \<and> f (t ! i) = k"
  by (auto simp: slot_key_def)

lemma slot_key_range: "slot_key f t i = Some k \<Longrightarrow> 1 \<le> i \<and> i < MAXVPS"
  by (simp add: slot_key_def split: if_splits)

lemma slot_key_clear: "vps_wf t \<Longrightarrow> slot_key f (clearvpstable t) = Map.empty"
  by (rule ext) (simp add: slot_key_def clearvpstable_def vps_wf_def)

text \<open>The contract of an address search: it finds the first slot that holds the key, or returns 0.\<close>

locale addr_index =
  fixes wf :: "'t \<Rightarrow> bool"
    and key_at :: "'t \<Rightarrow> nat \<Rightarrow> 'k option"
    and lookup :: "'t \<Rightarrow> 'k \<Rightarrow> byte"
  assumes lookup_hit: "wf t \<Longrightarrow> lookup t k \<noteq> 0 \<Longrightarrow> key_at t (unat (lookup t k)) = Some k"
    and lookup_first: "wf t \<Longrightarrow> key_at t i = Some k \<Longrightarrow> lookup t k \<noteq> 0 \<and> unat (lookup t k) \<le> i"
begin

lemma lookup_zero_iff: "wf t \<Longrightarrow> lookup t k = 0 \<longleftrightarrow> k \<notin> ran (key_at t)"
  using lookup_hit lookup_first by (fastforce simp: ran_def)

lemma lookup_inverts:
  assumes "wf t" and "inj_on (key_at t) (dom (key_at t))" and "key_at t i = Some k"
  shows "unat (lookup t k) = i"
proof -
  have "key_at t (unat (lookup t k)) = Some k"
    using lookup_hit [OF assms(1)] lookup_first [OF assms(1,3)] by blast
  then show ?thesis
    using assms(2,3) by (metis domI inj_onD)
qed

end

text \<open>An allocator adds a key in a slot that was free, and changes no other slot.\<close>

locale addr_alloc = addr_index wf key_at lookup
  for wf :: "'t \<Rightarrow> bool" and key_at :: "'t \<Rightarrow> nat \<Rightarrow> 'k option" and lookup :: "'t \<Rightarrow> 'k \<Rightarrow> byte" +
  fixes valid :: "'k \<Rightarrow> bool"
    and alloc :: "'t \<Rightarrow> 'k \<Rightarrow> (byte \<times> 't) option"
  assumes alloc_wf: "wf t \<Longrightarrow> valid k \<Longrightarrow> alloc t k = Some (v, t') \<Longrightarrow> wf t'"
    and alloc_fresh: "wf t \<Longrightarrow> alloc t k = Some (v, t') \<Longrightarrow> key_at t (unat v) = None"
    and alloc_upd: "wf t \<Longrightarrow> alloc t k = Some (v, t') \<Longrightarrow> key_at t' = (key_at t)(unat v \<mapsto> k)"
begin

lemma alloc_inj:
  assumes "wf t" and "alloc t k = Some (v, t')" and "k \<notin> ran (key_at t)"
    and "inj_on (key_at t) (dom (key_at t))"
  shows "inj_on (key_at t') (dom (key_at t'))"
proof (rule inj_onI)
  fix i j
  assume i: "i \<in> dom (key_at t')" and j: "j \<in> dom (key_at t')" and eq: "key_at t' i = key_at t' j"
  then show "i = j"
    using assms(3,4) alloc_upd [OF assms(1,2)]
    by (auto simp: ran_def dom_def inj_on_def split: if_splits)
qed

lemma alloc_lookup_new:
  assumes "wf t" and "valid k" and "alloc t k = Some (v, t')" and "k \<notin> ran (key_at t)"
  shows "lookup t' k = v"
proof -
  have wf': "wf t'" using assms by (blast intro: alloc_wf)
  have upd: "key_at t' = (key_at t)(unat v \<mapsto> k)" using assms by (blast intro: alloc_upd)
  then have "lookup t' k \<noteq> 0" using lookup_first [OF wf', of "unat v" k] by simp
  then have "key_at t' (unat (lookup t' k)) = Some k" by (rule lookup_hit [OF wf'])
  then have "unat (lookup t' k) = unat v"
    using upd assms(4) by (auto simp: ran_def split: if_splits)
  then show ?thesis by (simp add: word_unat_eq_iff)
qed

lemma alloc_lookup_old:
  assumes "wf t" and "valid k" and "alloc t k = Some (v, t')"
    and "inj_on (key_at t) (dom (key_at t))" and "k \<notin> ran (key_at t)" and "key_at t i = Some k'"
  shows "lookup t' k' = lookup t k'"
proof -
  have wf': "wf t'" using assms by (blast intro: alloc_wf)
  have "i \<noteq> unat v" using alloc_fresh [OF assms(1,3)] assms(6) by auto
  then have "key_at t' i = Some k'" using alloc_upd [OF assms(1,3)] assms(6) by simp
  then have "unat (lookup t' k') = i"
    by (rule lookup_inverts [OF wf' alloc_inj [OF assms(1,3,5,4)]])
  moreover have "unat (lookup t k') = i"
    by (rule lookup_inverts [OF assms(1,4,6)])
  ultimately show ?thesis by (metis word_unat_eq_iff)
qed

end

section \<open>The table implements the contracts\<close>

text \<open>The search loop that \<open>vps_atov\<close> and \<open>vps_atov_nwk\<close> share.\<close>

lemma slot_search_cases:
  fixes f t a
  defines "r \<equiv> (case find (\<lambda>i. used (t ! i) \<noteq> 0 \<and> a = f (t ! i)) [1..<MAXVPS] of
                  Some i \<Rightarrow> of_nat i | None \<Rightarrow> (0::byte))"
  shows "(r = 0 \<and> a \<notin> ran (slot_key f t)) \<or>
    (\<exists>i. r = of_nat i \<and> slot_key f t i = Some a \<and> (\<forall>j<i. slot_key f t j \<noteq> Some a))"
proof (cases "find (\<lambda>i. used (t ! i) \<noteq> 0 \<and> a = f (t ! i)) [1..<MAXVPS]")
  case None
  then have "a \<notin> ran (slot_key f t)"
    by (auto simp: find_None_range ran_def slot_key_Some)
  with None show ?thesis by (simp add: r_def)
next
  case (Some i)
  then have "slot_key f t i = Some a" and "\<forall>j<i. slot_key f t j \<noteq> Some a"
    unfolding find_Some_least slot_key_Some by auto
  with Some show ?thesis by (auto simp: r_def)
qed

text \<open>Either search meets the contract as soon as it satisfies the case distinction above.\<close>

lemma addr_indexI:
  assumes "\<And>t a. (look t a = 0 \<and> a \<notin> ran (slot_key f t)) \<or>
    (\<exists>i. look t a = of_nat i \<and> slot_key f t i = Some a \<and> (\<forall>j<i. slot_key f t j \<noteq> Some a))"
  shows "addr_index vps_wf (slot_key f) look"
proof (unfold_locales, goal_cases)
  case (1 t k)
  then obtain i where "look t k = of_nat i" and i: "slot_key f t i = Some k"
    using assms [of t k] by blast
  then show ?case using slot_key_range [OF i] by (simp add: MAXVPS_def)
next
  case (2 t i k)
  then have "k \<in> ran (slot_key f t)" by (auto simp: ran_def)
  then obtain j where "look t k = of_nat j" and j: "slot_key f t j = Some k" and "\<not> i < j"
    using assms [of t k] 2 by blast
  then show ?case using slot_key_range [OF j] by (simp add: MAXVPS_def)
qed

interpretation nwk: addr_index vps_wf nwk_abs vps_atov_nwk
  by (rule addr_indexI) (unfold vps_atov_nwk_def, rule slot_search_cases)

interpretation ieee: addr_alloc vps_wf vps_abs vps_atov "\<lambda>a. length a = ADDRLEN" vps_add
proof (rule addr_alloc.intro)
  show "addr_index vps_wf vps_abs vps_atov"
    by (rule addr_indexI) (unfold vps_atov_def, rule slot_search_cases)
  show "addr_alloc_axioms vps_wf vps_abs (\<lambda>a. length a = ADDRLEN) vps_add"
  proof (unfold_locales, goal_cases)
    case (1 t k v t')
    then show ?case
      by (auto simp: vps_add_eq free_slot_Some intro!: vps_wf_update
               dest: vps_wf_nth split: option.splits)
  next
    case (2 t k v t')
    then show ?case
      by (auto simp: vps_add_eq free_slot_Some slot_key_def MAXVPS_def split: option.splits)
  next
    case (3 t k v t')
    then show ?case
      by (auto simp: vps_add_eq free_slot_Some slot_key_def MAXVPS_def vps_wf_def fun_eq_iff
               nth_list_update split: option.splits)
  qed
qed

lemma vps_add_wf: "vps_add t a = Some (v, t') \<Longrightarrow> vps_wf t \<Longrightarrow> length a = ADDRLEN \<Longrightarrow> vps_wf t'"
  using ieee.alloc_wf by blast

lemma vps_add_nwk_wf:
  assumes "vps_add_nwk t v a = Some t'" and "vps_wf t" and "length a = ADDRLEN2"
  shows "vps_wf t'"
proof -
  have "unat v < MAXVPS" and t': "t' = t[unat v := (t ! unat v)\<lparr>nwkaddr := a\<rparr>]"
    using assms(1,2) by (auto simp: vps_add_nwk_def rd_def wr_def vps_wf_def split: if_splits)
  then show ?thesis
    using vps_wf_nth [OF assms(2)] assms(2,3) unfolding t' by (intro vps_wf_update) auto
qed

section \<open>Properties\<close>

text \<open>
  C29. \<open>vps_add\<close> on a well-formed table: it takes the lowest free slot, keeps the table
  well-formed, and changes the address map at that slot only; when no slot from 1 to 10 is free it
  runs off the end of the array (there is no test against \<open>MAXVPS\<close>), which is the only way it fails.
\<close>

theorem vps_add_refines:
  assumes "vps_wf t" and "length a = ADDRLEN"
  shows "case free_slot t of
      None \<Rightarrow> vps_add t a = None \<and> (\<forall>k. 1 \<le> k \<and> k \<le> 10 \<longrightarrow> used (t ! k) \<noteq> 0)
    | Some k \<Rightarrow> \<exists>t'. vps_add t a = Some (of_nat k, t') \<and> vps_wf t' \<and>
        1 \<le> k \<and> k \<le> 10 \<and> vps_abs t k = None \<and> vps_abs t' = (vps_abs t)(k \<mapsto> a)"
proof (cases "free_slot t")
  case None
  then have "\<forall>k. 1 \<le> k \<and> k \<le> 10 \<longrightarrow> used (t ! k) \<noteq> 0"
    by (auto simp: free_slot_None MAXVPS_def)
  with None show ?thesis using assms by (simp add: vps_add_eq)
next
  case (Some k)
  then obtain t' where t': "vps_add t a = Some (of_nat k, t')" "k < 256" "1 \<le> k" "k \<le> 10"
    using assms by (auto simp: vps_add_eq free_slot_Some MAXVPS_def)
  then show ?thesis
    using Some ieee.alloc_wf [OF assms t'(1)] ieee.alloc_fresh [OF assms(1) t'(1)]
      ieee.alloc_upd [OF assms(1) t'(1)]
    by simp
qed

theorem vps_add_refines_witness:
  "free_slot genvpstable = Some 1 \<and>
   (\<exists>t'. vps_add genvpstable (replicate 8 7) = Some (1, t') \<and> vps_abs t' 1 = Some (replicate 8 7))"
proof -
  have free: "free_slot genvpstable = Some 1"
    by (simp add: free_slot_Some genvpstable_def MAXVPS_def)
  have "length (replicate 8 (7::byte)) = ADDRLEN"
    by (simp add: ADDRLEN_def)
  from vps_add_refines [OF vps_wf_gen this] free show ?thesis by auto
qed

text \<open>
  Round trip: a device address that is not yet in the table, once added, is found again by the
  search under the number that \<open>vps_add\<close> returned, that number is valid and reads back the address,
  and the numbers of the devices that were there are unchanged.
\<close>

theorem vps_add_roundtrip:
  assumes "vps_wf t" and "length a = ADDRLEN" and "vps_add t a = Some (v, t')"
    and "a \<notin> ran (vps_abs t)" and "inj_on (vps_abs t) (dom (vps_abs t))"
  shows "vps_atov t' a = v \<and> vps_vtoa t' v = Some a \<and> check_valid_vps t' v = Some 1 \<and>
    inj_on (vps_abs t') (dom (vps_abs t')) \<and>
    (\<forall>i b. vps_abs t i = Some b \<longrightarrow> vps_atov t' b = vps_atov t b)"
proof (intro conjI allI impI)
  show "vps_atov t' a = v" using assms(1-4) by (rule ieee.alloc_lookup_new)
  show "inj_on (vps_abs t') (dom (vps_abs t'))" using assms(1,3,4,5) by (rule ieee.alloc_inj)
  show "vps_vtoa t' v = Some a" "check_valid_vps t' v = Some 1"
    using assms(1,3)
    by (auto simp: vps_add_eq free_slot_Some vps_vtoa_def check_valid_vps_def vps_wf_def rd_def
        MAXVPS_def split: option.splits)
next
  fix i b assume "vps_abs t i = Some b"
  then show "vps_atov t' b = vps_atov t b"
    using assms(1,2,3,5,4) by (blast intro: ieee.alloc_lookup_old)
qed

theorem vps_add_roundtrip_witness:
  "\<exists>t'. vps_add genvpstable (replicate 8 7) = Some (1, t') \<and> vps_atov t' (replicate 8 7) = 1"
proof -
  have abs: "vps_abs genvpstable = Map.empty"
    by (rule ext) (simp add: slot_key_def genvpstable_def)
  have free: "free_slot genvpstable = Some 1"
    by (simp add: free_slot_Some genvpstable_def MAXVPS_def)
  obtain t' where t': "vps_add genvpstable (replicate 8 7) = Some (1, t')"
    using vps_add_eq [OF vps_wf_gen] free by simp
  have "vps_atov t' (replicate 8 7) = 1"
    using vps_add_roundtrip [OF vps_wf_gen _ t'] by (simp add: abs ADDRLEN_def)
  with t' show ?thesis by blast
qed

text \<open>
  Including a device that is already in the table is not recognised: \<open>vps_add\<close> never looks the
  address up, so the same address ends up in two slots, and the search keeps answering with a slot
  at most as large as the old one: the new number is never the answer if a smaller one exists.
\<close>

theorem vps_add_duplicates:
  assumes "vps_wf t" and "length a = ADDRLEN" and "vps_abs t i = Some a"
    and "vps_add t a = Some (v, t')"
  shows "vps_abs t' i = Some a \<and> vps_abs t' (unat v) = Some a \<and> unat v \<noteq> i \<and>
    unat (vps_atov t' a) \<le> min i (unat v)"
proof -
  have upd: "vps_abs t' = (vps_abs t)(unat v \<mapsto> a)" using assms(1,4) by (rule ieee.alloc_upd)
  have ne: "unat v \<noteq> i" using ieee.alloc_fresh [OF assms(1,4)] assms(3) by auto
  have wf': "vps_wf t'" using assms(1,2,4) by (rule ieee.alloc_wf)
  show ?thesis
    using ieee.lookup_first [OF wf', of i a] ieee.lookup_first [OF wf', of "unat v" a] upd ne assms(3)
    by auto
qed

theorem vps_add_duplicates_witness:
  "\<exists>t t'. vps_abs t 1 = Some (replicate 8 7) \<and> vps_add t (replicate 8 7) = Some (2, t') \<and>
     unat (vps_atov t' (replicate 8 7)) \<le> 1"
proof -
  let ?a = "replicate 8 (7::byte)"
  let ?t = "genvpstable[1 := \<lparr>used = 1, addr = ?a, nwkaddr = replicate ADDRLEN2 0\<rparr>]"
  have wf: "vps_wf ?t" by (rule vps_wf_update) (simp_all add: vps_wf_gen ADDRLEN_def)
  have abs: "vps_abs ?t 1 = Some ?a" by (simp add: slot_key_def genvpstable_def MAXVPS_def)
  have "free_slot ?t = Some 2"
    by (auto simp: free_slot_Some genvpstable_def MAXVPS_def nth_list_update)
  then obtain t' where t': "vps_add ?t ?a = Some (2, t')"
    using vps_add_eq [OF wf] by simp
  have "length ?a = ADDRLEN" by (simp add: ADDRLEN_def)
  from vps_add_duplicates [OF wf this abs t'] abs t' show ?thesis
    by (intro exI [of _ ?t] exI [of _ t']) simp
qed

end
