(* ===== verification/ZigBee.thy ===== *)
theory ZigBee
  imports SessionManager VpsTable
begin

text \<open>
  The radio task (\<open>DZigbee-bridge/zigbee.c\<close>): it turns the commands of the IP side into frames for
  the ZigBee dongle, and what the dongle sends into messages for the IP side; on the way it learns
  the addresses of the devices and keeps the modes of a pending inclusion, exclusion, network list
  or descriptor request.

  A wake-up of the task is a list of steps on \<open>zb_run\<close>, one for each \<open>if\<close> of the C function, in
  its order. The bytes of the message are read and written through \<open>dataPtr\<close>, the \<open>zmsg\<close> of the run.
\<close>

record zb_state =
  vpst :: vps_table
  includemode :: bool
  excludemode :: bool
  netupdatemode :: bool
  getdescmode :: bool
  gwieeeaddr :: "byte list"

record zb_run =
  zst :: zb_state
  zmsg :: msg
  serial :: bool
  upper :: bool

definition zb_init :: "byte list \<Rightarrow> zb_state" where
  "zb_init junk = \<lparr>vpst = clearvpstable genvpstable, includemode = False, excludemode = False,
     netupdatemode = False, getdescmode = False, gwieeeaddr = junk\<rparr>"

definition EXCLUDEIEEE :: "byte list" where
  "EXCLUDEIEEE = bytes ''000300C00DCE02FCFF009502000D00BC150000'' @ [0]"
definition CONFIGHEADER :: "byte list" where
  "CONFIGHEADER = bytes ''000300C028EB0003'' @ [0]"
definition CONFIGCSTRING :: "byte list" where
  "CONFIGCSTRING = bytes ''000000210000001600'' @ [0]"

definition CHECKSUM :: "byte list \<Rightarrow> byte" where
  "CHECKSUM a = a ! 0 XOR a ! 1 XOR a ! 2 XOR a ! 3 XOR a ! 4"

text \<open>\<open>memcmp\<close> with a literal, from index \<open>i\<close> of the message; only equality is used.\<close>

definition mmatch :: "msg \<Rightarrow> nat \<Rightarrow> byte list \<Rightarrow> bool option" where
  "mmatch m i k = do { b \<leftarrow> mrdn m i (length k); Some (b = k) }"

text \<open>A chain of comparisons of consecutive bytes of the message.\<close>

definition mseq :: "msg \<Rightarrow> nat \<Rightarrow> byte list \<Rightarrow> bool option" where
  "mseq m i ks = strncmp_is (mbuf m) (moff m + i) ks"

text \<open>A frame \<open>f\<close> as the payload of the message, with its length.\<close>

definition set_payload :: "msg \<Rightarrow> byte list \<Rightarrow> msg option" where
  "set_payload m f = do { m1 \<leftarrow> mwrn m 2 f; mwr m1 1 (of_nat (length f)) }"

section \<open>Commands on port 0\<close>

definition up_netlist :: "zb_run \<Rightarrow> zb_run option" where
  "up_netlist r = do {
     c \<leftarrow> mmatch (zmsg r) 2 (bytes ''NETLIST_REQ'');
     (if \<not> c then Some r else do {
        let f = [0x00, 0x03, 0x00, 0xc0, 0x04, 0xcd, 0x03, 0x05, 0x00, 0x00];
        m \<leftarrow> set_payload (zmsg r) f;
        m1 \<leftarrow> mwr m 7 (CHECKSUM f);
        Some (r\<lparr>zmsg := m1, serial := True, zst := (zst r)\<lparr>netupdatemode := True\<rparr>\<rparr>)
      })
   }"

definition up_include :: "zb_run \<Rightarrow> zb_run option" where
  "up_include r = do {
     c \<leftarrow> mmatch (zmsg r) 2 (bytes ''INCLUDE_REQ'');
     (if \<not> c then Some r else do {
        m \<leftarrow> set_payload (zmsg r) [0x00, 0x03, 0x00, 0xc0, 0x06, 0xc5, 0x01, 0x36, 0xFC, 0xFF, 0xFE, 0x01];
        Some (r\<lparr>zmsg := m, serial := True,
                zst := (zst r)\<lparr>includemode := True, excludemode := False\<rparr>\<rparr>)
      })
   }"

definition up_addstop :: "zb_run \<Rightarrow> zb_run option" where
  "up_addstop r = do {
     c \<leftarrow> mmatch (zmsg r) 2 (bytes ''XADDSTOP_RE'');
     (if \<not> c then Some r else do {
        m \<leftarrow> set_payload (zmsg r) [0x00, 0x03, 0x00, 0xc0, 0x06, 0xc5, 0x01, 0x36, 0xFC, 0xFF, 0x00, 0x01];
        Some (r\<lparr>zmsg := m, serial := False,
                zst := (zst r)\<lparr>includemode := False, excludemode := False\<rparr>\<rparr>)
      })
   }"

definition up_getdesc0 :: "zb_run \<Rightarrow> zb_run option" where
  "up_getdesc0 r = do {
     c \<leftarrow> mmatch (zmsg r) 2 (bytes ''GETDESC_REQ'');
     (if \<not> c then Some r else do {
        m \<leftarrow> set_payload (zmsg r)
          [0x00, 0x03, 0x00, 0xc0, 0x07, 0xc4, 0x01, 0x04, 0xdc, 0x54, 0xdc, 0x54, 0x21];
        Some (r\<lparr>zmsg := m, serial := False,
                zst := (zst r)\<lparr>includemode := False, excludemode := False\<rparr>\<rparr>)
      })
   }"

definition up_xclude0 :: "zb_run \<Rightarrow> zb_run option" where
  "up_xclude0 r = do {
     c \<leftarrow> mmatch (zmsg r) 2 (bytes ''XCLUDE_REQ'');
     (if \<not> c then Some r else do {
        _ \<leftarrow> mfree (zmsg r);
        Some (r\<lparr>serial := False, zst := (zst r)\<lparr>includemode := False, excludemode := True\<rparr>\<rparr>)
      })
   }"

definition up_management :: "zb_run \<Rightarrow> zb_run option" where
  "up_management r0 = do {
     r1 \<leftarrow> up_netlist (r0\<lparr>serial := True\<rparr>);
     r2 \<leftarrow> up_include r1;
     r3 \<leftarrow> up_addstop r2;
     r4 \<leftarrow> up_getdesc0 r3;
     up_xclude0 r4
   }"

section \<open>Commands on the port of a device\<close>

text \<open>A decoded literal in the message, as \<open>hexbinary_to_binary(EXCLUDEIEEE, dataPtr + 2)\<close> leaves it.\<close>

definition exclude_frame :: "vps_table \<Rightarrow> byte \<Rightarrow> msg \<Rightarrow> msg option" where
  "exclude_frame t v m = do {
     (_, b) \<leftarrow> hexbinary_to_binary (Some EXCLUDEIEEE) (mbuf m) 0 (moff m + 2);
     a \<leftarrow> vps_vtoa t v;
     m1 \<leftarrow> mwrn (m\<lparr>mbuf := b\<rparr>) (2 + 10) a;
     m2 \<leftarrow> mwr m1 20 0;
     mwr m2 1 19
   }"

definition up_xclude :: "byte \<Rightarrow> zb_run \<Rightarrow> zb_run option" where
  "up_xclude v r = do {
     m \<leftarrow> exclude_frame (vpst (zst r)) v (zmsg r);
     Some (r\<lparr>zmsg := m, serial := True, zst := (zst r)\<lparr>excludemode := True, includemode := False\<rparr>\<rparr>)
   }"

text \<open>The first six bytes of a frame of \<open>n\<close> bytes behind them, as the code writes them one by one.\<close>

definition frame_head :: "byte \<Rightarrow> byte list" where
  "frame_head n = [0x00, 0x03, 0x00, 0xC0, n, CHECKSUM [0x00, 0x03, 0x00, 0xC0, n]]"

definition getdesc_frame :: "byte list \<Rightarrow> byte \<Rightarrow> byte list option" where
  "getdesc_frame a endpoint = do {
     buffer \<leftarrow> wrn (replicate 200 0) 0 (frame_head 0x07 @ [0x01, 0x04]);
     buffer1 \<leftarrow> wrn buffer 8 a;
     buffer2 \<leftarrow> wrn buffer1 10 a;
     buffer3 \<leftarrow> wr buffer2 12 endpoint;
     rdn buffer3 0 13
   }"

definition up_getdesc :: "byte \<Rightarrow> zb_run \<Rightarrow> zb_run option" where
  "up_getdesc v r = do {
     endpoint \<leftarrow> htoi (mbuf (zmsg r)) (moff (zmsg r) + 13);
     v0 \<leftarrow> mrd (zmsg r) 0;
     a \<leftarrow> vps_vtoa_nwk (vpst (zst r)) v0;
     f \<leftarrow> getdesc_frame a (ucast endpoint);
     m \<leftarrow> set_payload (zmsg r) f;
     Some (r\<lparr>zmsg := m, serial := True, zst := (zst r)\<lparr>getdescmode := True\<rparr>\<rparr>)
   }"

definition up_getuid :: "byte \<Rightarrow> zb_run \<Rightarrow> zb_run option" where
  "up_getuid v r = do {
     a \<leftarrow> vps_vtoa (vpst (zst r)) v;
     m \<leftarrow> mwrn (zmsg r) 2 a;
     m1 \<leftarrow> mwr m 1 8;
     Some (r\<lparr>zmsg := m1, serial := False, upper := True\<rparr>)
   }"

text \<open>
  \<open>(VPSLEN - 10) / 2\<close> in \<open>int\<close>, rounded towards zero. The configuration frame is built in \<open>buffer\<close>;
  \<open>len\<close> is the index of its next part, at least 28 here.
\<close>

definition config_half :: "byte \<Rightarrow> int" where
  "config_half n = (let d = int (unat n) - 10 in if d < 0 then - ((- d) div 2) else d div 2)"

definition xonfig_frame :: "byte list \<Rightarrow> byte list \<Rightarrow> byte list \<Rightarrow> byte \<Rightarrow> byte list option" where
  "xonfig_frame a gw data n = do {
     (_, b1) \<leftarrow> hexbinary_to_binary (Some CONFIGHEADER) (replicate 200 0) 0 0;
     b2 \<leftarrow> wrn b1 8 a;
     (_, b3) \<leftarrow> hexbinary_to_binary (Some CONFIGCSTRING) b2 0 16;
     b4 \<leftarrow> wrn b3 25 a;
     (_, b5) \<leftarrow> hexbinary_to_binary (Some data) b4 (2 + 10) 33;
     let len = nat (33 + config_half n);
     b6 \<leftarrow> wrn b5 len gw;
     b7 \<leftarrow> wr b6 (len + 8) 0xc0;
     rdn b7 0 (len + 9)
   }"

definition up_xonfig :: "byte \<Rightarrow> zb_run \<Rightarrow> zb_run option" where
  "up_xonfig v r = do {
     a \<leftarrow> vps_vtoa (vpst (zst r)) v;
     n \<leftarrow> mrd (zmsg r) 1;
     f \<leftarrow> xonfig_frame a (gwieeeaddr (zst r)) (mdata (zmsg r)) n;
     m \<leftarrow> set_payload (zmsg r) f;
     Some (r\<lparr>zmsg := m, serial := True\<rparr>)
   }"

definition forward_frame :: "byte list \<Rightarrow> byte list \<Rightarrow> byte \<Rightarrow> byte list option" where
  "forward_frame a data n = do {
     buffer \<leftarrow> wrn (replicate 200 0) 0 (frame_head (n + 10) @ [0x00, 0x03]);
     buffer1 \<leftarrow> wrn buffer 8 a;
     buffer2 \<leftarrow> wrn buffer1 16 data;
     rdn buffer2 0 (unat n + 16)
   }"

definition up_forward :: "zb_run \<Rightarrow> zb_run option" where
  "up_forward r = do {
     v0 \<leftarrow> mrd (zmsg r) 0;
     n \<leftarrow> mrd (zmsg r) 1;
     a \<leftarrow> vps_vtoa (vpst (zst r)) v0;
     d \<leftarrow> mrdn (zmsg r) 2 (unat n);
     f \<leftarrow> forward_frame a d n;
     m \<leftarrow> set_payload (zmsg r) f;
     Some (r\<lparr>zmsg := m, serial := True\<rparr>)
   }"

definition up_device :: "byte \<Rightarrow> zb_run \<Rightarrow> zb_run option" where
  "up_device v r = do {
     x \<leftarrow> mmatch (zmsg r) 2 (bytes ''XCLUDE_REQ'');
     (if x then up_xclude v r else do {
        g \<leftarrow> mmatch (zmsg r) 2 (bytes ''GETDESC_REQ'');
        (if g then up_getdesc v r else do {
           u \<leftarrow> mmatch (zmsg r) 2 (bytes ''GETUID_REQ'');
           (if u then up_getuid v r else do {
              c \<leftarrow> mmatch (zmsg r) 2 (bytes ''XONFIG_REQ'');
              (if c then up_xonfig v r else up_forward r)
            })
         })
      })
   }"

definition up_invalid :: "byte \<Rightarrow> zb_run \<Rightarrow> zb_run option" where
  "up_invalid v r = do {
     m \<leftarrow> mwrn (zmsg r) 2 (bytes ''invalid vps : '');
     m1 \<leftarrow> mwr m 0 v;
     m2 \<leftarrow> mwr m1 1 14;
     Some (r\<lparr>zmsg := m2, upper := True, serial := False\<rparr>)
   }"

definition zb_upper :: "zb_run \<Rightarrow> zb_run option" where
  "zb_upper r = do {
     v \<leftarrow> mrd (zmsg r) 0;
     (if v = 0 then up_management r
      else do {
        valid \<leftarrow> check_valid_vps (vpst (zst r)) v;
        (if v < 11 \<and> valid \<noteq> 0 then up_device v r
         else if valid = 0 then up_invalid v r
         else Some r)
      })
   }"

section \<open>Frames from the radio\<close>

text \<open>The frame that acknowledges a new device; the length of the message is left as it is.\<close>

definition newdevice_frame :: "nat \<Rightarrow> zb_run \<Rightarrow> zb_run option" where
  "newdevice_frame i r = do {
     a \<leftarrow> mrdn (zmsg r) i 8;
     (newvps, t) \<leftarrow> vps_add (vpst (zst r)) a;
     m1 \<leftarrow> mwrn (zmsg r) 2 [0x00, 0x03, 0x00, 0xC0, 0x0E, 0xCD, 0x02, 0xFC, 0xFF, 0xFE];
     a' \<leftarrow> vps_vtoa t newvps;
     m2 \<leftarrow> mwrn m1 (2 + 10) a';
     m3 \<leftarrow> mwrn m2 (2 + 18) [0x01, 0x00];
     Some (r\<lparr>zmsg := m3, serial := True, upper := False,
             zst := (zst r)\<lparr>vpst := t, includemode := False\<rparr>\<rparr>)
   }"

definition rad_include_report :: "zb_run \<Rightarrow> zb_run option" where
  "rad_include_report r = do {
     c \<leftarrow> (if includemode (zst r) then mseq (zmsg r) 8 [0xc1, 0x20, 0xf1] else Some False);
     (if c then newdevice_frame (10 + 2) r else Some r)
   }"

definition rad_gateway :: "zb_run \<Rightarrow> zb_run option" where
  "rad_gateway r = do {
     c \<leftarrow> mseq (zmsg r) 3 [0x53, 0xc4, 0xc4, 0x08];
     (if \<not> c then Some r else do {
        a \<leftarrow> mrdn (zmsg r) (2 + 6) 8;
        Some (r\<lparr>serial := False, upper := False, zst := (zst r)\<lparr>gwieeeaddr := a\<rparr>\<rparr>)
      })
   }"

definition rad_announce :: "zb_run \<Rightarrow> zb_run option" where
  "rad_announce r = do {
     c \<leftarrow> (if includemode (zst r) then Some False else mseq (zmsg r) 8 [0x42]);
     (if \<not> c then Some r else do {
        a \<leftarrow> mrdn (zmsg r) (2 + 15) 8;
        n \<leftarrow> mrdn (zmsg r) (2 + 23) 2;
        t \<leftarrow> vps_add_nwk (vpst (zst r)) (vps_atov (vpst (zst r)) a) n;
        Some (r\<lparr>serial := False, upper := False, zst := (zst r)\<lparr>vpst := t\<rparr>\<rparr>)
      })
   }"

definition rad_include_announce :: "zb_run \<Rightarrow> zb_run option" where
  "rad_include_announce r = do {
     c \<leftarrow> (if includemode (zst r) then mseq (zmsg r) 8 [0x42] else Some False);
     (if c then newdevice_frame (2 + 15) r else Some r)
   }"

definition rad_exclude :: "zb_run \<Rightarrow> zb_run option" where
  "rad_exclude r = do {
     c \<leftarrow> (if excludemode (zst r) then mseq (zmsg r) (2 + 6) [0x40, 0x02, 0x00] else Some False);
     (if \<not> c then Some r else do {
        a \<leftarrow> mrdn (zmsg r) (12 + 2) 8;
        m \<leftarrow> exclude_frame (vpst (zst r)) (vps_atov (vpst (zst r)) a) (zmsg r);
        Some (r\<lparr>zmsg := m, serial := True, upper := False, zst := (zst r)\<lparr>excludemode := False\<rparr>\<rparr>)
      })
   }"

text \<open>
  The five entries of a network list: an entry that does not start with \<open>0xFF\<close> is a device, and its
  text is appended to \<open>buffer\<close>.
\<close>

fun netlist_entries ::
  "msg \<Rightarrow> (nat \<times> string) list \<Rightarrow> vps_table \<Rightarrow> byte list \<Rightarrow> (vps_table \<times> byte list) option" where
  "netlist_entries m [] t buffer = Some (t, buffer)"
| "netlist_entries m ((off, label) # es) t buffer = do {
     b \<leftarrow> mrd m (2 + off);
     (if b = 0xFF then netlist_entries m es t buffer
      else do {
        a \<leftarrow> mrdn m (2 + off) 8;
        (v, t1) \<leftarrow> vps_add t a;
        n \<leftarrow> mrdn m (2 + off + 8) 2;
        t2 \<leftarrow> vps_add_nwk t1 v n;
        s \<leftarrow> cstr buffer 0;
        buffer1 \<leftarrow> wrn buffer (length s) (bytes label @ [0]);
        netlist_entries m es t2 buffer1
      })
   }"

definition netlist_table :: "(nat \<times> string) list" where
  "netlist_table = [(12, '' 10001 ''), (22, '' 10002 ''), (32, '' 10003 ''), (42, '' 10004 ''),
     (52, '' 10005 '')]"

definition rad_netlist :: "zb_run \<Rightarrow> zb_run option" where
  "rad_netlist r = do {
     c \<leftarrow> (if netupdatemode (zst r) then mseq (zmsg r) 8 [0x83] else Some False);
     (if \<not> c then Some r else do {
        (t, buffer) \<leftarrow> netlist_entries (zmsg r) netlist_table (clearvpstable (vpst (zst r)))
          (replicate 200 0);
        m1 \<leftarrow> mwrn (zmsg r) 2 (bytes ''netlist_done: '');
        s \<leftarrow> cstr (mdata m1) 2;
        ports \<leftarrow> cstr buffer 0;
        m2 \<leftarrow> mwrn m1 (2 + length s) (ports @ [0]);
        m3 \<leftarrow> mwr m2 0 0;
        s' \<leftarrow> cstr (mdata m3) 2;
        m4 \<leftarrow> mwr m3 1 (of_nat (length s'));
        Some (r\<lparr>zmsg := m4, serial := False, upper := True,
                zst := (zst r)\<lparr>vpst := t, netupdatemode := False\<rparr>\<rparr>)
      })
   }"

definition rad_failed :: "zb_run \<Rightarrow> zb_run option" where
  "rad_failed r = do {
     b \<leftarrow> mrd (zmsg r) 8;
     d \<leftarrow> (if b = 0x80 then mrd (zmsg r) 20 else Some 0);
     (if b = 0x80 \<and> d \<noteq> 0 then do {
        a \<leftarrow> mrdn (zmsg r) 10 8;
        m1 \<leftarrow> mwr (zmsg r) 0 (vps_atov (vpst (zst r)) a);
        m2 \<leftarrow> mwr m1 1 11;
        m3 \<leftarrow> mwrn m2 2 (bytes ''DATA_FAILED'' @ [0]);
        Some (r\<lparr>zmsg := m3\<rparr>)
      } else Some r)
   }"

text \<open>
  The lookup for a positive confirmation changes nothing. Data from a device, and a descriptor
  response, are passed on by moving the pointer over the header of the radio frame.
\<close>

definition rad_data :: "zb_run \<Rightarrow> zb_run option" where
  "rad_data r = do {
     b \<leftarrow> mrd (zmsg r) 8;
     (if b = 0x40 \<and> \<not> getdescmode (zst r) then do {
        a \<leftarrow> mrdn (zmsg r) 14 8;
        n \<leftarrow> mrd (zmsg r) 1;
        m1 \<leftarrow> mwr (madv (zmsg r) (6 + 6 + 8)) 0 (vps_atov (vpst (zst r)) a);
        m2 \<leftarrow> mwr m1 1 (n - 6 - 6 - 8);
        Some (r\<lparr>zmsg := m2\<rparr>)
      } else Some r)
   }"

definition rad_descriptor :: "zb_run \<Rightarrow> zb_run option" where
  "rad_descriptor r = do {
     b \<leftarrow> mrd (zmsg r) 8;
     (if b = 0x81 then do {
        a \<leftarrow> mrdn (zmsg r) 11 2;
        n \<leftarrow> mrd (zmsg r) 1;
        m1 \<leftarrow> mwrn (madv (zmsg r) (2 + 13 - 2 - 4)) 2 [0x7a, 0x62];
        m2 \<leftarrow> mwr m1 0 (vps_atov_nwk (vpst (zst r)) a);
        m3 \<leftarrow> mwr m2 1 (n - 11 + 2);
        Some (r\<lparr>zmsg := m3, zst := (zst r)\<lparr>getdescmode := False\<rparr>\<rparr>)
      } else Some r)
   }"

definition zb_radio :: "zb_run \<Rightarrow> zb_run option" where
  "zb_radio r = do {
     m \<leftarrow> mwr (zmsg r) 0 0;
     r1 \<leftarrow> rad_include_report (r\<lparr>zmsg := m, upper := True\<rparr>);
     r2 \<leftarrow> rad_gateway r1;
     r3 \<leftarrow> rad_announce r2;
     r4 \<leftarrow> rad_include_announce r3;
     r5 \<leftarrow> rad_exclude r4;
     r6 \<leftarrow> rad_netlist r5;
     r7 \<leftarrow> rad_failed r6;
     r8 \<leftarrow> rad_data r7;
     rad_descriptor r8
   }"

section \<open>A wake-up of the task\<close>

text \<open>What the task broadcasts, in order: the output and the message.\<close>

definition zb_outputs :: "zb_run \<Rightarrow> (byte \<times> msg) list option" where
  "zb_outputs r = do {
     m \<leftarrow> (if serial r then mwr (zmsg r) 0 0xff else Some (zmsg r));
     Some ((if serial r then [(Out2, m)] else []) @ (if upper r then [(Out1, m)] else []))
   }"

definition ZigBeeTask ::
  "task_context \<Rightarrow> zb_state \<Rightarrow> ((byte \<times> msg) list \<times> zb_state) option" where
  "ZigBeeTask ctx st = do {
     m \<leftarrow> holder ctx;
     _ \<leftarrow> print_msg m;
     let r = \<lparr>zst = st, zmsg = m, serial = False, upper = False\<rparr>;
     r' \<leftarrow> (if sender_input ctx = In1 then do {
              m' \<leftarrow> mwr m 0 0;
              zb_radio (r\<lparr>zmsg := m'\<rparr>)
            } else if sender_input ctx = In2 then zb_upper r else Some r);
     out \<leftarrow> zb_outputs r';
     Some (out, zst r')
   }"

section \<open>What every step keeps\<close>

definition zb_wf :: "zb_state \<Rightarrow> bool" where
  "zb_wf st \<longleftrightarrow> vps_wf (vpst st) \<and> length (gwieeeaddr st) = 8 \<and> \<not> (includemode st \<and> excludemode st)"

definition zb_ok :: "zb_run \<Rightarrow> bool" where
  "zb_ok r \<longleftrightarrow> zb_wf (zst r) \<and> \<not> (serial r \<and> upper r)"

text \<open>
  The contract of a step: it keeps an invariant \<open>ok\<close> of the run. Steps that keep it can be composed.
\<close>

locale zb_step =
  fixes ok :: "zb_run \<Rightarrow> bool"
    and step :: "zb_run \<Rightarrow> zb_run option"
  assumes keeps: "step r = Some r' \<Longrightarrow> ok r \<Longrightarrow> ok r'"
begin

lemma keeps_bind:
  assumes "do { r1 \<leftarrow> step r; rest r1 } = Some r'" and "ok r"
    and "\<And>r1. ok r1 \<Longrightarrow> rest r1 = Some r' \<Longrightarrow> ok r'"
  shows "ok r'"
  using assms keeps by (auto split: bind_splits)

end

lemma mrdn_length: "mrdn m i n = Some a \<Longrightarrow> length a = n"
  by (auto simp: mrdn_def rdn_def split: if_splits)

lemma newdevice_keeps: "newdevice_frame i r = Some r' \<Longrightarrow> zb_ok r \<Longrightarrow> zb_ok r'"
  by (auto simp: newdevice_frame_def zb_ok_def zb_wf_def ADDRLEN_def
      dest!: mrdn_length vps_add_wf split: bind_splits prod.splits)

interpretation include_report: zb_step zb_ok rad_include_report
  by unfold_locales (auto simp: rad_include_report_def dest: newdevice_keeps split: bind_splits if_splits)

interpretation include_announce: zb_step zb_ok rad_include_announce
  by unfold_locales (auto simp: rad_include_announce_def dest: newdevice_keeps split: bind_splits if_splits)

interpretation gateway: zb_step zb_ok rad_gateway
  by unfold_locales (auto simp: rad_gateway_def zb_ok_def zb_wf_def dest: mrdn_length split: bind_splits if_splits)

interpretation announce: zb_step zb_ok rad_announce
  by unfold_locales (auto simp: rad_announce_def zb_ok_def zb_wf_def ADDRLEN2_def
      dest!: mrdn_length vps_add_nwk_wf split: bind_splits if_splits)

interpretation exclude: zb_step zb_ok rad_exclude
  by unfold_locales (auto simp: rad_exclude_def zb_ok_def zb_wf_def split: bind_splits if_splits)

lemma netlist_entries_wf:
  "netlist_entries m es t b = Some (t', b') \<Longrightarrow> vps_wf t \<Longrightarrow> vps_wf t'"
proof (induction es arbitrary: t b)
  case (Cons e es)
  obtain off label where e: "e = (off, label)" by (cases e)
  show ?case
  proof (cases "mrd m (2 + off) = Some 0xFF")
    case False
    then obtain a v t1 n t2 b1 where "mrdn m (2 + off) 8 = Some a" "vps_add t a = Some (v, t1)"
      "mrdn m (2 + off + 8) 2 = Some n" "vps_add_nwk t1 v n = Some t2"
      and rest: "netlist_entries m es t2 b1 = Some (t', b')"
      using Cons.prems(1) by (auto simp: e split: bind_splits prod.splits if_splits)
    then have "vps_wf t2"
      using Cons.prems(2) mrdn_length vps_add_wf vps_add_nwk_wf by (metis ADDRLEN2_def ADDRLEN_def)
    then show ?thesis by (rule Cons.IH [OF rest])
  next
    case True
    then show ?thesis using Cons by (simp add: e)
  qed
qed simp

interpretation netlist: zb_step zb_ok rad_netlist
  by unfold_locales (auto simp: rad_netlist_def zb_ok_def zb_wf_def
      dest!: netlist_entries_wf intro: vps_wf_clear split: bind_splits if_splits)

interpretation failed: zb_step zb_ok rad_failed
  by unfold_locales (auto simp: rad_failed_def zb_ok_def split: bind_splits if_splits)

interpretation data: zb_step zb_ok rad_data
  by unfold_locales (auto simp: rad_data_def zb_ok_def split: bind_splits if_splits)

interpretation descriptor: zb_step zb_ok rad_descriptor
  by unfold_locales (auto simp: rad_descriptor_def zb_ok_def zb_wf_def split: bind_splits if_splits)

lemma zb_radio_keeps:
  assumes "zb_radio r = Some r'" and "zb_wf (zst r)" and "\<not> serial r"
  shows "zb_ok r'"
proof -
  obtain m where m: "mwr (zmsg r) 0 0 = Some m" using assms(1) by (auto simp: zb_radio_def split: bind_splits)
  have "zb_ok (r\<lparr>zmsg := m, upper := True\<rparr>)" using assms(2,3) by (simp add: zb_ok_def)
  moreover have "do {
     r1 \<leftarrow> rad_include_report (r\<lparr>zmsg := m, upper := True\<rparr>);
     r2 \<leftarrow> rad_gateway r1; r3 \<leftarrow> rad_announce r2; r4 \<leftarrow> rad_include_announce r3;
     r5 \<leftarrow> rad_exclude r4; r6 \<leftarrow> rad_netlist r5; r7 \<leftarrow> rad_failed r6; r8 \<leftarrow> rad_data r7;
     rad_descriptor r8 } = Some r'"
    using assms(1) by (simp add: zb_radio_def m)
  ultimately show ?thesis
    by (elim include_report.keeps_bind gateway.keeps_bind announce.keeps_bind include_announce.keeps_bind
        exclude.keeps_bind netlist.keeps_bind failed.keeps_bind data.keeps_bind)
       (assumption | erule descriptor.keeps)+
qed

text \<open>The commands of the upper side never touch the table.\<close>

definition up_ok :: "vps_table \<Rightarrow> zb_run \<Rightarrow> bool" where
  "up_ok t r \<longleftrightarrow> zb_wf (zst r) \<and> \<not> upper r \<and> vpst (zst r) = t"

interpretation netlist_req: zb_step "up_ok t" up_netlist for t
  by unfold_locales (auto simp: up_netlist_def up_ok_def zb_wf_def Let_def split: bind_splits if_splits)

interpretation include_req: zb_step "up_ok t" up_include for t
  by unfold_locales (auto simp: up_include_def up_ok_def zb_wf_def split: bind_splits if_splits)

interpretation addstop_req: zb_step "up_ok t" up_addstop for t
  by unfold_locales (auto simp: up_addstop_def up_ok_def zb_wf_def split: bind_splits if_splits)

interpretation getdesc_req: zb_step "up_ok t" up_getdesc0 for t
  by unfold_locales (auto simp: up_getdesc0_def up_ok_def zb_wf_def split: bind_splits if_splits)

interpretation xclude_req: zb_step "up_ok t" up_xclude0 for t
  by unfold_locales (auto simp: up_xclude0_def up_ok_def zb_wf_def split: bind_splits if_splits)

lemma up_management_keeps:
  assumes "up_management r = Some r'" and "up_ok t r"
  shows "up_ok t r'"
proof -
  have "up_ok t (r\<lparr>serial := True\<rparr>)" using assms(2) by (simp add: up_ok_def)
  with assms(1) show ?thesis
    unfolding up_management_def
    by (elim netlist_req.keeps_bind include_req.keeps_bind addstop_req.keeps_bind getdesc_req.keeps_bind)
       (assumption | erule xclude_req.keeps)+
qed

text \<open>A command on the port of a device either goes to the radio or is answered at once.\<close>

lemma up_command_outputs:
  "up_xclude v r = Some r' \<Longrightarrow> zb_wf (zst r) \<Longrightarrow> \<not> upper r \<Longrightarrow> up_ok (vpst (zst r)) r'"
  "up_getdesc v r = Some r' \<Longrightarrow> zb_wf (zst r) \<Longrightarrow> \<not> upper r \<Longrightarrow> up_ok (vpst (zst r)) r'"
  "up_xonfig v r = Some r' \<Longrightarrow> zb_wf (zst r) \<Longrightarrow> \<not> upper r \<Longrightarrow> up_ok (vpst (zst r)) r'"
  "up_forward r = Some r' \<Longrightarrow> zb_wf (zst r) \<Longrightarrow> \<not> upper r \<Longrightarrow> up_ok (vpst (zst r)) r'"
  "up_getuid v r = Some r' \<Longrightarrow> \<not> serial r' \<and> zst r' = zst r"
  by (auto simp: up_xclude_def up_getdesc_def up_getuid_def up_xonfig_def up_forward_def up_ok_def
      zb_wf_def Let_def split: bind_splits)

lemma up_device_cases:
  "up_device v r = Some r' \<Longrightarrow> up_xclude v r = Some r' \<or> up_getdesc v r = Some r' \<or>
     up_getuid v r = Some r' \<or> up_xonfig v r = Some r' \<or> up_forward r = Some r'"
  by (auto simp: up_device_def split: bind_splits if_splits)

lemma up_device_keeps:
  assumes "up_device v r = Some r'" and "zb_wf (zst r)" and "\<not> upper r"
  shows "zb_ok r' \<and> vpst (zst r') = vpst (zst r)"
  using up_device_cases [OF assms(1)]
proof (elim disjE)
  assume "up_getuid v r = Some r'"
  then show ?thesis using up_command_outputs(5) assms(2) by (simp add: zb_ok_def)
qed (use assms(2,3) in \<open>auto simp: zb_ok_def up_ok_def dest!: up_command_outputs(1-4)\<close>)

lemma zb_upper_keeps:
  assumes "zb_upper r = Some r'" and "zb_wf (zst r)" and "\<not> serial r" and "\<not> upper r"
  shows "zb_ok r' \<and> vpst (zst r') = vpst (zst r)"
proof -
  obtain v where v: "mrd (zmsg r) 0 = Some v" using assms(1) by (auto simp: zb_upper_def split: bind_splits)
  have "up_management r = Some r' \<or> up_device v r = Some r' \<or> up_invalid v r = Some r' \<or> r' = r"
    using assms(1) v by (cases "check_valid_vps (vpst (zst r)) v") (simp_all add: zb_upper_def split: if_splits)
  then consider "up_management r = Some r'" | "up_device v r = Some r'" | "up_invalid v r = Some r'" | "r' = r"
    by blast
  then show ?thesis
  proof cases
    case 1
    have "up_ok (vpst (zst r)) r" using assms by (simp add: up_ok_def)
    then show ?thesis using up_management_keeps [OF 1] by (auto simp: up_ok_def zb_ok_def)
  next
    case 2
    then show ?thesis using up_device_keeps assms by blast
  next
    case 3
    then show ?thesis using assms by (auto simp: up_invalid_def zb_ok_def split: bind_splits)
  qed (use assms in \<open>simp add: zb_ok_def\<close>)
qed

lemma zb_outputs_one: "zb_ok r \<Longrightarrow> zb_outputs r = Some out \<Longrightarrow> length out \<le> 1"
  by (auto simp: zb_outputs_def zb_ok_def split: bind_splits if_splits)

section \<open>Frames\<close>

definition frame_ok :: "byte list \<Rightarrow> bool" where
  "frame_ok f \<longleftrightarrow> 6 \<le> length f \<and> take 4 f = [0x00, 0x03, 0x00, 0xC0] \<and> f ! 5 = CHECKSUM f \<and>
     unat (f ! 4) + 6 = length f"

lemma wrn_append: "length p = i \<Longrightarrow> wrn (p @ q) i xs =
    (if length xs \<le> length q then Some (p @ xs @ drop (length xs) q) else None)"
  by (auto simp: wrn_def)

lemma mpayload_mwr_0: "mwr m 0 x = Some m' \<Longrightarrow> mpayload m' = mpayload m \<and> mvps m' = Some x"
  by (auto simp: mwr_def mpayload_def mrd_def mrdn_def mvps_def wr_def rd_def rdn_def split: if_splits)

lemma set_payload_read:
  assumes "set_payload m f = Some m'" and "length f < 256"
  shows "mpayload m' = Some f"
proof -
  let ?b = "take (moff m + 2) (mbuf m) @ f @ drop (moff m + 2 + length f) (mbuf m)"
  have fit: "moff m + 2 + length f \<le> length (mbuf m)"
    and m': "m' = m\<lparr>mbuf := ?b[moff m + 1 := of_nat (length f)]\<rparr>"
    using assms(1) by (auto simp: set_payload_def mwrn_def mwr_def wrn_def wr_def split: bind_splits if_splits)
  have "?b[moff m + 1 := of_nat (length f)] =
      (take (moff m + 2) (mbuf m))[moff m + 1 := of_nat (length f)] @ f @ drop (moff m + 2 + length f) (mbuf m)"
    using fit by (simp add: list_update_append)
  then show ?thesis
    using fit assms(2)
    by (simp add: m' mpayload_def mrd_def mrdn_def rd_def rdn_def nth_append) arith
qed

lemma frame_head_ok:
  assumes "unat n = length xs"
  shows "frame_ok (frame_head n @ xs)"
  using assms by (simp add: frame_ok_def frame_head_def CHECKSUM_def)

lemma vps_vtoa_wf: "vps_vtoa t v = Some a \<Longrightarrow> vps_wf t \<Longrightarrow> length a = 8"
  "vps_vtoa_nwk t v = Some a \<Longrightarrow> vps_wf t \<Longrightarrow> length a = 2"
  using vps_wf_nth [of t "unat v"]
  by (auto simp: vps_vtoa_def vps_vtoa_nwk_def rd_def vps_wf_def ADDRLEN_def ADDRLEN2_def split: if_splits)

lemma forward_frame_eq:
  assumes "length a = 8" and "unat n = length d" and "length d \<le> 184"
  shows "forward_frame a d n = Some (frame_head (n + 10) @ [0x00, 0x03] @ a @ d)"
proof -
  define h where "h = frame_head (n + 10) @ [0x00, 0x03]"
  have h: "length h = 8" by (simp add: h_def frame_head_def)
  have "wrn (replicate 200 0) 0 h = Some (h @ replicate 192 0)"
    using wrn_append [of "[]" 0 "replicate 200 0" h] h by simp
  moreover have "wrn (h @ replicate 192 0) 8 a = Some (h @ a @ replicate 184 0)"
    using wrn_append [OF h, of "replicate 192 0" a] assms(1) by simp
  moreover have "wrn (h @ a @ replicate 184 0) 16 d = Some (h @ a @ d @ replicate (184 - length d) 0)"
    using wrn_append [of "h @ a" 16 "replicate 184 0" d] h assms by simp
  moreover have "rdn (h @ a @ d @ replicate (184 - length d) 0) 0 (length d + 16) = Some (h @ a @ d)"
    using h assms by (simp add: rdn_def)
  ultimately show ?thesis by (simp add: forward_frame_def assms(2) flip: h_def append_assoc)
qed

lemma getdesc_frame_eq:
  assumes "length a = 2"
  shows "getdesc_frame a e = Some (frame_head 0x07 @ [0x01, 0x04] @ a @ a @ [e])"
proof -
  define h where "h = frame_head 0x07 @ [0x01, 0x04]"
  have h: "length h = 8" by (simp add: h_def frame_head_def)
  have "wrn (replicate 200 0) 0 h = Some (h @ replicate 192 0)"
    using wrn_append [of "[]" 0 "replicate 200 0" h] h by simp
  moreover have "wrn (h @ replicate 192 0) 8 a = Some (h @ a @ replicate 190 0)"
    using wrn_append [OF h, of "replicate 192 0" a] assms by simp
  moreover have "wrn (h @ a @ replicate 190 0) 10 a = Some (h @ a @ a @ replicate 188 0)"
    using wrn_append [of "h @ a" 10 "replicate 190 0" a] h assms by simp
  moreover have "wr (h @ a @ a @ replicate 188 0) 12 e = Some (h @ a @ a @ [e] @ replicate 187 0)"
    using wrn_append [of "h @ a @ a" 12 "replicate 188 0" "[e]"] h assms by (simp add: wrn_single)
  moreover have "rdn (h @ a @ a @ [e] @ replicate 187 0) 0 13 = Some (h @ a @ a @ [e])"
    using h assms by (simp add: rdn_def)
  ultimately show ?thesis by (simp add: getdesc_frame_def flip: h_def)
qed

lemma config_half_bounds: "-5 \<le> config_half n \<and> config_half n \<le> 122"
proof -
  define k where "k = int (unat n)"
  have "0 \<le> k" "k < 256" using unat_byte_less [of n] unfolding k_def by linarith+
  moreover have "config_half n = (if k - 10 < 0 then - (- (k - 10) div 2) else (k - 10) div 2)"
    by (simp only: config_half_def Let_def k_def)
  ultimately show ?thesis by (simp split: if_splits; arith)
qed

lemma take_mono: "take k xs = take k ys \<Longrightarrow> j \<le> k \<Longrightarrow> take j xs = take j ys"
  by (metis min.absorb1 take_take)

lemma wrn_keeps_before: "wrn b i xs = Some b' \<Longrightarrow> length b' = length b \<and> take i b' = take i b"
  by (auto simp: wrn_def split: if_splits)

lemma xonfig_frame_head:
  assumes "xonfig_frame a gw data n = Some f" and "length gw = 8"
  shows "length f = nat (42 + config_half n) \<and> take 6 f = frame_head 0x28"
proof -
  let ?len = "nat (33 + config_half n)"
  obtain l1 b1 b2 l3 b3 b4 l5 b5 b6 b7 where
    b1: "hexbinary_to_binary (Some CONFIGHEADER) (replicate 200 0) 0 0 = Some (l1, b1)" and
    b2: "wrn b1 8 a = Some b2" and
    b3: "hexbinary_to_binary (Some CONFIGCSTRING) b2 0 16 = Some (l3, b3)" and
    b4: "wrn b3 25 a = Some b4" and
    b5: "hexbinary_to_binary (Some data) b4 (2 + 10) 33 = Some (l5, b5)" and
    b6: "wrn b5 ?len gw = Some b6" and b7: "wr b6 (?len + 8) 0xc0 = Some b7" and
    f: "rdn b7 0 (?len + 9) = Some f"
    using assms(1) unfolding xonfig_frame_def Let_def by (auto split: bind_splits prod.splits)
  have len: "28 \<le> ?len" "?len + 9 = nat (42 + config_half n)" using config_half_bounds [of n] by auto
  have "take 6 b2 = take 6 b1" using wrn_keeps_before [OF b2] take_mono by force
  moreover have "take 6 b3 = take 6 b2" using hexbinary_keeps_before [OF b3] take_mono by force
  moreover have "take 6 b4 = take 6 b3" using wrn_keeps_before [OF b4] take_mono by force
  moreover have "take 6 b5 = take 6 b4" using hexbinary_keeps_before [OF b5] take_mono by force
  moreover have "take 6 b6 = take 6 b5" using wrn_keeps_before [OF b6] take_mono [of ?len] len(1) by force
  moreover have "take 6 b7 = take 6 b6" using b7 len(1) by (auto simp: wr_def split: if_splits)
  moreover have "length f = ?len + 9" and "take 6 f = take 6 b7"
    using f len(1) by (auto simp: rdn_def min_def split: if_splits)
  moreover have "take 6 b1 = frame_head 0x28"
  proof -
    let ?s = "bytes ''000300C028EB0003''"
    have "0 \<notin> set ?s" by (simp add: bytes_def)
    then have "cstr CONFIGHEADER 0 = Some ?s" using cstr_append [of ?s "[]" "[]"] by (simp add: CONFIGHEADER_def)
    moreover have "unhex ?s = frame_head 0x28 @ [0x00, 0x03]"
      by (simp add: bytes_def frame_head_def CHECKSUM_def hex_acc_def)
    ultimately have "b1 = frame_head 0x28 @ [0x00, 0x03] @ [0] @ replicate 191 0"
      using b1 wrn_append [of "[]" 0 "replicate 200 0" "frame_head 0x28 @ [0x00, 0x03] @ [0]"]
      by (auto simp: hexbinary_separate Let_def frame_head_def)
    then show ?thesis by (simp add: frame_head_def)
  qed
  ultimately show ?thesis using len(2) by simp
qed

text \<open>A payload in its block, cut out between what is before and behind it.\<close>

lemma mpayload_split:
  assumes "mbuf m = P @ f @ R" and "length P = moff m + 2" and "P ! (moff m + 1) = of_nat (length f)"
    and "length f < 256"
  shows "mpayload m = Some f"
  using assms by (simp add: mpayload_def mrd_def mrdn_def rd_def rdn_def nth_append)

lemma unhex_EXCLUDEIEEE:
  "\<exists>s. cstr EXCLUDEIEEE 0 = Some s \<and> length s = 38 \<and>
     unhex s = (frame_head 0x0D @ [0x02, 0xFC, 0xFF, 0x00]) @
       [0x95, 0x02, 0x00, 0x0D, 0x00, 0xBC, 0x15, 0x00] @ [0]"
proof -
  let ?s = "bytes ''000300C00DCE02FCFF009502000D00BC150000''"
  have "0 \<notin> set ?s" by (simp add: bytes_def)
  then have "cstr EXCLUDEIEEE 0 = Some ?s" using cstr_append [of ?s "[]" "[]"] by (simp add: EXCLUDEIEEE_def)
  moreover have "unhex ?s = (frame_head 0x0D @ [0x02, 0xFC, 0xFF, 0x00]) @
      [0x95, 0x02, 0x00, 0x0D, 0x00, 0xBC, 0x15, 0x00] @ [0]"
    by (simp add: bytes_def frame_head_def CHECKSUM_def hex_acc_def)
  ultimately show ?thesis by (intro exI [of _ ?s]) simp
qed

lemma exclude_frame_eq:
  assumes "vps_wf t" and "exclude_frame t v m = Some m'"
  shows "\<exists>a. mpayload m' = Some (frame_head 0x0D @ [0x02, 0xFC, 0xFF, 0x00] @ a @ [0]) \<and>
    vps_vtoa t v = Some a \<and> length a = 8"
proof -
  define h where "h = frame_head 0x0D @ [0x02, 0xFC, 0xFF, 0x00]"
  define c where "c = ([0x95, 0x02, 0x00, 0x0D, 0x00, 0xBC, 0x15, 0x00] :: byte list)"
  have h: "length h = 10" "length c = 8" by (simp_all add: h_def c_def frame_head_def)
  obtain s where s: "cstr EXCLUDEIEEE 0 = Some s" "length s = 38" "unhex s = h @ c @ [0]"
    using unhex_EXCLUDEIEEE unfolding h_def c_def by blast
  have "hexbinary_to_binary (Some EXCLUDEIEEE) (mbuf m) 0 (moff m + 2) =
      map_option (\<lambda>b. (19, b)) (wrn (mbuf m) (moff m + 2) (unhex s @ [0]))"
    using hexbinary_separate [OF s(1)] s(2) length_unhex [of s] by (simp add: Let_def)
  then obtain b a m1 m2 where b: "wrn (mbuf m) (moff m + 2) (unhex s @ [0]) = Some b"
    and a: "vps_vtoa t v = Some a" and m1: "mwrn (m\<lparr>mbuf := b\<rparr>) 12 a = Some m1"
    and m2: "mwr m1 20 0 = Some m2" and m': "mwr m2 1 19 = Some m'"
    using assms(2) by (auto simp: exclude_frame_def split: bind_splits prod.splits)
  have la: "length a = 8" using vps_vtoa_wf(1) a assms(1) by blast
  define P where "P = take (moff m + 2) (mbuf m)"
  define R where "R = drop (moff m + 22) (mbuf m)"
  have P: "length P = moff m + 2" and b': "b = P @ h @ c @ [0, 0] @ R"
    using b s(3) h by (auto simp: wrn_def P_def R_def add.commute split: if_splits)
  have "m1 = m\<lparr>mbuf := P @ h @ a @ [0, 0] @ R\<rparr>"
    using m1 wrn_append [of "P @ h" "moff m + 12" "c @ [0, 0] @ R" a] P h la by (simp add: b' mwrn_def)
  then have "m2 = m\<lparr>mbuf := P @ h @ a @ [0, 0] @ R\<rparr>"
    using m2 wrn_append [of "P @ h @ a" "moff m + 20" "[0, 0] @ R" "[0]"] P h la
    by (simp add: mwr_def wrn_single)
  then have "m' = m\<lparr>mbuf := (P[moff m + 1 := 19]) @ (h @ a @ [0]) @ 0 # R\<rparr>"
    using m' P by (simp add: mwr_def wr_def list_update_append)
  then have "mpayload m' = Some (h @ a @ [0])"
    using P h la by (intro mpayload_split [of m' "P[moff m + 1 := 19]" _ "0 # R"]) simp_all
  then show ?thesis using a la by (auto simp: h_def)
qed


lemma set_payload_short:
  assumes "set_payload m f = Some m'" and "f = frame_head k @ xs" and "unat k = length xs" and "length xs < 200"
  shows "mpayload m' = Some f \<and> frame_ok f"
  using set_payload_read [OF assms(1)] frame_head_ok [of k xs] assms(2-4) by (simp add: frame_head_def)

text \<open>The state and the runs of the witnesses: one device, on port 1.\<close>

definition example_zb :: zb_state where
  "example_zb = (zb_init (replicate 8 0))\<lparr>vpst :=
     genvpstable[1 := \<lparr>used = 1, addr = [1, 2, 3, 4, 5, 6, 7, 8], nwkaddr = [9, 10]\<rparr>]\<rparr>"

definition example_run :: "byte list \<Rightarrow> zb_run" where
  "example_run d = \<lparr>zst = example_zb, zmsg = \<lparr>mbuf = 1 # of_nat (length d) # d @ replicate 50 0, moff = 0\<rparr>,
     serial = False, upper = False\<rparr>"

lemma example_zb_wf: "zb_wf example_zb"
  by (simp add: zb_wf_def example_zb_def zb_init_def)
     (rule vps_wf_update; simp add: vps_wf_gen ADDRLEN_def ADDRLEN2_def)

lemma example_runs:
  "up_device 1 (example_run [0x55, 0x56]) \<noteq> None"
  "serial (the (up_device 1 (example_run [0x55, 0x56])))"
  "mmatch (zmsg (example_run [0x55, 0x56])) 2 (bytes ''XONFIG_REQ'') = Some False"
  "up_xonfig 1 (example_run (bytes ''XONFIG_REQ11223344'')) \<noteq> None"
  by code_simp+

section \<open>Properties\<close>

text \<open>
  C8. Invariant of the radio task, for every message from either side: the address table stays
  well-formed, the gateway address keeps its eight bytes, an inclusion and an exclusion are never
  pending at once, and the message is passed on at most once, so that two tasks never share it.
\<close>

theorem ZigBeeTask_invariant:
  assumes "ZigBeeTask ctx st = Some (out, st')" and "zb_wf st"
  shows "zb_wf st' \<and> length out \<le> 1"
proof -
  obtain m where m: "holder ctx = Some m" using assms(1) by (auto simp: ZigBeeTask_def split: bind_splits)
  let ?r = "\<lparr>zst = st, zmsg = m, serial = False, upper = False\<rparr>"
  obtain r r' where r: "zst r = st" "\<not> serial r" "\<not> upper r"
    and r': "zb_radio r = Some r' \<or> zb_upper r = Some r' \<or> r' = r"
    and out: "zb_outputs r' = Some out" and st': "zst r' = st'"
  proof (cases "sender_input ctx = In1")
    case True
    then obtain m' r' where "zb_radio (?r\<lparr>zmsg := m'\<rparr>) = Some r'" "zb_outputs r' = Some out" "zst r' = st'"
      using assms(1) m by (auto simp: ZigBeeTask_def Let_def split: bind_splits)
    then show ?thesis by (intro that [of "?r\<lparr>zmsg := m'\<rparr>" r']) auto
  next
    case False
    then obtain r' where "zb_upper ?r = Some r' \<or> r' = ?r" "zb_outputs r' = Some out" "zst r' = st'"
      using assms(1) m by (auto simp: ZigBeeTask_def Let_def split: bind_splits if_splits)
    then show ?thesis by (intro that [of ?r r']) auto
  qed
  then have "zb_ok r'"
    using zb_radio_keeps [of r r'] zb_upper_keeps [of r r'] assms(2) by (auto simp: zb_ok_def)
  then show ?thesis using zb_outputs_one [OF _ out] st' by (simp add: zb_ok_def)
qed

theorem ZigBeeTask_invariant_witness:
  "\<exists>out st'. ZigBeeTask \<lparr>holder = Some \<lparr>mbuf = [0, 11] @ bytes ''NETLIST_REQ'', moff = 0\<rparr>,
       sender = [7, 2, 0], occupied = 0\<rparr> (zb_init (replicate 8 0)) = Some (out, st') \<and>
     netupdatemode st' \<and> zb_wf st' \<and> length out \<le> 1"
proof -
  let ?m = "\<lparr>mbuf = [0, 11] @ bytes ''NETLIST_REQ'', moff = 0\<rparr>"
  let ?ctx = "\<lparr>holder = Some ?m, sender = [7, 2, 0], occupied = 0\<rparr>"
  have wf: "zb_wf (zb_init (replicate 8 0))"
    by (simp add: zb_wf_def zb_init_def vps_wf_clear vps_wf_gen)
  have print: "print_msg ?m = Some ()" by (simp add: print_msg_ok mrd_def rd_def)
  have "\<exists>out st'. ZigBeeTask ?ctx (zb_init (replicate 8 0)) = Some (out, st') \<and> netupdatemode st'"
    using print
    by (simp add: ZigBeeTask_def zb_upper_def up_management_def up_netlist_def up_include_def
        up_addstop_def up_getdesc0_def up_xclude0_def mmatch_def set_payload_def zb_outputs_def
        mrd_def mrdn_def mwr_def mwrn_def rd_def rdn_def wr_def wrn_def bytes_def Let_def)
  then obtain out st' where s: "ZigBeeTask ?ctx (zb_init (replicate 8 0)) = Some (out, st')"
    and n: "netupdatemode st'" by blast
  show ?thesis using ZigBeeTask_invariant [OF s wf] s n by blast
qed

text \<open>
  C27. Every command on the port of a device that goes to the radio is a well-formed frame: the
  header \<open>00 03 00 C0\<close>, the number of bytes behind the first six, their checksum; the one exception
  is \<open>XONFIG_REQ\<close>.
\<close>

theorem up_device_frame_ok:
  assumes "up_device v r = Some r'" and "zb_wf (zst r)" and "mrd (zmsg r) 1 = Some n" and "unat n \<le> 82"
    and "serial r'" and "mmatch (zmsg r) 2 (bytes ''XONFIG_REQ'') = Some False"
  shows "\<exists>f. mpayload (zmsg r') = Some f \<and> frame_ok f"
proof -
  have wf: "vps_wf (vpst (zst r))" using assms(2) by (simp add: zb_wf_def)
  have "up_xclude v r = Some r' \<or> up_getdesc v r = Some r' \<or> up_getuid v r = Some r' \<or> up_forward r = Some r'"
    using assms(1,6) by (auto simp: up_device_def split: bind_splits if_splits)
  then show ?thesis
  proof (elim disjE)
    assume "up_xclude v r = Some r'"
    then have "exclude_frame (vpst (zst r)) v (zmsg r) = Some (zmsg r')"
      by (auto simp: up_xclude_def split: bind_splits)
    from exclude_frame_eq [OF wf this] obtain a where
      "mpayload (zmsg r') = Some (frame_head 0x0D @ [0x02, 0xFC, 0xFF, 0x00] @ a @ [0])" "length a = 8"
      by blast
    then show ?thesis
      using frame_head_ok [of "0x0D" "[0x02, 0xFC, 0xFF, 0x00] @ a @ [0]"] by auto
  next
    assume "up_getdesc v r = Some r'"
    then obtain v0 a e f where a: "vps_vtoa_nwk (vpst (zst r)) v0 = Some a" "getdesc_frame a e = Some f"
      "set_payload (zmsg r) f = Some (zmsg r')"
      by (auto simp: up_getdesc_def split: bind_splits)
    have "length a = 2" using vps_vtoa_wf(2) [OF a(1) wf] .
    then have "f = frame_head 0x07 @ [0x01, 0x04] @ a @ a @ [e]" "unat (7 :: byte) = length ([0x01, 0x04] @ a @ a @ [e])"
      using a(2) by (simp_all add: getdesc_frame_eq)
    from set_payload_short [OF a(3) this] \<open>length a = 2\<close> show ?thesis by simp
  next
    assume "up_forward r = Some r'"
    then obtain v0 a d f where a: "vps_vtoa (vpst (zst r)) v0 = Some a" "mrdn (zmsg r) 2 (unat n) = Some d"
      "forward_frame a d n = Some f" "set_payload (zmsg r) f = Some (zmsg r')"
      using assms(3) by (auto simp: up_forward_def split: bind_splits)
    have len: "length a = 8" "length d = unat n" using vps_vtoa_wf(1) [OF a(1) wf] mrdn_length [OF a(2)] by auto
    then have "f = frame_head (n + 10) @ [0x00, 0x03] @ a @ d" using a(3) assms(4) by (simp add: forward_frame_eq)
    moreover have "unat (n + 10) = length ([0x00, 0x03] @ a @ d)"
      using len assms(4) by (simp add: unat_word_ariths)
    ultimately show ?thesis using set_payload_short [OF a(4)] len assms(4) by simp
  next
    assume "up_getuid v r = Some r'"
    then show ?thesis using up_command_outputs(5) assms(5) by blast
  qed
qed

theorem up_device_frame_ok_witness:
  "\<exists>r' f. up_device 1 (example_run [0x55, 0x56]) = Some r' \<and> mpayload (zmsg r') = Some f \<and> frame_ok f"
proof -
  obtain r' where r': "up_device 1 (example_run [0x55, 0x56]) = Some r'" using example_runs(1) by blast
  have "zb_wf (zst (example_run [0x55, 0x56]))" "mrd (zmsg (example_run [0x55, 0x56])) 1 = Some 2"
    by (simp_all add: example_run_def example_zb_wf mrd_def rd_def)
  from up_device_frame_ok [OF r' this _ _ example_runs(3)] r' example_runs(2) show ?thesis by auto
qed

text \<open>
  \<open>XONFIG_REQ\<close>: the frame has \<open>42\<close> bytes and one for each two characters of configuration data,
  but the length byte in its header is fixed: it is well-formed for four bytes of data only.
\<close>

theorem up_xonfig_frame:
  assumes "up_xonfig v r = Some r'" and "zb_wf (zst r)" and "mrd (zmsg r) 1 = Some n"
  shows "\<exists>f. mpayload (zmsg r') = Some f \<and> length f = nat (42 + config_half n) \<and>
    (frame_ok f \<longleftrightarrow> config_half n = 4)"
proof -
  obtain a f where f: "xonfig_frame a (gwieeeaddr (zst r)) (mdata (zmsg r)) n = Some f"
    and m': "set_payload (zmsg r) f = Some (zmsg r')"
    using assms(1,3) by (auto simp: up_xonfig_def split: bind_splits)
  have len: "length f = nat (42 + config_half n)" and head: "take 6 f = frame_head 0x28"
    using xonfig_frame_head [OF f] assms(2) by (simp_all add: zb_wf_def)
  obtain xs where xs: "f = frame_head 0x28 @ xs" using head by (metis append_take_drop_id)
  have "frame_ok f \<longleftrightarrow> length f = 46" by (auto simp: xs frame_ok_def frame_head_def CHECKSUM_def)
  moreover have "length f < 256" using len config_half_bounds [of n] by linarith
  ultimately show ?thesis using set_payload_read [OF m'] len by auto
qed


theorem up_xonfig_frame_witness:
  "\<exists>r' f. up_xonfig 1 (example_run (bytes ''XONFIG_REQ11223344'')) = Some r' \<and>
     mpayload (zmsg r') = Some f \<and> frame_ok f"
proof -
  let ?r = "example_run (bytes ''XONFIG_REQ11223344'')"
  obtain r' where r': "up_xonfig 1 ?r = Some r'" using example_runs(4) by blast
  have "zb_wf (zst ?r)" "mrd (zmsg ?r) 1 = Some 18"
    by (simp_all add: example_run_def example_zb_wf mrd_def rd_def)
  from up_xonfig_frame [OF r' this] r' show ?thesis by (auto simp: config_half_def)
qed

text \<open>
  An ordinary command for a known device: exactly one message goes to the sender of the
  stream, with the frame header, the IEEE address that the table holds for the port, and the
  command; the state does not change.
\<close>

lemma ZigBeeTask_forwards:
  assumes "holder ctx = Some m" and "sender_input ctx = In2" and "zb_wf st"
    and "mvps m = Some v" and "0 < v" and "v < 11" and "check_valid_vps (vpst st) v = Some 1"
    and "vps_vtoa (vpst st) v = Some a" and "mpayload m = Some d" and "length d \<le> 82"
    and "mmatch m 2 (bytes ''XCLUDE_REQ'') = Some False" and "mmatch m 2 (bytes ''GETDESC_REQ'') = Some False"
    and "mmatch m 2 (bytes ''GETUID_REQ'') = Some False" and "mmatch m 2 (bytes ''XONFIG_REQ'') = Some False"
    and "moff m + 18 + length d \<le> length (mbuf m)"
  shows "\<exists>m'. ZigBeeTask ctx st = Some ([(Out2, m')], st) \<and> mvps m' = Some 0xff \<and> moff m' = moff m \<and>
    mpayload m' = Some (frame_head (of_nat (length d + 10)) @ [0x00, 0x03] @ a @ d)"
proof -
  let ?r = "\<lparr>zst = st, zmsg = m, serial = False, upper = False\<rparr>"
  obtain n where n: "mrd m 1 = Some n" "mrdn m 2 (unat n) = Some d" "unat n = length d"
    using assms(9) mrdn_length by (fastforce simp: mpayload_def split: bind_splits)
  let ?f = "frame_head (n + 10) @ [0x00, 0x03] @ a @ d"
  have la: "length a = 8" using vps_vtoa_wf(1) assms(3,8) by (auto simp: zb_wf_def)
  then have ff: "forward_frame a d n = Some ?f" "length ?f = 16 + length d"
    using n(3) assms(10) by (simp_all add: forward_frame_eq frame_head_def)
  obtain m1 where m1: "set_payload m ?f = Some m1" and len1: "moff m1 = moff m" "length (mbuf m1) = length (mbuf m)"
    using assms(15) ff(2) unfolding set_payload_def mwrn_def mwr_def wrn_def wr_def by force
  obtain m2 where m2: "mwr m1 0 0xff = Some m2" using assms(15) len1 by (auto simp: mwr_def wr_def)
  have pay: "mpayload m2 = Some ?f" "mvps m2 = Some 0xff"
    using mpayload_mwr_0 [OF m2] set_payload_read [OF m1] ff(2) assms(10) by auto
  have "up_forward ?r = Some (?r\<lparr>zmsg := m1, serial := True\<rparr>)"
    using assms(4,8) n ff(1) m1 by (simp add: up_forward_def mvps_def)
  then have "zb_upper ?r = Some (?r\<lparr>zmsg := m1, serial := True\<rparr>)"
    using assms(4-7,11-14) by (auto simp: zb_upper_def up_device_def mvps_def)
  moreover have "print_msg m = Some ()"
    using n assms(10,15) by (simp add: print_msg_ok)
  ultimately have "ZigBeeTask ctx st = Some ([(Out2, m2)], st)"
    using assms(1,2) m2 by (simp add: ZigBeeTask_def zb_outputs_def)
  moreover have "n + 10 = of_nat (length d + 10)" by (simp add: n(3) [symmetric])
  ultimately show ?thesis using pay mwr_moff [OF m2] len1 by auto
qed

text \<open>When no mode is pending and the frame is a data report, the first seven steps do nothing.\<close>

lemma mseq_head_differs: "mrd m i = Some b \<Longrightarrow> b \<noteq> k \<Longrightarrow> mseq m i (k # ks) = Some False"
  by (simp add: mseq_def mrd_def)

lemma zb_radio_report:
  assumes "mwr (zmsg r) 0 0 = Some m" and "mrd m 8 = Some 0x40" and "mseq m 3 [0x53, 0xc4, 0xc4, 0x08] = Some False"
    and "\<not> includemode (zst r)" and "\<not> excludemode (zst r)" and "\<not> netupdatemode (zst r)"
  shows "zb_radio r = do { r8 \<leftarrow> rad_data (r\<lparr>zmsg := m, upper := True\<rparr>); rad_descriptor r8 }"
  using assms mseq_head_differs [OF assms(2), of "0x42" "[]"]
  by (simp add: zb_radio_def rad_include_report_def rad_gateway_def rad_announce_def
      rad_include_announce_def rad_exclude_def rad_netlist_def rad_failed_def)

text \<open>
  A data report of a device, when no mode is pending: exactly one message goes to the session
  manager, with the port that the table holds for the IEEE address in the report (0 when it holds
  none) and the bytes behind the header of 18 bytes; it is passed on as a pointer into the block,
  which cannot be freed. The one exception is a report whose sixth data byte is \<open>0x81\<close>: the test for
  a descriptor response is made on the moved pointer, and the report is cut once more.
\<close>

lemma ZigBeeTask_report:
  assumes "holder ctx = Some m" and "moff m = 0" and "sender_input ctx = In1"
    and "mbuf m = [x, of_nat (20 + length d), p0, p1, p2, p3, p4, p5, 0x40, p7, p8, p9, p10, p11] @ a @ d @ rest"
    and "length a = 8" and "length d \<le> 62" and "7 \<le> length (d @ rest)" and "(d @ rest) ! 6 \<noteq> 0x81"
    and "p1 \<noteq> 0x53" and "\<not> includemode st" and "\<not> excludemode st" and "\<not> netupdatemode st"
    and "\<not> getdescmode st"
  shows "\<exists>m'. ZigBeeTask ctx st = Some ([(Out1, m')], st) \<and> mvps m' = Some (vps_atov (vpst st) a) \<and>
    mpayload m' = Some d \<and> mfree m' = None"
proof -
  define n where "n = (of_nat (20 + length d) :: byte)"
  have n: "unat n = 20 + length d" "n - 20 = of_nat (length d)"
    using assms(6) unfolding n_def by (rule_tac unat_of_nat_byte, linarith) simp
  let ?v = "vps_atov (vpst st) a"
  obtain a0 y z where a: "a = a0 @ [y, z]" "length a0 = 6"
    using assms(5) by (intro that [of "take 6 a" "a ! 6" "a ! 7"])
      (simp_all add: list_eq_iff_nth_eq nth_append less_Suc_eq numeral_eq_Suc)
  define H where "H = [0, n, p0, p1, p2, p3, p4, p5, 0x40, p7, p8, p9, p10, p11]"
  have HL: "length H = 14" by (simp add: H_def)
  then have H: "length (H @ a0) = 20" using a(2) by simp
  let ?m1 = "\<lparr>mbuf = H @ a @ d @ rest, moff = 0\<rparr>"
  have m: "m = \<lparr>mbuf = [x, n, p0, p1, p2, p3, p4, p5, 0x40, p7, p8, p9, p10, p11] @ a @ d @ rest, moff = 0\<rparr>"
    using assms(2,4) unfolding n_def by (cases m) simp
  have print: "print_msg m = Some ()" using n(1) assms(5,6) by (simp add: m print_msg_ok mrd_def rd_def)
  have m1: "mwr m 0 0 = Some ?m1" "mwr ?m1 0 0 = Some ?m1" by (simp_all add: m H_def mwr_def wr_def)
  have cells: "mrd ?m1 8 = Some 0x40" "mrd ?m1 1 = Some n" "mseq ?m1 3 [0x53, 0xc4, 0xc4, 0x08] = Some False"
    using assms(9) by (simp_all add: H_def mrd_def mseq_def rd_def)
  have addr: "mrdn ?m1 14 8 = Some a" using assms(5) by (simp add: H_def mrdn_def rdn_def)
  let ?m2 = "\<lparr>mbuf = (H @ a0) @ [?v, of_nat (length d)] @ d @ rest, moff = 20\<rparr>"
  have w: "mwr (madv ?m1 20) 0 ?v = Some \<lparr>mbuf = (H @ a0) @ [?v, z] @ d @ rest, moff = 20\<rparr>"
    "mwr \<lparr>mbuf = (H @ a0) @ [?v, z] @ d @ rest, moff = 20\<rparr> 1 (n - 20) = Some ?m2"
    using HL a n(2) by (simp_all add: madv_def mwr_def wr_def list_update_append)
  let ?r = "\<lparr>zst = st, zmsg = ?m1, serial = False, upper = False\<rparr>"
  have data: "rad_data (?r\<lparr>upper := True\<rparr>) = Some (?r\<lparr>zmsg := ?m2, upper := True\<rparr>)"
    using assms(13) cells(1,2) addr w by (simp add: rad_data_def)
  have "mrd ?m2 8 = Some ((d @ rest) ! 6)"
    using HL a(2) assms(7) by (simp add: mrd_def rd_def nth_append)
  then have "rad_descriptor (?r\<lparr>zmsg := ?m2, upper := True\<rparr>) = Some (?r\<lparr>zmsg := ?m2, upper := True\<rparr>)"
    using assms(8) by (simp add: rad_descriptor_def)
  with data have "zb_radio ?r = Some (?r\<lparr>zmsg := ?m2, upper := True\<rparr>)"
    using zb_radio_report [of ?r ?m1] m1(2) cells(1,3) assms(10-12) by simp
  then have "ZigBeeTask ctx st = Some ([(Out1, ?m2)], st)"
    using assms(1,3) print m1(1) by (simp add: ZigBeeTask_def zb_outputs_def)
  moreover have "mvps ?m2 = Some ?v" "mfree ?m2 = None"
    using HL a(2) by (simp_all add: mvps_def mrd_def rd_def nth_append mfree_def)
  moreover have "mpayload ?m2 = Some d"
    using HL a(2) assms(6) by (intro mpayload_split [of _ "(H @ a0) @ [?v, of_nat (length d)]" _ rest]) (simp_all add: nth_append)
  ultimately show ?thesis by blast
qed


text \<open>Writes and the payload in terms of the cells from the pointer on.\<close>

lemma mdata_mwr: "mwr m i x = Some m' \<Longrightarrow> wr (mdata m) i x = Some (mdata m') \<and> moff m' = moff m"
  by (auto simp: mwr_def mdata_def wr_def drop_update_swap split: if_splits)

lemma mdata_mwrn': "mwrn m i xs = Some m' \<Longrightarrow> moff m \<le> length (mbuf m) \<Longrightarrow>
    wrn (mdata m) i xs = Some (mdata m') \<and> moff m' = moff m \<and> length (mbuf m') = length (mbuf m)"
  using mdata_mwrn [of m i xs] mwrn_moff [of m i xs m'] by simp

lemma mpayload_mdata:
  "mdata m = h # n # f @ R \<Longrightarrow> unat n = length f \<Longrightarrow> mpayload m = Some f"
  by (cases "moff m \<le> length (mbuf m)")
     (auto simp: mpayload_def mrd_mdata mrdn_mdata rd_def rdn_def, simp add: mdata_def)

text \<open>
  The answer to a network list request. The text \<open>netlist_done: \<close> is copied without a NUL, so
  that what follows it is not the list of ports but the radio frame from byte 16 of the message on,
  up to its first NUL; the ports come behind that.
\<close>

theorem rad_netlist_text:
  assumes "rad_netlist r = Some r'" and "netupdatemode (zst r)" and "mrd (zmsg r) 8 = Some 0x83"
    and "cstr (mdata (zmsg r)) 16 = Some stale" and "length (mdata (zmsg r)) \<le> 255"
    and "netlist_entries (zmsg r) netlist_table (clearvpstable (vpst (zst r))) (replicate 200 0) =
      Some (t, buffer)" and "cstr buffer 0 = Some ports"
  shows "mpayload (zmsg r') = Some (bytes ''netlist_done: '' @ stale @ ports) \<and> vpst (zst r') = t \<and>
    upper r' \<and> \<not> serial r' \<and> \<not> netupdatemode (zst r')"
proof -
  let ?T = "bytes ''netlist_done: ''"
  have T: "length ?T = 14" "0 \<notin> set ?T" by (simp_all add: bytes_def)
  have ports: "0 \<notin> set ports" "0 \<notin> set stale" using assms(4,7) cstr_no_nul by blast+
  have off: "moff (zmsg r) \<le> length (mbuf (zmsg r))" using assms(3) by (simp add: mrd_def rd_def split: if_splits)
  obtain m1 s m2 m3 s' m4 where
    m1: "mwrn (zmsg r) 2 ?T = Some m1" and s: "cstr (mdata m1) 2 = Some s" and
    m2: "mwrn m1 (2 + length s) (ports @ [0]) = Some m2" and m3: "mwr m2 0 0 = Some m3" and
    s': "cstr (mdata m3) 2 = Some s'" and m4: "mwr m3 1 (of_nat (length s')) = Some m4" and
    r': "r' = r\<lparr>zmsg := m4, serial := False, upper := True, zst := (zst r)\<lparr>vpst := t, netupdatemode := False\<rparr>\<rparr>"
    using assms(1-3,6,7) by (auto simp: rad_netlist_def mseq_def mrd_def split: bind_splits)
  obtain R where D: "drop 16 (mdata (zmsg r)) = stale @ 0 # R" using assms(4) by (rule cstr_Some_split)
  obtain d0 d1 where head: "take 2 (mdata (zmsg r)) = [d0, d1]"
    using arg_cong [OF D, of length]
    by (cases "mdata (zmsg r)"; cases "tl (mdata (zmsg r))") auto
  have D1: "mdata m1 = d0 # d1 # ?T @ stale @ 0 # R"
    using mdata_mwrn' [OF m1 off] D head T(1) by (simp add: wrn_def split: if_splits)
  have "cstr (mdata m1) 2 = Some (?T @ stale)"
    using cstr_append [of "?T @ stale" "[d0, d1]" R] T(2) ports by (simp add: D1 numeral_2_eq_2)
  then have s_eq: "s = ?T @ stale" using s by simp
  have "moff m1 \<le> length (mbuf m1)" using mdata_mwrn' [OF m1 off] off by simp
  moreover have at: "2 + length s = 16 + length stale" using T(1) by (simp add: s_eq)
  ultimately have w2: "wrn (d0 # d1 # ?T @ stale @ 0 # R) (16 + length stale) (ports @ [0]) = Some (mdata m2)"
    using mdata_mwrn' [OF m2] unfolding D1 at by blast
  then obtain R' where D2: "mdata m2 = d0 # d1 # ?T @ stale @ ports @ 0 # R'"
    using wrn_append [of "d0 # d1 # ?T @ stale" "16 + length stale" "0 # R" "ports @ [0]"] T(1)
    by (auto split: if_splits)
  have D3: "mdata m3 = 0 # d1 # ?T @ stale @ ports @ 0 # R'"
    using mdata_mwr [OF m3] by (simp add: D2 wr_def)
  have "cstr (mdata m3) 2 = Some (?T @ stale @ ports)"
    using cstr_append [of "?T @ stale @ ports" "[0, d1]" R'] T(2) ports by (simp add: D3 numeral_2_eq_2)
  then have s'_eq: "s' = ?T @ stale @ ports" using s' by simp
  have D4: "mdata m4 = 0 # of_nat (length s') # s' @ 0 # R'"
    using mdata_mwr [OF m4] by (simp add: D3 s'_eq wr_def)
  have "length (mdata m4) = length (mdata (zmsg r))"
    using mwrn_moff [OF m1] mwrn_moff [OF m2] mwr_moff [OF m3] mwr_moff [OF m4] by (simp add: mdata_def)
  then have "length s' < 256" using assms(5) by (simp add: D4)
  then have "mpayload m4 = Some s'" using mpayload_mdata [OF D4] by simp
  then show ?thesis by (simp add: r' s'_eq)
qed


theorem rad_netlist_text_witness:
  "\<exists>r'. rad_netlist \<lparr>zst = example_zb\<lparr>netupdatemode := True\<rparr>,
       zmsg = \<lparr>mbuf = [0, 65, 0, 3, 0, 0, 0, 0, 0x83, 0, 0, 0, 0, 0] @ [1, 2, 3, 4, 5, 6, 7, 8, 9, 10] @
         replicate 40 0xFF @ replicate 50 0, moff = 0\<rparr>, serial = False, upper = True\<rparr> = Some r' \<and>
     mpayload (zmsg r') = Some (bytes ''netlist_done: '' @ ([3, 4, 5, 6, 7, 8, 9, 10] @ replicate 40 0xFF) @
       bytes '' 10001 '')"
proof -
  let ?r = "\<lparr>zst = example_zb\<lparr>netupdatemode := True\<rparr>,
       zmsg = \<lparr>mbuf = [0, 65, 0, 3, 0, 0, 0, 0, 0x83, 0, 0, 0, 0, 0] @ [1, 2, 3, 4, 5, 6, 7, 8, 9, 10] @
         replicate 40 0xFF @ replicate 50 0, moff = 0\<rparr>, serial = False, upper = True\<rparr>"
  have c: "rad_netlist ?r \<noteq> None" "map_option (\<lambda>(t, b). cstr b 0) (netlist_entries (zmsg ?r) netlist_table
      (clearvpstable (vpst (zst ?r))) (replicate 200 0)) = Some (Some (bytes '' 10001 ''))"
    "cstr (mdata (zmsg ?r)) 16 = Some ([3, 4, 5, 6, 7, 8, 9, 10] @ replicate 40 0xFF)"
    by code_simp+
  then obtain r' t b where r': "rad_netlist ?r = Some r'" and e: "netlist_entries (zmsg ?r) netlist_table
      (clearvpstable (vpst (zst ?r))) (replicate 200 0) = Some (t, b)" "cstr b 0 = Some (bytes '' 10001 '')"
    by auto
  have "netupdatemode (zst ?r)" "mrd (zmsg ?r) 8 = Some 0x83" "length (mdata (zmsg ?r)) \<le> 255"
    by (simp_all add: mrd_def rd_def mdata_def)
  from rad_netlist_text [OF r' this(1,2) c(3) this(3) e] r' show ?thesis by blast
qed

end
