(* ===== verification/IpStream.thy ===== *)
theory IpStream
  imports ZigBee
begin

text \<open>
  The tasks that talk to the ZigBee dongle over a TCP stream (\<open>DZigbee-bridge/ipstreamtasks.c\<close>).

  The network is an argument: the result of \<open>server_init\<close>, whether \<open>accept\<close> succeeds, and the events
  on the connection. A burst of bytes ends when \<open>select\<close> times out; before the first byte the reader
  waits, so that a connection without any event blocks (the inner \<open>None\<close>).
\<close>

record network =
  server_init :: int
  accept_ok :: bool
  events :: "rx list"

record stream =
  serverready :: bool
  zconnected :: bool
  sslegacymode :: bool

datatype direction = SEND | RESV

fun rsd_loop :: "rx list \<Rightarrow> byte list \<Rightarrow> nat \<Rightarrow> bool \<Rightarrow> (nat \<times> byte list) option option" where
  "rsd_loop [] cmd n detected = Some (if detected then Some (n, take n cmd) else None)"
| "rsd_loop (Timeout # xs) cmd n detected =
     (if detected then Some (Some (n, take n cmd)) else rsd_loop xs cmd n detected)"
| "rsd_loop (Eof # xs) cmd n detected = Some (Some (0, []))"
| "rsd_loop (Byte b # xs) cmd n detected = do {
     cmd1 \<leftarrow> wr cmd n b;
     (if n + 1 = 254 then Some (Some (n + 1, take (n + 1) cmd1)) else rsd_loop xs cmd1 (n + 1) True)
   }"

definition receive_stream_data ::
  "rx list \<Rightarrow> byte list \<Rightarrow> nat \<Rightarrow> (nat \<times> byte list) option option" where
  "receive_stream_data xs block i = do {
     r \<leftarrow> rsd_loop xs (replicate 1000 0) 0 False;
     (case r of
        None \<Rightarrow> Some None
      | Some (n, bs) \<Rightarrow> do { block1 \<leftarrow> wrn block i bs; Some (Some (n, block1)) })
   }"

definition send_stream_data :: "byte list \<Rightarrow> nat \<Rightarrow> int \<Rightarrow> byte list option" where
  "send_stream_data block i len = (if len > 0 then rdn block i (nat len) else Some [])"

text \<open>The transfer over the connection: the result, the block, and the bytes written.\<close>

definition stream_io ::
  "rx list \<Rightarrow> direction \<Rightarrow> byte list \<Rightarrow> nat \<Rightarrow> int \<Rightarrow> (int \<times> byte list \<times> byte list) option option" where
  "stream_io xs dir block i len = (case dir of
     SEND \<Rightarrow> do { w \<leftarrow> send_stream_data block i len; Some (Some (1, block, w)) }
   | RESV \<Rightarrow> do {
       r \<leftarrow> receive_stream_data xs block i;
       Some (map_option (\<lambda>(n, block1). (int n, block1, [])) r)
     })"

definition use_ipstream_server ::
  "network \<Rightarrow> direction \<Rightarrow> byte list \<Rightarrow> nat \<Rightarrow> int \<Rightarrow> stream \<Rightarrow>
   (int \<times> byte list \<times> byte list \<times> stream) option option" where
  "use_ipstream_server net dir block i len st =
     (if \<not> serverready st \<and> server_init net < 0 then Some (Some (server_init net, block, [], st))
      else let st1 = st\<lparr>serverready := True\<rparr> in
        if zconnected st1 then do {
          r \<leftarrow> stream_io (events net) dir block i len;
          Some (map_option (\<lambda>(l, b, w). (l, b, w, if l = 0 then st1\<lparr>zconnected := False\<rparr> else st1)) r)
        }
        else if \<not> accept_ok net then Some (Some (-1, block, [], st1))
        else do {
          r \<leftarrow> stream_io (events net) dir block i len;
          Some (map_option (\<lambda>(l, b, w). (l, b, w, st1\<lparr>zconnected := True\<rparr>)) r)
        })"

text \<open>
  One round of the receiver: \<open>Inr m\<close> is the message that it broadcasts, \<open>Inl len\<close> the negative result
  at which it stops.
\<close>

definition IpStreamReceiverTask ::
  "network \<Rightarrow> stream \<Rightarrow> ((int + msg) \<times> stream) option option" where
  "IpStreamReceiverTask net st = do {
     r \<leftarrow> use_ipstream_server net RESV ((replicate DATASIZE 0)[0 := 0xFF]) 2 1 st;
     (case r of
        None \<Rightarrow> Some None
      | Some (len, buffer, _, st1) \<Rightarrow>
          (if sslegacymode st then do {
             buffer1 \<leftarrow> wr buffer 1 (of_int len);
             (if len < 0 then Some (Some (Inl len, st1))
              else do {
                _ \<leftarrow> print_msg \<lparr>mbuf = buffer1, moff = 0\<rparr>;
                Some (Some (Inr \<lparr>mbuf = buffer1, moff = 0\<rparr>, st1))
              })
           } else do {
             _ \<leftarrow> print_msg \<lparr>mbuf = buffer, moff = 0\<rparr>;
             Some (Some (Inr \<lparr>mbuf = buffer, moff = 0\<rparr>, st1))
           }))
   }"

text \<open>
  One round of the sender, up to the \<open>free\<close> of the message: the bytes written to the dongle. A block
  of \<open>accept\<close> or \<open>server_init\<close> that fails writes nothing.
\<close>

definition IpStreamSenderTask ::
  "network \<Rightarrow> task_context \<Rightarrow> stream \<Rightarrow> (byte list \<times> stream) option option" where
  "IpStreamSenderTask net ctx st = do {
     m \<leftarrow> holder ctx;
     _ \<leftarrow> print_msg m;
     v \<leftarrow> mrd m 0;
     n \<leftarrow> mrd m 1;
     r \<leftarrow> (if v = 0xff
          then use_ipstream_server net SEND (mbuf m) (moff m + 2) (int (unat n)) (st\<lparr>sslegacymode := True\<rparr>)
          else use_ipstream_server net SEND (mbuf m) (moff m) (int (unat n) + 2) (st\<lparr>sslegacymode := False\<rparr>));
     _ \<leftarrow> mfree m;
     Some (map_option (\<lambda>(_, _, w, st1). (w, st1)) r)
   }"

section \<open>The receive loop\<close>

lemma rsd_idle: "rsd_loop (replicate k Timeout @ xs) cmd 0 False = rsd_loop xs cmd 0 False"
  by (induction k) auto

text \<open>A burst is read up to the time-out, or up to its 254th byte.\<close>

lemma rsd_loop_bytes:
  assumes "n + length bs < 254" and "length cmd = 1000" and "bs \<noteq> [] \<or> det"
  shows "rsd_loop (map Byte bs @ Timeout # xs) cmd n det =
    Some (Some (n + length bs, take n cmd @ bs))"
  using assms
proof (induction bs arbitrary: cmd n det)
  case (Cons b bs)
  have "rsd_loop (map Byte bs @ Timeout # xs) (cmd[n := b]) (n + 1) True =
      Some (Some (n + 1 + length bs, take (n + 1) (cmd[n := b]) @ bs))"
    using Cons.prems by (intro Cons.IH) auto
  then show ?case using Cons.prems by (simp add: wr_def take_Suc_conv_app_nth)
qed simp

lemma rsd_loop_full:
  assumes "n + length bs = 254" and "length cmd = 1000" and "bs \<noteq> []"
  shows "rsd_loop (map Byte bs @ xs) cmd n det = Some (Some (254, take n cmd @ bs))"
  using assms
proof (induction bs arbitrary: cmd n det)
  case (Cons b bs)
  show ?case
  proof (cases "bs = []")
    case False
    have "rsd_loop (map Byte bs @ xs) (cmd[n := b]) (n + 1) True =
        Some (Some (254, take (n + 1) (cmd[n := b]) @ bs))"
      using Cons.prems False by (intro Cons.IH) auto
    then show ?thesis using Cons.prems False by (cases bs) (auto simp: wr_def take_Suc_conv_app_nth)
  next
    case True
    have "take (n + 1) (cmd[n := b]) = take n cmd @ [b]"
      using Cons.prems by (simp add: take_Suc_conv_app_nth)
    then show ?thesis using Cons.prems True by (simp add: wr_def)
  qed
qed simp

lemma receive_burst:
  assumes "bs \<noteq> []" and "length bs \<le> 253" and "i + length bs \<le> length block"
  shows "receive_stream_data (replicate k Timeout @ map Byte bs @ Timeout # xs) block i =
    Some (Some (length bs, take i block @ bs @ drop (i + length bs) block))"
  using assms rsd_loop_bytes [of 0 bs "replicate 1000 0" False xs]
  by (simp add: receive_stream_data_def rsd_idle wrn_def)

section \<open>Properties\<close>

text \<open>
  Receiving from the dongle into the message block, from its third cell on. A burst of up to
  253 bytes, after any time of silence, is stored as it is; a burst of 254 bytes or more is cut at
  254 bytes and written one cell behind the end of the block of 255 cells.
\<close>

theorem receive_stream_data_burst:
  assumes "length block = DATASIZE" and "bs \<noteq> []"
  shows "receive_stream_data (replicate k Timeout @ map Byte bs @ Timeout # xs) block 2 =
    (if length bs \<le> 253 then Some (Some (length bs, take 2 block @ bs @ drop (2 + length bs) block))
     else None)"
proof (cases "length bs \<le> 253")
  case False
  obtain as cs where bs: "bs = as @ cs" "length as = 254"
    using False by (intro that [of "take 254 bs" "drop 254 bs"]) auto
  have "rsd_loop (map Byte bs @ Timeout # xs) (replicate 1000 0) 0 False =
      Some (Some (254, take 0 (replicate 1000 0) @ as))"
    using rsd_loop_full [of 0 as "replicate 1000 0" "map Byte cs @ Timeout # xs" False] bs by force
  then show ?thesis
    using assms(1) False bs(2) by (simp add: receive_stream_data_def rsd_idle wrn_def DATASIZE_def)
next
  case True
  then show ?thesis using receive_burst [OF assms(2) True, of 2 block] assms(1) by (simp add: DATASIZE_def)
qed

theorem receive_stream_data_burst_witness:
  "receive_stream_data (replicate 2 Timeout @ map Byte [1, 2, 3] @ [Timeout]) (replicate 255 0) 2 =
     Some (Some (3, [0, 0, 1, 2, 3] @ replicate 250 0)) \<and>
   receive_stream_data (replicate 0 Timeout @ map Byte (replicate 254 7) @ [Timeout]) (replicate 255 0) 2 = None"
  using receive_stream_data_burst [of "replicate 255 0" "[1, 2, 3]" 2 "[]"]
    receive_stream_data_burst [of "replicate 255 0" "replicate 254 7" 0 "[]"]
  by (simp add: DATASIZE_def numeral_2_eq_2)

lemma stream_send:
  assumes "serverready st \<or> 0 \<le> server_init net" and "zconnected st \<or> accept_ok net"
    and "send_stream_data block i len = Some w"
  shows "use_ipstream_server net SEND block i len st =
    Some (Some (1, block, w, st\<lparr>serverready := True, zconnected := True\<rparr>))"
  using assms by (cases st) (auto simp: use_ipstream_server_def stream_io_def Let_def)

text \<open>
  The sender, once a dongle is connected or can connect. A message for port \<open>0xff\<close> goes out as
  its payload, any other as it is with port and length; then the message is freed, which fails for
  every message whose pointer an earlier task has moved.
\<close>

lemma IpStreamSenderTask_writes:
  assumes "holder ctx = Some m" and "mvps m = Some v" and "mpayload m = Some d" and "length d \<le> 82"
    and "serverready st \<or> 0 \<le> server_init net" and "zconnected st \<or> accept_ok net"
  shows "IpStreamSenderTask net ctx st =
    (if moff m = 0
     then Some (Some (if v = 0xff then d else v # of_nat (length d) # d,
       \<lparr>serverready = True, zconnected = True, sslegacymode = (v = 0xff)\<rparr>))
     else None)"
proof -
  obtain n where n: "mrd m 1 = Some n" "mrdn m 2 (unat n) = Some d" "unat n = length d"
    using assms(3) mrdn_length by (fastforce simp: mpayload_def split: bind_splits)
  have v: "mrd m 0 = Some v" using assms(2) by (simp add: mvps_def)
  have fit: "moff m + 2 + length d \<le> length (mbuf m)" and d: "d = take (length d) (drop (moff m + 2) (mbuf m))"
    using n(2,3) by (auto simp: mrdn_def rdn_def split: if_splits)
  have print: "print_msg m = Some ()" using n(1,3) fit assms(4) by (simp add: print_msg_ok)
  have nn: "n = of_nat (length d)" by (simp add: n(3) [symmetric])
  have "drop (moff m) (mbuf m) = v # n # drop (moff m + 2) (mbuf m)"
    using v n(1) by (auto simp: mrd_def rd_def Cons_nth_drop_Suc split: if_splits)
  then have w: "send_stream_data (mbuf m) (moff m) (int (length d) + 2) = Some (v # n # d)"
    using fit d by (simp add: send_stream_data_def rdn_def nat_add_distrib)
  have w': "send_stream_data (mbuf m) (moff m + 2) (int (length d)) = Some d"
    using fit d by (cases "d = []") (simp_all add: send_stream_data_def rdn_def)
  have s: "use_ipstream_server net SEND (mbuf m) (moff m) (int (length d) + 2) (st\<lparr>sslegacymode := False\<rparr>) =
      Some (Some (1, mbuf m, v # n # d, \<lparr>serverready = True, zconnected = True, sslegacymode = False\<rparr>))"
    "use_ipstream_server net SEND (mbuf m) (moff m + 2) (int (length d)) (st\<lparr>sslegacymode := True\<rparr>) =
      Some (Some (1, mbuf m, d, \<lparr>serverready = True, zconnected = True, sslegacymode = True\<rparr>))"
    using stream_send [OF _ _ w, of "st\<lparr>sslegacymode := False\<rparr>" net] assms(5,6)
      stream_send [OF _ _ w', of "st\<lparr>sslegacymode := True\<rparr>" net] by simp_all
  have "IpStreamSenderTask net ctx st = do {
      r \<leftarrow> Some (Some (1, mbuf m, if v = 0xff then d else v # n # d,
        \<lparr>serverready = True, zconnected = True, sslegacymode = (v = 0xff)\<rparr>));
      _ \<leftarrow> mfree m;
      Some (map_option (\<lambda>(_, _, w, st1). (w, st1)) r) }"
    unfolding IpStreamSenderTask_def assms(1) using print v n(1) s by (simp add: n(3))
  then show ?thesis by (simp add: mfree_def nn)
qed

end
