(* ===== verification/Bridge.thy ===== *)
theory Bridge
  imports IpStream
begin

text \<open>
  The bridge as \<open>main\<close> of \<open>DZigbee-bridge/zigbee-bridge.c\<close> puts it together: the tasks, the table
  that connects their outputs to inputs, and the way of a command and of its answer through them.
\<close>

definition IpStreamReceiverTask_id :: byte where "IpStreamReceiverTask_id = 0"
definition IpStreamSenderTask_id :: byte where "IpStreamSenderTask_id = 1"
definition SessionManagerTask_id :: byte where "SessionManagerTask_id = 2"
definition ZigBeeTask_id :: byte where "ZigBeeTask_id = 7"
definition IPTask_id :: "byte \<Rightarrow> byte" where "IPTask_id k = k + of_nat USER_TASKS"

text \<open>The calls of \<open>insert_msg_table_entry\<close>, in their order.\<close>

definition softwiring :: "(byte \<times> byte \<times> byte \<times> byte) list" where
  "softwiring =
     [(IPTask_id 0, 1, SessionManagerTask_id, 1), (IPTask_id 1, 1, SessionManagerTask_id, 1),
      (IPTask_id 2, 1, SessionManagerTask_id, 1), (IPTask_id 3, 1, SessionManagerTask_id, 1),
      (IPTask_id 4, 1, SessionManagerTask_id, 1), (IPTask_id 5, 1, SessionManagerTask_id, 1),
      (SessionManagerTask_id, 1, ZigBeeTask_id, 2),
      (SessionManagerTask_id, 2, IPTask_id 0, 1), (SessionManagerTask_id, 3, IPTask_id 1, 1),
      (SessionManagerTask_id, 4, IPTask_id 2, 1), (SessionManagerTask_id, 5, IPTask_id 3, 1),
      (SessionManagerTask_id, 6, IPTask_id 4, 1), (SessionManagerTask_id, 7, IPTask_id 5, 1),
      (IpStreamReceiverTask_id, 1, ZigBeeTask_id, 1),
      (ZigBeeTask_id, 1, SessionManagerTask_id, 2), (ZigBeeTask_id, 2, IpStreamSenderTask_id, 1)]"

fun insert_entries ::
  "(byte \<times> byte \<times> byte \<times> byte) list \<Rightarrow> (byte \<times> byte) list list \<Rightarrow> (byte \<times> byte) list list option" where
  "insert_entries [] tbl = Some tbl"
| "insert_entries ((t, out, rt, ri) # es) tbl = do {
     tbl1 \<leftarrow> insert_msg_table_entry tbl t out rt ri;
     insert_entries es tbl1
   }"

definition main_msg_table :: "(byte \<times> byte) list list option" where
  "main_msg_table = insert_entries softwiring (replicate TOTAL_TASKS (replicate MAX_OUTPUT (0, 0)))"

text \<open>The context in which a task finds a message that was sent to one of its inputs.\<close>

definition arrives :: "byte \<times> byte \<Rightarrow> msg \<Rightarrow> task_context" where
  "arrives r m = \<lparr>holder = Some m, sender = [fst r, snd r, UNUSED], occupied = 0\<rparr>"

definition routes_ok :: "(byte \<times> byte) list list \<Rightarrow> bool" where
  "routes_ok tbl \<longleftrightarrow>
     list_all (\<lambda>(t, out, rt, ri). route tbl t out = Some (rt, ri)) softwiring \<and>
     list_all (\<lambda>out. route tbl SessionManagerTask_id out = Some (0, 0)) [8, 9, 10, 11] \<and>
     route tbl SessionManagerTask_id 12 = None"

lemma main_routes: "map_option routes_ok main_msg_table = Some True"
  by code_simp

lemma main_routes_ok:
  assumes "main_msg_table = Some tbl"
  shows "routes_ok tbl"
  using main_routes unfolding assms by simp

lemma port_cases:
  assumes "unat v < 6"
  shows "v = 0 \<or> v = 1 \<or> v = 2 \<or> v = 3 \<or> v = 4 \<or> v = (5 :: byte)"
proof -
  have "unat v = 0 \<or> unat v = 1 \<or> unat v = 2 \<or> unat v = 3 \<or> unat v = 4 \<or> unat v = 5"
    using assms by linarith
  then show ?thesis by (auto simp: word_unat_eq_iff)
qed

text \<open>The routes on the way of a command and of its answer.\<close>

lemma port_routes:
  assumes "main_msg_table = Some tbl" and "unat v < 6"
  shows "route tbl (IPTask_id v) Out1 = Some (SessionManagerTask_id, In1)"
    and "route tbl SessionManagerTask_id (v + 2) = Some (IPTask_id v, In1)"
    and "route tbl SessionManagerTask_id Out1 = Some (ZigBeeTask_id, In2)"
    and "route tbl ZigBeeTask_id Out2 = Some (IpStreamSenderTask_id, In1)"
    and "route tbl IpStreamReceiverTask_id Out1 = Some (ZigBeeTask_id, In1)"
    and "route tbl ZigBeeTask_id Out1 = Some (SessionManagerTask_id, In2)"
  using main_routes_ok [OF assms(1)] port_cases [OF assms(2)]
  unfolding routes_ok_def softwiring_def by auto

lemma mmatch_first:
  assumes "mpayload m = Some d" and "d \<noteq> []" and "hd d \<noteq> k" and "moff m + 2 + length (k # ks) \<le> length (mbuf m)"
  shows "mmatch m 2 (k # ks) = Some False"
  using assms
  by (auto simp: mmatch_def mpayload_def mrdn_def rdn_def hd_drop_conv_nth take_Suc hd_conv_nth
      drop_Suc split: bind_splits if_splits)

section \<open>The way of a command\<close>

lemma sm_in1_plain:
  assumes "moff m = 0" and "mvps m = Some v" and "unat v < TOTAL_VPS" and "TOTAL_VPS \<le> length tbl"
    and "mpayload m = Some d" and "length d \<le> 82" and "d \<noteq> []" and "hd d \<noteq> 0x30"
  shows "sm_in1 m tbl = Some ([SmAlarm 10, SmBroadcast Out1 m], tbl[unat v := SESSION_TIMEOUT])"
proof -
  obtain n where n: "mrd m 1 = Some n" "mrdn m 2 (unat n) = Some d" "unat n = length d"
    using assms(5) mrdn_length by (fastforce simp: mpayload_def split: bind_splits)
  have d: "2 + length d \<le> length (mbuf m)" "d = take (length d) (drop 2 (mbuf m))"
    using n(2,3) assms(1) by (auto simp: mrdn_def rdn_def numeral_2_eq_2 split: if_splits)
  moreover have "0 < length d" using assms(7) by simp
  ultimately have len: "0 < length d" "2 < length (mbuf m)" by linarith+
  have "hd d = mbuf m ! 2" using len by (subst d(2)) (simp add: hd_drop_conv_nth)
  with len have first: "rd (mbuf m) 2 = Some (hd d)" by (simp add: rd_def)
  have "print_msg m = Some ()"
    using n assms(6) by (auto simp: print_msg_ok mrdn_def rdn_def split: if_splits)
  moreover have "strncmp_is (mbuf m) (moff m + 2) (bytes ''0TIME'') = Some False"
    using first assms(1,8) by (simp add: bytes_def numeral_2_eq_2)
  ultimately show ?thesis
    using assms(2-4) by (simp add: sm_in1_def mvps_def wr_def)
qed

lemma command_path:
  assumes "main_msg_table = Some routes" and "v \<noteq> 0" and "unat v < TOTAL_VPS"
    and "zb_wf st" and "check_valid_vps (vpst st) v = Some 1" and "vps_vtoa (vpst st) v = Some a"
    and "bs \<noteq> []" and "length bs \<le> 41" and "hd bs \<notin> {0x58, 0x47, 0x30}" and "eol = 0x0d \<or> eol = 0x0a"
    and "TOTAL_VPS \<le> length sessions" and "zconnected stream" and "serverready stream"
  shows "\<exists>m1 m2. iptask_request v (map Byte (hexes bs) @ Byte eol # xs) = Some (Some m1) \<and>
    route routes (IPTask_id v) Out1 = Some (SessionManagerTask_id, In1) \<and>
    SessionManagerTask junk True False (arrives (SessionManagerTask_id, In1) m1) sessions =
      Some ([SmAlarm 10, SmBroadcast Out1 m1], sessions[unat v := SESSION_TIMEOUT]) \<and>
    route routes SessionManagerTask_id Out1 = Some (ZigBeeTask_id, In2) \<and>
    ZigBeeTask (arrives (ZigBeeTask_id, In2) m1) st = Some ([(Out2, m2)], st) \<and>
    route routes ZigBeeTask_id Out2 = Some (IpStreamSenderTask_id, In1) \<and>
    IpStreamSenderTask net (arrives (IpStreamSenderTask_id, In1) m2) stream =
      Some (Some (frame_head (of_nat (length bs + 10)) @ [0x00, 0x03] @ a @ bs, stream\<lparr>sslegacymode := True\<rparr>))"
proof -
  obtain m1 where m1: "iptask_request v (map Byte (hexes bs) @ Byte eol # xs) = Some (Some m1)"
    "moff m1 = 0" "length (mbuf m1) = DATASIZE" "mvps m1 = Some v" "mpayload m1 = Some bs"
    using iptask_request_hex [OF assms(8,7,10), of v xs] by blast
  have "sm_in1 m1 sessions = Some ([SmAlarm 10, SmBroadcast Out1 m1], sessions[unat v := SESSION_TIMEOUT])"
    using m1 assms(3,7-9,11) by (intro sm_in1_plain) auto
  then have sm: "SessionManagerTask junk True False (arrives (SessionManagerTask_id, In1) m1) sessions =
      Some ([SmAlarm 10, SmBroadcast Out1 m1], sessions[unat v := SESSION_TIMEOUT])"
    by (simp add: SessionManagerTask_def sm_message_def arrives_def)
  have words: "mmatch m1 2 (bytes ''XCLUDE_REQ'') = Some False" "mmatch m1 2 (bytes ''GETDESC_REQ'') = Some False"
    "mmatch m1 2 (bytes ''GETUID_REQ'') = Some False" "mmatch m1 2 (bytes ''XONFIG_REQ'') = Some False"
    using mmatch_first [OF m1(5) assms(7)] m1(2,3) assms(9) by (simp_all add: bytes_def DATASIZE_def)
  have v: "0 < v" using assms(2) by (simp add: word_gt_0)
  have v11: "v < 11" using assms(3) by (simp add: word_less_nat_alt TOTAL_VPS_def)
  obtain m2 where m2: "ZigBeeTask (arrives (ZigBeeTask_id, In2) m1) st = Some ([(Out2, m2)], st)"
    "mvps m2 = Some 0xff" "moff m2 = 0"
    "mpayload m2 = Some (frame_head (of_nat (length bs + 10)) @ [0x00, 0x03] @ a @ bs)"
    using ZigBeeTask_forwards [OF _ _ assms(4) m1(4) v v11 assms(5,6) m1(5) _ words,
        of "arrives (ZigBeeTask_id, In2) m1"] m1(2,3) assms(8)
    by (auto simp: arrives_def DATASIZE_def)
  have "length a = 8" using vps_vtoa_wf(1) [OF assms(6)] assms(4) by (simp add: zb_wf_def)
  then have "IpStreamSenderTask net (arrives (IpStreamSenderTask_id, In1) m2) stream =
      Some (Some (frame_head (of_nat (length bs + 10)) @ [0x00, 0x03] @ a @ bs, stream\<lparr>sslegacymode := True\<rparr>))"
    using IpStreamSenderTask_writes [OF _ m2(2,4), of "arrives (IpStreamSenderTask_id, In1) m2" stream net]
      m2(3) assms(8,12,13) by (cases stream) (simp add: arrives_def frame_head_def)
  then show ?thesis
    using m1(1) sm m2(1) port_routes [OF assms(1), of v] assms(3) by (auto simp: TOTAL_VPS_def)
qed

text \<open>
  The way of a command, from the client to the dongle. A line of up to 41 bytes in hexadecimal
  on the port of a known device becomes one message; along the routes that \<open>main\<close> sets up it opens
  the session of the port, is turned into one radio frame with the address of the device, and the
  bytes written to the dongle are exactly that frame. (The first byte is not one of those that start
  a command word, \<open>X\<close>, \<open>G\<close> or \<open>0\<close>.)
\<close>

theorem command_reaches_radio:
  assumes "main_msg_table = Some routes" and "v \<noteq> 0" and "unat v < TOTAL_VPS"
    and "zb_wf st" and "check_valid_vps (vpst st) v = Some 1" and "vps_vtoa (vpst st) v = Some a"
    and "bs \<noteq> []" and "length bs \<le> 41" and "hd bs \<notin> {0x58, 0x47, 0x30}" and "eol = 0x0d \<or> eol = 0x0a"
    and "TOTAL_VPS \<le> length sessions" and "zconnected stream" and "serverready stream"
  shows "\<exists>m1 m2. iptask_request v (map Byte (hexes bs) @ Byte eol # xs) = Some (Some m1) \<and>
    route routes (IPTask_id v) Out1 = Some (SessionManagerTask_id, In1) \<and>
    SessionManagerTask junk True False (arrives (SessionManagerTask_id, In1) m1) sessions =
      Some ([SmAlarm 10, SmBroadcast Out1 m1], sessions[unat v := SESSION_TIMEOUT]) \<and>
    route routes SessionManagerTask_id Out1 = Some (ZigBeeTask_id, In2) \<and>
    ZigBeeTask (arrives (ZigBeeTask_id, In2) m1) st = Some ([(Out2, m2)], st) \<and>
    route routes ZigBeeTask_id Out2 = Some (IpStreamSenderTask_id, In1) \<and>
    IpStreamSenderTask net (arrives (IpStreamSenderTask_id, In1) m2) stream =
      Some (Some (frame_head (of_nat (length bs + 10)) @ [0x00, 0x03] @ a @ bs, stream\<lparr>sslegacymode := True\<rparr>))"
  using command_path [OF assms] .

theorem command_reaches_radio_witness:
  "\<exists>routes m1. main_msg_table = Some routes \<and>
     iptask_request 1 (map Byte (hexes [0x55, 0x56]) @ [Byte 0x0a]) = Some (Some m1) \<and>
     route routes (IPTask_id 1) 1 = Some (SessionManagerTask_id, 1) \<and>
     SessionManagerTask [] True False (arrives (SessionManagerTask_id, 1) m1) (session_table_init 4) =
       Some ([SmAlarm 10, SmBroadcast 1 m1], (session_table_init 4)[1 := 15])"
proof -
  obtain routes where routes: "main_msg_table = Some routes" using main_routes by auto
  have dev: "check_valid_vps (vpst example_zb) 1 = Some 1" "vps_vtoa (vpst example_zb) 1 = Some [1, 2, 3, 4, 5, 6, 7, 8]"
    by (simp_all add: example_zb_def check_valid_vps_def vps_vtoa_def rd_def genvpstable_def MAXVPS_def)
  have "\<exists>m1. iptask_request 1 (map Byte (hexes [0x55, 0x56]) @ [Byte 0x0a]) = Some (Some m1) \<and>
     route routes (IPTask_id 1) 1 = Some (SessionManagerTask_id, 1) \<and>
     SessionManagerTask [] True False (arrives (SessionManagerTask_id, 1) m1) (session_table_init 4) =
       Some ([SmAlarm 10, SmBroadcast 1 m1], (session_table_init 4)[1 := 15])"
    using command_reaches_radio [OF routes _ _ example_zb_wf dev, of "[0x55, 0x56]" "0x0a" "session_table_init 4"
        "\<lparr>serverready = True, zconnected = True, sslegacymode = True\<rparr>" "[]" "[]" net]
    by (auto simp: TOTAL_VPS_def session_table_init_def SESSION_TIMEOUT_def)
  with routes show ?thesis by blast
qed

section \<open>The way of an answer\<close>

lemma IP_send_all:
  assumes "length junk = DATASIZE_HEXBINARY" and "mpayload m = Some d" and "mrd m 1 = Some n" and "length d \<le> 127"
  shows "IP_send_server_hexbinaryString junk (mbuf m) (moff m + 2) n = Some (hexes d)"
proof -
  have n: "unat n = length d" and fit: "moff m + 2 + length d \<le> length (mbuf m)"
    and d: "take (length d) (drop (moff m + 2) (mbuf m)) = d"
    using assms(2,3) by (auto simp: mpayload_def mrdn_def rdn_def split: if_splits)
  have "binary_to_hexbinary (mbuf m) (moff m + 2) junk (length d) =
      Some (of_nat (2 * length d), (hexes d @ drop (2 * length d) junk)[3 * length d := 0])"
    using binary_to_hexbinary_cases [of "length d" "moff m + 2" "mbuf m" junk] assms(1,4) fit d
    by (simp add: DATASIZE_HEXBINARY_def DATASIZE_def)
  moreover have "unat (of_nat (2 * length d) :: byte) = 2 * length d"
    using assms(4) by (intro unat_of_nat_byte) simp
  moreover have "rdn ((hexes d @ drop (2 * length d) junk)[3 * length d := 0]) 0 (2 * length d) = Some (hexes d)"
    using assms(1,4) by (simp add: rdn_def DATASIZE_HEXBINARY_def DATASIZE_def)
  moreover have "n = 0 \<longleftrightarrow> d = []" using n by (metis length_0_conv unat_eq_zero)
  ultimately show ?thesis
    by (cases "d = []") (simp_all add: IP_send_server_hexbinaryString_def n word_gt_0 del: of_nat_mult)
qed

lemma iptask_reply_sends:
  assumes "length junk = DATASIZE_HEXBINARY" and "holder ctx = Some m" and "mpayload m = Some d"
    and "length d \<le> 82" and "unat v < length (MessageSignal s)"
  shows "\<exists>s'. iptask_reply v junk ctx s = Some (hexes d, s')"
proof -
  obtain n where n: "mrd m 1 = Some n" "unat n = length d" "moff m + 2 + length d \<le> length (mbuf m)"
    using assms(3) by (auto simp: mpayload_def mrdn_def rdn_def split: bind_splits if_splits)
  have "debug_print (mbuf m) (moff m) (unat n + 2) = Some ()"
    using n assms(4) by (simp only: debug_print_Some) linarith
  moreover have "\<exists>f s'. receive (unat v) s = Some (f, s')"
    using assms(5) by (auto simp: receive_def msgTestAndReset_def rd_def)
  ultimately show ?thesis
    using assms(2,4) IP_send_all [OF assms(1,3) n(1)] n(1)
    by (auto simp: iptask_reply_def)
qed

lemma report_arrives:
  assumes "zconnected stream" and "serverready stream" and "sslegacymode stream"
    and "events net = replicate k Timeout @ map Byte f @ Timeout # xs"
    and "f = [p0, p1, p2, p3, p4, p5, 0x40, p7, p8, p9, p10, p11] @ a @ d"
    and "length a = 8" and "length d \<le> 62" and "d = [] \<or> length d \<le> 6 \<or> d ! 6 \<noteq> 0x81" and "p1 \<noteq> 0x53"
    and "\<not> includemode st" and "\<not> excludemode st" and "\<not> netupdatemode st" and "\<not> getdescmode st"
    and "vps_atov (vpst st) a = v"
  shows "\<exists>m1 m2. IpStreamReceiverTask net stream = Some (Some (Inr m1, stream)) \<and>
    ZigBeeTask (arrives (ZigBeeTask_id, In1) m1) st = Some ([(Out1, m2)], st) \<and>
    mrd m2 0 = Some v \<and> mpayload m2 = Some d"
proof -
  let ?n = "of_nat (20 + length d) :: byte"
  let ?rest = "replicate (233 - length d) 0 :: byte list"
  let ?m1 = "\<lparr>mbuf = 0xFF # ?n # f @ ?rest, moff = 0\<rparr>"
  have len: "length f = 20 + length d" "f \<noteq> []" using assms(5,6) by auto
  have n: "unat ?n = 20 + length d" using assms(7) by (intro unat_of_nat_byte) simp
  have block: "(replicate DATASIZE 0)[0 := 0xFF] = 0xFF # 0 # replicate 253 (0 :: byte)"
    by (simp add: DATASIZE_def numeral_eq_Suc)
  have "receive_stream_data (events net) ((replicate DATASIZE 0)[0 := 0xFF]) 2 =
      Some (Some (20 + length d, 0xFF # 0 # f @ ?rest))"
    using receive_burst [OF len(2), of 2 "0xFF # 0 # replicate 253 0" k xs] len(1) assms(4,7)
    by (simp add: block numeral_2_eq_2 drop_Cons')
  then have io: "use_ipstream_server net RESV ((replicate DATASIZE 0)[0 := 0xFF]) 2 1 stream =
      Some (Some (int (20 + length d), 0xFF # 0 # f @ ?rest, [], stream))"
    using assms(1,2) by (simp add: use_ipstream_server_def stream_io_def Let_def)
  have print: "print_msg ?m1 = Some ()"
    using n len(1) assms(7) by (simp add: print_msg_ok mrd_def rd_def del: of_nat_add)
  have recv: "IpStreamReceiverTask net stream = Some (Some (Inr ?m1, stream))"
    using print assms(3) by (simp add: IpStreamReceiverTask_def io wr_def del: of_nat_add)
  obtain m2 where m2: "ZigBeeTask (arrives (ZigBeeTask_id, In1) ?m1) st = Some ([(Out1, m2)], st)"
    "mvps m2 = Some v" "mpayload m2 = Some d"
  proof -
    have "(d @ ?rest) ! 6 \<noteq> 0x81" "7 \<le> length (d @ ?rest)"
      using assms(7,8) by (auto simp: nth_append)
    then show ?thesis
      using ZigBeeTask_report [of "arrives (ZigBeeTask_id, In1) ?m1" ?m1 "0xFF" d p0 p1 p2 p3 p4 p5 p7 p8 p9 p10 p11
          a ?rest st] assms(5-7,9-14) that by (auto simp: arrives_def)
  qed
  have "mrd m2 0 = Some v" using m2(2) by (simp add: mvps_def)
  then show ?thesis using recv m2(1,3) by blast
qed

text \<open>
  The way of an answer, from the dongle to the client. A report that a known device sends as
  one burst, while the session of its port is open and no mode is pending, reaches the client on
  that port as the hexadecimal text of its data, along the routes that \<open>main\<close> sets up, and closes
  the session.
\<close>

theorem report_reaches_client:
  assumes "main_msg_table = Some routes" and "zconnected stream" and "serverready stream" and "sslegacymode stream"
    and "events net = replicate k Timeout @ map Byte f @ Timeout # xs"
    and "f = [p0, p1, p2, p3, p4, p5, 0x40, p7, p8, p9, p10, p11] @ a @ d"
    and "length a = 8" and "length d \<le> 62" and "d = [] \<or> length d \<le> 6 \<or> d ! 6 \<noteq> 0x81" and "p1 \<noteq> 0x53"
    and "\<not> includemode st" and "\<not> excludemode st" and "\<not> netupdatemode st" and "\<not> getdescmode st"
    and "vps_atov (vpst st) a = v" and "unat v < TOTAL_VPS" and "rd sessions (unat v) = Some t" and "t \<noteq> 0"
    and "length hexbuf = DATASIZE_HEXBINARY" and "unat v < length (MessageSignal s)"
  shows "\<exists>m1 m2 s'. IpStreamReceiverTask net stream = Some (Some (Inr m1, stream)) \<and>
    route routes IpStreamReceiverTask_id Out1 = Some (ZigBeeTask_id, In1) \<and>
    ZigBeeTask (arrives (ZigBeeTask_id, In1) m1) st = Some ([(Out1, m2)], st) \<and>
    route routes ZigBeeTask_id Out1 = Some (SessionManagerTask_id, In2) \<and>
    SessionManagerTask junk True False (arrives (SessionManagerTask_id, In2) m2) sessions =
      Some ([SmBroadcast (v + 2) m2], sessions[unat v := 0]) \<and>
    route routes SessionManagerTask_id (v + 2) = Some (IPTask_id v, In1) \<and>
    iptask_reply v hexbuf (arrives (IPTask_id v, In1) m2) s = Some (hexes d, s')"
proof -
  obtain m1 m2 where m: "IpStreamReceiverTask net stream = Some (Some (Inr m1, stream))"
    "ZigBeeTask (arrives (ZigBeeTask_id, In1) m1) st = Some ([(Out1, m2)], st)" "mrd m2 0 = Some v" "mpayload m2 = Some d"
    using report_arrives [OF assms(2-15)] by blast
  have "SessionManagerTask junk True False (arrives (SessionManagerTask_id, In2) m2) sessions =
      Some ([SmBroadcast (v + 2) m2], sessions[unat v := 0])"
    using assms(16-18) m(3)
    by (auto simp: SessionManagerTask_def sm_message_def arrives_def sm_in2_def rd_def wr_def split: if_splits)
  moreover obtain s' where "iptask_reply v hexbuf (arrives (IPTask_id v, In1) m2) s = Some (hexes d, s')"
    using iptask_reply_sends [OF assms(19) _ m(4) _ assms(20), of "arrives (IPTask_id v, In1) m2"] assms(8)
    by (auto simp: arrives_def)
  ultimately show ?thesis
    using m(1,2) port_routes [OF assms(1), of v] assms(16) by (auto simp: TOTAL_VPS_def)
qed

theorem report_reaches_client_witness:
  "\<exists>routes m1 s'. main_msg_table = Some routes \<and>
     IpStreamReceiverTask \<lparr>server_init = 3, accept_ok = True, events = replicate 1 Timeout @
         map Byte ([0, 3, 0, 0xC0, 22, 0, 0x40, 2, 0, 0, 0, 0] @ [1, 2, 3, 4, 5, 6, 7, 8] @ [0x55]) @ [Timeout]\<rparr>
       \<lparr>serverready = True, zconnected = True, sslegacymode = True\<rparr> =
       Some (Some (Inr m1, \<lparr>serverready = True, zconnected = True, sslegacymode = True\<rparr>)) \<and>
     (\<exists>m2. iptask_reply 1 (replicate 511 0) (arrives (IPTask_id 1, 1) m2) (example_sys 0 [0, 0, 0, 0]) =
       Some (hexes [0x55], s'))"
proof -
  obtain routes where routes: "main_msg_table = Some routes" using main_routes by auto
  have dev: "vps_atov (vpst example_zb) [1, 2, 3, 4, 5, 6, 7, 8] = 1"
    by (simp add: vps_atov_def example_zb_def genvpstable_def MAXVPS_def upt_rec)
  let ?net = "\<lparr>server_init = 3, accept_ok = True, events = replicate 1 Timeout @
         map Byte ([0, 3, 0, 0xC0, 22, 0, 0x40, 2, 0, 0, 0, 0] @ [1, 2, 3, 4, 5, 6, 7, 8] @ [0x55]) @ Timeout # []\<rparr>"
  have "\<not> includemode example_zb" "\<not> excludemode example_zb" "\<not> netupdatemode example_zb"
    "\<not> getdescmode example_zb" by (simp_all add: example_zb_def zb_init_def)
  note modes = this
  have sizes: "unat (1 :: byte) < TOTAL_VPS" "rd (replicate 6 (15 :: u32)) (unat (1 :: byte)) = Some 15"
    "length (replicate 511 (0 :: byte)) = DATASIZE_HEXBINARY"
    "unat (1 :: byte) < length (MessageSignal (example_sys 0 [0, 0, 0, 0]))"
    by (simp_all add: TOTAL_VPS_def rd_def DATASIZE_HEXBINARY_def DATASIZE_def example_sys_def TOTAL_TASKS_16)
  have "events ?net = replicate 1 Timeout @ map Byte ([0, 3, 0, 0xC0, 22, 0, 0x40, 2, 0, 0, 0, 0] @
      [1, 2, 3, 4, 5, 6, 7, 8] @ [0x55]) @ Timeout # []" by simp
  note ev = this
  show ?thesis
    using report_reaches_client [OF routes _ _ _ ev refl _ _ _ _ modes dev sizes(1,2) _ sizes(3,4),
        of "\<lparr>serverready = True, zconnected = True, sslegacymode = True\<rparr>" "[]"] routes
    by (simp del: map_append) blast
qed

text \<open>
  The table that \<open>main\<close> sets up connects what its sixteen calls say, call by call (no call
  overwrites another); the outputs of the session manager for the ports from 6 on lead to input 0 of
  task 0, and the output for port 10 is outside the table.
\<close>

theorem main_routing:
  "\<exists>tbl. main_msg_table = Some tbl \<and>
     list_all (\<lambda>(t, out, rt, ri). route tbl t out = Some (rt, ri)) softwiring \<and>
     list_all (\<lambda>out. route tbl SessionManagerTask_id out = Some (0, 0)) [8, 9, 10, 11] \<and>
     route tbl SessionManagerTask_id 12 = None"
proof -
  obtain tbl where tbl: "main_msg_table = Some tbl" using main_routes by auto
  show ?thesis using main_routes_ok [OF tbl] tbl unfolding routes_ok_def by blast
qed

end
