(* ===== verification/CList.thy ===== *)
theory CList
  imports HP_Prelude
begin

text \<open>
  The doubly linked lists of the HomePort daemon, the \<open>DL_\<close> macros of \<open>hpdaemon/utlist.h\<close>: the
  head points to the first node, whose \<open>prev\<close> points to the last one; \<open>next\<close> of the last is \<open>NULL\<close>.
  The heap maps the address of a node to its two pointers. \<open>dl h head xs\<close> says that the list at
  \<open>head\<close> consists of the nodes \<open>xs\<close>; the macros are shown to do on \<open>xs\<close> what their names say, so that
  the components above use lists of addresses.
\<close>

record dlnode =
  prev :: "nat option"
  nxt :: "nat option"

type_synonym dlheap = "nat \<rightharpoonup> dlnode"

definition set_prev :: "dlheap \<Rightarrow> nat \<Rightarrow> nat option \<Rightarrow> dlheap option" where
  "set_prev h a v = do { n \<leftarrow> h a; Some (h(a \<mapsto> n\<lparr>prev := v\<rparr>)) }"

definition set_next :: "dlheap \<Rightarrow> nat \<Rightarrow> nat option \<Rightarrow> dlheap option" where
  "set_next h a v = do { n \<leftarrow> h a; Some (h(a \<mapsto> n\<lparr>nxt := v\<rparr>)) }"

definition DL_APPEND :: "dlheap \<Rightarrow> nat option \<Rightarrow> nat \<Rightarrow> (dlheap \<times> nat option) option" where
  "DL_APPEND h head add = (case head of
     Some hp \<Rightarrow> do {
       hn \<leftarrow> h hp;
       h1 \<leftarrow> set_prev h add (prev hn);
       hn1 \<leftarrow> h1 hp;
       p \<leftarrow> prev hn1;
       h2 \<leftarrow> set_next h1 p (Some add);
       h3 \<leftarrow> set_prev h2 hp (Some add);
       h4 \<leftarrow> set_next h3 add None;
       Some (h4, head)
     }
   | None \<Rightarrow> do {
       h1 \<leftarrow> set_prev h add (Some add);
       h2 \<leftarrow> set_next h1 add None;
       Some (h2, Some add)
     })"

definition DL_DELETE :: "dlheap \<Rightarrow> nat option \<Rightarrow> nat \<Rightarrow> (dlheap \<times> nat option) option" where
  "DL_DELETE h head del = do {
     n \<leftarrow> h del;
     p \<leftarrow> prev n;
     (if p = del then Some (h, None)
      else if Some del = head then do {
        b \<leftarrow> nxt n;
        h1 \<leftarrow> set_prev h b (Some p);
        Some (h1, Some b)
      } else do {
        h1 \<leftarrow> set_next h p (nxt n);
        (case nxt n of
           Some b \<Rightarrow> do { h2 \<leftarrow> set_prev h1 b (Some p); Some (h2, head) }
         | None \<Rightarrow> do { hp \<leftarrow> head; h2 \<leftarrow> set_prev h1 hp (Some p); Some (h2, head) })
      })
   }"

text \<open>The nodes that \<open>DL_FOREACH\<close> visits, in order; \<open>fuel\<close> bounds the number of steps.\<close>

fun DL_FOREACH :: "nat \<Rightarrow> dlheap \<Rightarrow> nat option \<Rightarrow> nat list option" where
  "DL_FOREACH fuel h None = Some []"
| "DL_FOREACH 0 h (Some a) = None"
| "DL_FOREACH (Suc fuel) h (Some a) = do { n \<leftarrow> h a; as \<leftarrow> DL_FOREACH fuel h (nxt n); Some (a # as) }"

text \<open>\<open>DL_SEARCH\<close>: the first node for which the comparison answers 0.\<close>

fun DL_SEARCH :: "nat \<Rightarrow> dlheap \<Rightarrow> nat option \<Rightarrow> (nat \<Rightarrow> bool) \<Rightarrow> nat option option" where
  "DL_SEARCH fuel h None eq = Some None"
| "DL_SEARCH 0 h (Some a) eq = None"
| "DL_SEARCH (Suc fuel) h (Some a) eq = do {
     n \<leftarrow> h a;
     (if eq a then Some (Some a) else DL_SEARCH fuel h (nxt n) eq)
   }"

section \<open>The list that a heap holds\<close>

definition first :: "nat list \<Rightarrow> nat option" where
  "first xs = (case xs of [] \<Rightarrow> None | x # _ \<Rightarrow> Some x)"

lemma first_simps [simp]: "first [] = None" "first (x # xs) = Some x"
  by (simp_all add: first_def)

lemma first_append [simp]: "first (xs @ ys) = (if xs = [] then first ys else first xs)"
  by (cases xs) auto

text \<open>A segment: \<open>prev\<close> of the first node is \<open>p\<close>, \<open>next\<close> of the last one \<open>q\<close>.\<close>

fun seg :: "dlheap \<Rightarrow> nat \<Rightarrow> nat list \<Rightarrow> nat option \<Rightarrow> bool" where
  "seg h p [] q \<longleftrightarrow> True"
| "seg h p (x # xs) q \<longleftrightarrow>
     h x = Some \<lparr>prev = Some p, nxt = (if xs = [] then q else first xs)\<rparr> \<and> seg h x xs q"

definition dl :: "dlheap \<Rightarrow> nat option \<Rightarrow> nat list \<Rightarrow> bool" where
  "dl h head xs \<longleftrightarrow> distinct xs \<and> head = first xs \<and> seg h (if xs = [] then 0 else last xs) xs None"

lemma seg_append: "seg h p (xs @ ys) q \<longleftrightarrow>
    seg h p xs (if ys = [] then q else first ys) \<and> seg h (if xs = [] then p else last xs) ys q"
  by (induction xs arbitrary: p) (auto simp: first_def split: list.splits)

lemma seg_upd [simp]: "a \<notin> set xs \<Longrightarrow> seg (h(a := v)) p xs q = seg h p xs q"
  by (induction xs arbitrary: p) auto

lemma dl_append:
  assumes "dl h head xs" and "a \<notin> set xs" and "h a \<noteq> None"
  shows "\<exists>h' head'. DL_APPEND h head a = Some (h', head') \<and> dl h' head' (xs @ [a])"
proof (cases xs rule: rev_cases)
  case Nil
  then show ?thesis
    using assms by (auto simp: dl_def DL_APPEND_def set_prev_def set_next_def)
next
  case (snoc ys l)
  obtain n where n: "h a = Some n" using assms(3) by blast
  show ?thesis
  proof (cases ys)
    case Nil
    then show ?thesis
      using assms n snoc by (auto simp: dl_def DL_APPEND_def set_prev_def set_next_def)
  next
    case (Cons x zs)
    then have "x \<noteq> l" "x \<noteq> a" "l \<noteq> a" "x \<notin> set zs" "l \<notin> set zs" "a \<notin> set zs"
      using assms(1,2) snoc by (auto simp: dl_def)
    then show ?thesis
      using assms n snoc Cons
      by (cases zs) (auto simp: dl_def DL_APPEND_def set_prev_def set_next_def seg_append)
  qed
qed

lemma dl_delete:
  assumes "dl h head xs" and "x \<in> set xs"
  shows "\<exists>h' head'. DL_DELETE h head x = Some (h', head') \<and> dl h' head' (remove1 x xs)"
proof -
  obtain as bs where xs: "xs = as @ x # bs" using assms(2) by (meson split_list)
  have dist: "distinct (as @ x # bs)" and head: "head = first xs" and seg: "seg h (last xs) (as @ x # bs) None"
    using assms(1) xs by (auto simp: dl_def)
  have rem: "remove1 x xs = as @ bs" using dist xs by (auto simp: remove1_append)
  have node: "h x = Some \<lparr>prev = Some (if as = [] then last xs else last as), nxt = first bs\<rparr>"
    using seg by (cases bs) (auto simp: seg_append)
  show ?thesis
  proof (cases as rule: rev_cases)
    case Nil
    show ?thesis
    proof (cases bs)
      case Nil
      then show ?thesis using \<open>as = []\<close> node rem xs by (simp add: DL_DELETE_def dl_def)
    next
      case (Cons b bs')
      have "last bs \<noteq> x" "b \<noteq> x" using dist Cons by auto
      then show ?thesis
        using Nil Cons node rem xs head seg dist
        by (auto simp: DL_DELETE_def dl_def set_prev_def)
    qed
  next
    case (snoc as' a)
    have ne: "a \<noteq> x" "head \<noteq> Some x" using dist snoc head xs by (cases as', auto)+
    show ?thesis
    proof (cases bs)
      case Nil
      show ?thesis
      proof (cases as')
        case Nil
        then show ?thesis
          using ne snoc \<open>bs = []\<close> node rem xs head seg dist
          by (auto simp: DL_DELETE_def dl_def set_prev_def set_next_def)
      next
        case (Cons f as'')
        then show ?thesis
          using ne snoc \<open>bs = []\<close> node rem xs head seg dist
          by (cases as'') (auto simp: DL_DELETE_def dl_def set_prev_def set_next_def seg_append)
      qed
    next
      case (Cons b bs')
      have "last bs \<noteq> x" "b \<noteq> x" "b \<noteq> a" using dist Cons snoc by auto
      then show ?thesis
        using ne snoc Cons node rem xs head seg dist
        by (cases as') (auto simp: DL_DELETE_def dl_def set_prev_def set_next_def seg_append)
    qed
  qed
qed

text \<open>A node whose \<open>prev\<close> is still \<open>NULL\<close>, as it is created, violates the assertion of the macro.\<close>

lemma dl_delete_fresh: "h x = Some n \<Longrightarrow> prev n = None \<Longrightarrow> DL_DELETE h head x = None"
  by (simp add: DL_DELETE_def)

lemma seg_foreach:
  "seg h p xs None \<Longrightarrow> length xs \<le> fuel \<Longrightarrow> DL_FOREACH fuel h (first xs) = Some xs"
proof (induction xs arbitrary: p fuel)
  case (Cons x xs)
  then obtain f where "fuel = Suc f" "length xs \<le> f" by (cases fuel) auto
  then show ?case using Cons by (cases xs) auto
qed simp

lemma dl_foreach: "dl h head xs \<Longrightarrow> length xs \<le> fuel \<Longrightarrow> DL_FOREACH fuel h head = Some xs"
  using seg_foreach by (auto simp: dl_def split: if_splits)

lemma seg_search:
  "seg h p xs None \<Longrightarrow> length xs \<le> fuel \<Longrightarrow> DL_SEARCH fuel h (first xs) eq = Some (find eq xs)"
proof (induction xs arbitrary: p fuel)
  case (Cons x xs)
  then obtain f where "fuel = Suc f" "length xs \<le> f" by (cases fuel) auto
  then show ?case using Cons by (cases xs) auto
qed simp

lemma dl_search: "dl h head xs \<Longrightarrow> length xs \<le> fuel \<Longrightarrow> DL_SEARCH fuel h head eq = Some (find eq xs)"
  using seg_search by (auto simp: dl_def split: if_splits)

section \<open>Properties\<close>

text \<open>
  C37. The list macros refine the operations on the list of nodes: appending a node that is not in
  the list puts it behind the others, deleting a node of the list takes it out and keeps the order,
  the loop visits the nodes in order and the search finds the first match.
\<close>

theorem utlist_refines:
  assumes "dl h head xs" and "length xs \<le> fuel"
  shows "(a \<notin> set xs \<longrightarrow> h a \<noteq> None \<longrightarrow>
      (\<exists>h' head'. DL_APPEND h head a = Some (h', head') \<and> dl h' head' (xs @ [a]))) \<and>
    (x \<in> set xs \<longrightarrow> (\<exists>h' head'. DL_DELETE h head x = Some (h', head') \<and> dl h' head' (remove1 x xs))) \<and>
    DL_FOREACH fuel h head = Some xs \<and> DL_SEARCH fuel h head eq = Some (find eq xs)"
  using dl_append [OF assms(1)] dl_delete [OF assms(1)] dl_foreach [OF assms] dl_search [OF assms] by blast

theorem utlist_refines_witness:
  "\<exists>h' head'. DL_DELETE [1 \<mapsto> \<lparr>prev = Some 2, nxt = Some 2\<rparr>, 2 \<mapsto> \<lparr>prev = Some 1, nxt = None\<rparr>] (Some 1) 1 =
    Some (h', head') \<and> dl h' head' [2]"
proof -
  have "dl [1 \<mapsto> \<lparr>prev = Some 2, nxt = Some 2\<rparr>, 2 \<mapsto> \<lparr>prev = Some 1, nxt = None\<rparr>] (Some 1) [1, 2]"
    by (simp add: dl_def)
  from utlist_refines [OF this, of 2] show ?thesis by simp
qed

end
