(* ===== verification/HpdObjects.thy ===== *)
theory HpdObjects
  imports CList
begin

text \<open>
  The services, devices and parameters of the HomePort daemon (\<open>hpdaemon/hpd_services.c\<close>,
  \<open>hpdaemon/hpd_parameters.c\<close>), in the configuration that is built: HTTP and no HTTPS
  (\<open>-DHPD_HTTP\<close>).

  Objects live at addresses; a freed address is not mapped, and its use is a fault. The strings of
  an object are copies that it owns, and are values here, except the type of a service: the code
  stores the pointer it is given, so a type is an address of \<open>strs\<close>, which says whether the string
  was allocated with \<open>malloc\<close>. Lists are lists of addresses (theory \<open>CList\<close>); the element structs
  of the service lists, which never leave the list, are not separate objects. Allocation does not
  fail in the model.
\<close>

abbreviation (input) HPD_E_SUCCESS :: int where "HPD_E_SUCCESS \<equiv> 0"
abbreviation (input) HPD_E_NULL_POINTER :: int where "HPD_E_NULL_POINTER \<equiv> -1"
abbreviation (input) HPD_E_SERVICE_ALREADY_REGISTER :: int where "HPD_E_SERVICE_ALREADY_REGISTER \<equiv> -11"
abbreviation (input) HPD_E_SERVICE_NOT_REGISTER :: int where "HPD_E_SERVICE_NOT_REGISTER \<equiv> -12"
abbreviation (input) HPD_E_SERVICE_IN_USE :: int where "HPD_E_SERVICE_IN_USE \<equiv> -13"
abbreviation (input) HPD_E_SERVICE_ALREADY_IN_LIST :: int where "HPD_E_SERVICE_ALREADY_IN_LIST \<equiv> -14"
abbreviation (input) HPD_E_PARAMETER_ALREADY_IN_LIST :: int where "HPD_E_PARAMETER_ALREADY_IN_LIST \<equiv> -16"
abbreviation (input) HPD_E_PARAMETER_NOT_IN_LIST :: int where "HPD_E_PARAMETER_NOT_IN_LIST \<equiv> -17"

type_synonym addr = nat

record parameter =
  pID :: string
  pmax :: "string option"
  pmin :: "string option"
  pscale :: "string option"
  pstep :: "string option"
  ptype :: "string option"
  punit :: "string option"
  pvalues :: "string option"

record service =
  sdescription :: "string option"
  sID :: string
  value_url :: string
  stype :: addr
  sunit :: "string option"
  DNS_SD_type :: "string option"
  zeroConfName :: string
  sdevice :: "addr option"
  get_function :: nat
  put_function :: "nat option"
  user_data_pointer :: "nat option"
  parameter_list :: "addr list"

record device =
  ddescription :: "string option"
  dID :: string
  vendorID :: "string option"
  productID :: "string option"
  dversion :: "string option"
  IP :: "string option"
  dport :: "string option"
  location :: "string option"
  dtype :: string
  secure_device :: int
  service_list :: "addr list"

record hpd =
  services :: "addr \<rightharpoonup> service"
  devices :: "addr \<rightharpoonup> device"
  parameters :: "addr \<rightharpoonup> parameter"
  strs :: "addr \<rightharpoonup> (bool \<times> string)"
  brk :: addr
  service_head :: "addr list"
  daemon :: bool

definition str_at :: "hpd \<Rightarrow> addr \<Rightarrow> string option" where
  "str_at m a = map_option snd (strs m a)"

definition free_str :: "addr \<Rightarrow> hpd \<Rightarrow> hpd option" where
  "free_str a m = do {
     (allocated, _) \<leftarrow> strs m a;
     (if allocated then Some (m\<lparr>strs := (strs m)(a := None)\<rparr>) else None)
   }"

definition set_device :: "addr \<Rightarrow> device \<Rightarrow> hpd \<Rightarrow> hpd" where
  "set_device d dv m = m\<lparr>devices := (devices m)(d \<mapsto> dv)\<rparr>"

definition set_service :: "addr \<Rightarrow> service \<Rightarrow> hpd \<Rightarrow> hpd" where
  "set_service s sv m = m\<lparr>services := (services m)(s \<mapsto> sv)\<rparr>"

text \<open>The first element of a list that a comparison accepts; the comparison may fault.\<close>

fun search :: "('a \<Rightarrow> bool option) \<Rightarrow> 'a list \<Rightarrow> 'a option option" where
  "search P [] = Some None"
| "search P (a # as) = do { b \<leftarrow> P a; (if b then Some (Some a) else search P as) }"

section \<open>Parameters\<close>

definition create_parameter_struct ::
  "string option \<Rightarrow> string option \<Rightarrow> string option \<Rightarrow> string option \<Rightarrow> string option \<Rightarrow>
   string option \<Rightarrow> string option \<Rightarrow> string option \<Rightarrow> hpd \<Rightarrow> addr option \<times> hpd" where
  "create_parameter_struct ID pmx pmn sc st ty un vs m = (case ID of
     None \<Rightarrow> (None, m\<lparr>brk := brk m + 1\<rparr>)
   | Some i \<Rightarrow> (Some (brk m), m\<lparr>brk := brk m + 1, parameters := (parameters m)(brk m \<mapsto>
       \<lparr>pID = i, pmax = pmx, pmin = pmn, pscale = sc, pstep = st, ptype = ty, punit = un, pvalues = vs\<rparr>)\<rparr>))"

definition free_parameter_struct :: "addr option \<Rightarrow> hpd \<Rightarrow> hpd option" where
  "free_parameter_struct p m = (case p of
     None \<Rightarrow> Some m
   | Some a \<Rightarrow> (if parameters m a = None then None else Some (m\<lparr>parameters := (parameters m)(a := None)\<rparr>)))"

text \<open>
  A field of the first parameter that is \<open>NULL\<close> is not compared; one that is not \<open>NULL\<close> is compared
  with the field of the second, which must not be \<open>NULL\<close> then. Only equality (0) is used.
\<close>

fun same_fields :: "(string option \<times> string option) list \<Rightarrow> bool option" where
  "same_fields [] = Some True"
| "same_fields ((None, y) # fs) = same_fields fs"
| "same_fields ((Some x, None) # fs) = None"
| "same_fields ((Some x, Some y) # fs) = (if x = y then same_fields fs else Some False)"

definition cmp_Parameter :: "hpd \<Rightarrow> addr \<Rightarrow> addr \<Rightarrow> bool option" where
  "cmp_Parameter m a b = do {
     p \<leftarrow> parameters m a;
     q \<leftarrow> parameters m b;
     same_fields [(Some (pID p), Some (pID q)), (pmax p, pmax q), (pmin p, pmin q), (pscale p, pscale q),
       (pstep p, pstep q), (ptype p, ptype q), (punit p, punit q), (pvalues p, pvalues q)]
   }"

definition add_parameter_to_service :: "addr option \<Rightarrow> addr option \<Rightarrow> hpd \<Rightarrow> (int \<times> hpd) option" where
  "add_parameter_to_service par ser m = (case (par, ser) of
     (Some p, Some s) \<Rightarrow> do {
       sv \<leftarrow> services m s;
       elt \<leftarrow> search (\<lambda>e. cmp_Parameter m e p) (parameter_list sv);
       (case elt of
          Some _ \<Rightarrow> Some (HPD_E_PARAMETER_ALREADY_IN_LIST, m)
        | None \<Rightarrow> if parameters m p = None then None
                  else Some (HPD_E_SUCCESS, set_service s (sv\<lparr>parameter_list := parameter_list sv @ [p]\<rparr>) m))
     }
   | _ \<Rightarrow> Some (HPD_E_NULL_POINTER, m))"

text \<open>
  The search finds an equal parameter, but it is the argument itself that is unlinked: when the
  argument is not a node of the list, this is outside the contract of the macro.
\<close>

definition remove_parameter_from_service :: "addr option \<Rightarrow> addr option \<Rightarrow> hpd \<Rightarrow> (int \<times> hpd) option" where
  "remove_parameter_from_service par ser m = (case (par, ser) of
     (Some p, Some s) \<Rightarrow> do {
       sv \<leftarrow> services m s;
       elt \<leftarrow> search (\<lambda>e. cmp_Parameter m e p) (parameter_list sv);
       (case elt of
          None \<Rightarrow> Some (HPD_E_PARAMETER_NOT_IN_LIST, m)
        | Some _ \<Rightarrow>
            if p \<in> set (parameter_list sv)
            then Some (HPD_E_SUCCESS, set_service s (sv\<lparr>parameter_list := remove1 p (parameter_list sv)\<rparr>) m)
            else None)
     }
   | _ \<Rightarrow> Some (HPD_E_NULL_POINTER, m))"

section \<open>Registration in the server\<close>

text \<open>
  \<open>service_head\<close> is the list of \<open>hpd_http_web_server.c\<close>, \<open>daemon\<close> says that the MHD daemon runs: the
  functions of that file assert it.
\<close>

definition four_tuple :: "hpd \<Rightarrow> addr \<Rightarrow> (string \<times> string \<times> string \<times> string) option" where
  "four_tuple m s = do {
     sv \<leftarrow> services m s;
     d \<leftarrow> sdevice sv;
     dv \<leftarrow> devices m d;
     t \<leftarrow> str_at m (stype sv);
     Some (dtype dv, dID dv, t, sID sv)
   }"

definition is_unsecure_service_registered :: "addr \<Rightarrow> hpd \<Rightarrow> bool option" where
  "is_unsecure_service_registered s m =
     (if \<not> daemon m then None
      else do {
        r \<leftarrow> search (\<lambda>e. do { x \<leftarrow> four_tuple m e; y \<leftarrow> four_tuple m s; Some (x = y) }) (service_head m);
        Some (r \<noteq> None)
      })"

definition is_service_registered :: "addr option \<Rightarrow> hpd \<Rightarrow> int option" where
  "is_service_registered ser m = (case ser of
     None \<Rightarrow> Some HPD_E_NULL_POINTER
   | Some s \<Rightarrow> do {
       sv \<leftarrow> services m s;
       d \<leftarrow> sdevice sv;
       dv \<leftarrow> devices m d;
       (if secure_device dv = 0 then do { b \<leftarrow> is_unsecure_service_registered s m; Some (if b then 1 else 0) }
        else Some 0)
     })"

section \<open>Devices\<close>

definition create_device_struct ::
  "string option \<Rightarrow> string option \<Rightarrow> string option \<Rightarrow> string option \<Rightarrow> string option \<Rightarrow> string option \<Rightarrow>
   string option \<Rightarrow> string option \<Rightarrow> string option \<Rightarrow> int \<Rightarrow> hpd \<Rightarrow> addr option \<times> hpd" where
  "create_device_struct desc ID vendor product version ip port loc ty secure m = (case (ID, ty) of
     (Some i, Some t) \<Rightarrow>
       (Some (brk m), m\<lparr>brk := brk m + 1, devices := (devices m)(brk m \<mapsto>
         \<lparr>ddescription = desc, dID = i, vendorID = vendor, productID = product, dversion = version, IP = ip,
          dport = port, location = loc, dtype = t,
          secure_device = (if secure = 1 \<or> secure = 0 then secure else 0), service_list = []\<rparr>)\<rparr>)
   | _ \<Rightarrow> (None, m\<lparr>brk := brk m + 1\<rparr>))"

text \<open>The end of \<open>destroy_device_struct\<close>: the strings of the device are its own.\<close>

definition free_device :: "addr \<Rightarrow> hpd \<Rightarrow> hpd option" where
  "free_device d m = (if devices m d = None then None else Some (m\<lparr>devices := (devices m)(d := None)\<rparr>))"

section \<open>Services and their device\<close>

definition cmp_ServiceElement :: "hpd \<Rightarrow> addr \<Rightarrow> addr \<Rightarrow> bool option" where
  "cmp_ServiceElement m a b = do { x \<leftarrow> services m a; y \<leftarrow> services m b; Some (value_url x = value_url y) }"

definition matching_service :: "hpd \<Rightarrow> addr list \<Rightarrow> string \<Rightarrow> addr option option" where
  "matching_service m head url = search (\<lambda>e. do { x \<leftarrow> services m e; Some (value_url x = url) }) head"

definition add_service_to_device :: "addr option \<Rightarrow> addr option \<Rightarrow> hpd \<Rightarrow> (int \<times> hpd) option" where
  "add_service_to_device ser dev m = (case (ser, dev) of
     (Some s, Some d) \<Rightarrow> do {
       dv \<leftarrow> devices m d;
       elt \<leftarrow> search (\<lambda>e. cmp_ServiceElement m e s) (service_list dv);
       (case elt of
          Some _ \<Rightarrow> Some (HPD_E_SERVICE_ALREADY_IN_LIST, m)
        | None \<Rightarrow> Some (HPD_E_SUCCESS, set_device d (dv\<lparr>service_list := service_list dv @ [s]\<rparr>) m))
     }
   | _ \<Rightarrow> Some (HPD_E_NULL_POINTER, m))"

text \<open>
  The element is unlinked from the list of \<open>service->device\<close>; with another device as the second
  argument this is outside the contract of the macro.
\<close>

definition remove_service_from_device :: "addr option \<Rightarrow> addr option \<Rightarrow> hpd \<Rightarrow> (int \<times> hpd) option" where
  "remove_service_from_device ser dev m = (case (ser, dev) of
     (Some s, Some d) \<Rightarrow> do {
       sv \<leftarrow> services m s;
       dv \<leftarrow> devices m d;
       elt \<leftarrow> search (\<lambda>e. do {
           x \<leftarrow> services m e;
           t \<leftarrow> str_at m (stype sv);
           u \<leftarrow> str_at m (stype x);
           Some (t = u \<and> sID sv = sID x) }) (service_list dv);
       (case elt of
          None \<Rightarrow> Some (HPD_E_SUCCESS, m)
        | Some e \<Rightarrow>
            if sdevice sv = Some d
            then Some (HPD_E_SUCCESS, set_device d (dv\<lparr>service_list := remove1 e (service_list dv)\<rparr>) m)
            else None)
     }
   | _ \<Rightarrow> Some (HPD_E_NULL_POINTER, m))"

definition value_url_of :: "device \<Rightarrow> string \<Rightarrow> string \<Rightarrow> string" where
  "value_url_of dv ty ID = ''/'' @ dtype dv @ ''/'' @ dID dv @ ''/'' @ ty @ ''/'' @ ID"

definition zeroConfName_of :: "device \<Rightarrow> string \<Rightarrow> string \<Rightarrow> string" where
  "zeroConfName_of dv ty ID = dtype dv @ '' '' @ dID dv @ '' '' @ ty @ '' '' @ ID"

text \<open>
  The result of \<open>add_service_to_device\<close> is compared with -1, which it never returns for two pointers
  that are not \<open>NULL\<close>.
\<close>

definition create_service_struct ::
  "string option \<Rightarrow> string option \<Rightarrow> addr option \<Rightarrow> string option \<Rightarrow> addr option \<Rightarrow> nat option \<Rightarrow>
   nat option \<Rightarrow> addr option \<Rightarrow> nat option \<Rightarrow> hpd \<Rightarrow> (addr option \<times> hpd) option" where
  "create_service_struct desc ID ty un dev getf putf par udp m0 =
    (let m = m0\<lparr>brk := brk m0 + 1\<rparr>; s = brk m0 in
     case ID of None \<Rightarrow> Some (None, m) | Some i \<Rightarrow>
     (case ty of None \<Rightarrow> Some (None, m) | Some t \<Rightarrow>
     (case dev of None \<Rightarrow> do { m1 \<leftarrow> free_str t m; Some (None, m1) } | Some d \<Rightarrow>
     (case getf of None \<Rightarrow> do { m1 \<leftarrow> free_str t m; Some (None, m1) } | Some g \<Rightarrow> do {
       dv \<leftarrow> devices m d;
       tn \<leftarrow> str_at m t;
       ps \<leftarrow> (case par of None \<Rightarrow> Some [] | Some p \<Rightarrow> (if parameters m p = None then None else Some [p]));
       let sv = \<lparr>sdescription = desc, sID = i, value_url = value_url_of dv tn i, stype = t, sunit = un,
         DNS_SD_type = (if secure_device dv = 1 then Some ''_homeport-secure._tcp''
           else if secure_device dv = 0 then Some ''_homeport._tcp'' else None),
         zeroConfName = zeroConfName_of dv tn i, sdevice = Some d, get_function = g, put_function = putf,
         user_data_pointer = udp, parameter_list = ps\<rparr>;
       (rc, m1) \<leftarrow> add_service_to_device (Some s) (Some d) (set_service s sv m);
       Some (if rc = -1 then (None, m1\<lparr>services := (services m1)(s := None)\<rparr>) else (Some s, m1))
     }))))"

text \<open>Freeing the parameters of a service, one by one.\<close>

fun free_parameters :: "addr list \<Rightarrow> hpd \<Rightarrow> hpd option" where
  "free_parameters [] m = Some m"
| "free_parameters (p # ps) m = do { m1 \<leftarrow> free_parameter_struct (Some p) m; free_parameters ps m1 }"

text \<open>
  When the list of the device has become empty, the device is destroyed: the loop of
  \<open>destroy_device_struct\<close> has nothing to do then. The mutex of the service is not freed.
\<close>

definition destroy_service_struct :: "addr option \<Rightarrow> hpd \<Rightarrow> (int \<times> hpd) option" where
  "destroy_service_struct ser m = (case ser of
     None \<Rightarrow> Some (HPD_E_SUCCESS, m)
   | Some s \<Rightarrow> do {
       r \<leftarrow> is_service_registered (Some s) m;
       (if r \<noteq> 0 then Some (HPD_E_SERVICE_IN_USE, m)
        else do {
          sv \<leftarrow> services m s;
          m1 \<leftarrow> (case sdevice sv of
             None \<Rightarrow> Some m
           | Some d \<Rightarrow> do {
               dv \<leftarrow> devices m d;
               (if service_list dv = [] then Some m
                else do {
                  (_, m') \<leftarrow> remove_service_from_device (Some s) (Some d) m;
                  dv' \<leftarrow> devices m' d;
                  (if service_list dv' = [] then free_device d m' else Some m')
                })
             });
          m2 \<leftarrow> free_str (stype sv) m1;
          m3 \<leftarrow> free_parameters (parameter_list sv) m2;
          Some (HPD_E_SUCCESS, m3\<lparr>services := (services m3)(s := None)\<rparr>)
        })
     })"

text \<open>
  The loop of \<open>destroy_device_struct\<close> follows the \<open>next\<close> pointer saved before the deletion, which
  must still be a node of the list.
\<close>

fun destroy_services :: "addr \<Rightarrow> addr list \<Rightarrow> hpd \<Rightarrow> (int \<times> hpd) option" where
  "destroy_services d [] m = Some (HPD_E_SUCCESS, m)"
| "destroy_services d (s # ss) m = do {
     dv \<leftarrow> devices m d;
     (if s \<notin> set (service_list dv) then None
      else do {
        r \<leftarrow> is_service_registered (Some s) m;
        (if r \<noteq> 0 then Some (HPD_E_SERVICE_IN_USE, m)
         else do {
           (_, m1) \<leftarrow> destroy_service_struct (Some s)
             (set_device d (dv\<lparr>service_list := remove1 s (service_list dv)\<rparr>) m);
           destroy_services d ss m1
         })
      })
   }"

definition destroy_device_struct :: "addr option \<Rightarrow> hpd \<Rightarrow> (int \<times> hpd) option" where
  "destroy_device_struct dev m = (case dev of
     None \<Rightarrow> Some (HPD_E_NULL_POINTER, m)
   | Some d \<Rightarrow> do {
       dv \<leftarrow> devices m d;
       (rc, m1) \<leftarrow> destroy_services d (service_list dv) m;
       (if rc \<noteq> 0 then Some (rc, m1) else do { m2 \<leftarrow> free_device d m1; Some (HPD_E_SUCCESS, m2) })
     })"

section \<open>Well-formed memory\<close>

text \<open>
  No duplicate service, no shared type string and no shared parameter: every service is in the list
  of its device, its type is a \<open>malloc\<close>ed string that no other service has, its URL is the one of
  its device, type and ID; the URLs in the list of a device differ.
\<close>

definition service_ok :: "hpd \<Rightarrow> addr \<Rightarrow> service \<Rightarrow> bool" where
  "service_ok m s sv \<longleftrightarrow> s < brk m \<and> (\<exists>d dv t. sdevice sv = Some d \<and> devices m d = Some dv \<and>
     s \<in> set (service_list dv) \<and> strs m (stype sv) = Some (True, t) \<and> value_url sv = value_url_of dv t (sID sv)) \<and>
     distinct (parameter_list sv) \<and> set (parameter_list sv) \<subseteq> dom (parameters m)"

definition device_ok :: "hpd \<Rightarrow> addr \<Rightarrow> device \<Rightarrow> bool" where
  "device_ok m d dv \<longleftrightarrow> distinct (service_list dv) \<and>
     (\<forall>s \<in> set (service_list dv). \<exists>sv. services m s = Some sv \<and> sdevice sv = Some d) \<and>
     inj_on (\<lambda>s. map_option value_url (services m s)) (set (service_list dv))"

definition hpd_wf :: "hpd \<Rightarrow> bool" where
  "hpd_wf m \<longleftrightarrow> (\<forall>s sv. services m s = Some sv \<longrightarrow> service_ok m s sv) \<and>
     (\<forall>d dv. devices m d = Some dv \<longrightarrow> device_ok m d dv) \<and>
     (\<forall>s sv s' sv'. services m s = Some sv \<longrightarrow> services m s' = Some sv' \<longrightarrow> s \<noteq> s' \<longrightarrow>
        stype sv \<noteq> stype sv' \<and> set (parameter_list sv) \<inter> set (parameter_list sv') = {})"

lemma hpd_wfD:
  "hpd_wf m \<Longrightarrow> services m s = Some sv \<Longrightarrow> service_ok m s sv"
  "hpd_wf m \<Longrightarrow> devices m d = Some dv \<Longrightarrow> device_ok m d dv"
  "hpd_wf m \<Longrightarrow> services m s = Some sv \<Longrightarrow> services m s' = Some sv' \<Longrightarrow> s \<noteq> s' \<Longrightarrow>
     stype sv \<noteq> stype sv' \<and> set (parameter_list sv) \<inter> set (parameter_list sv') = {}"
  unfolding hpd_wf_def by blast+

lemma search_find: "(\<And>e. e \<in> set xs \<Longrightarrow> P e = Some (Q e)) \<Longrightarrow> search P xs = Some (find Q xs)"
  by (induction xs) auto

lemma find_unique: "x \<in> set xs \<Longrightarrow> (\<And>y. y \<in> set xs \<Longrightarrow> Q y \<longleftrightarrow> y = x) \<Longrightarrow> find Q xs = Some x"
  by (induction xs) auto

text \<open>In the list of its device, a service is the only one with its type and ID.\<close>

lemma service_match:
  assumes "hpd_wf m" and "services m s = Some sv" and "sdevice sv = Some d" and "devices m d = Some dv"
    and e: "e \<in> set (service_list dv)"
  shows "do { x \<leftarrow> services m e; t \<leftarrow> str_at m (stype sv); u \<leftarrow> str_at m (stype x);
      Some (t = u \<and> sID sv = sID x) } = Some (e = s)"
proof -
  have dok: "device_ok m d dv" using hpd_wfD(2) assms(1,4) .
  obtain t where t: "str_at m (stype sv) = Some t" "value_url sv = value_url_of dv t (sID sv)" and s: "s \<in> set (service_list dv)"
    using hpd_wfD(1) [OF assms(1,2)] assms(3,4) by (auto simp: service_ok_def str_at_def)
  obtain x where x: "services m e = Some x" "sdevice x = Some d" using dok e by (auto simp: device_ok_def)
  then obtain u where u: "str_at m (stype x) = Some u" "value_url x = value_url_of dv u (sID x)"
    using hpd_wfD(1) [OF assms(1) x(1)] assms(4) by (auto simp: service_ok_def str_at_def)
  have "t = u \<and> sID sv = sID x \<longleftrightarrow> e = s"
  proof
    assume "t = u \<and> sID sv = sID x"
    then have "map_option value_url (services m e) = map_option value_url (services m s)"
      using x u t assms(2) by simp
    then show "e = s" using dok e s unfolding device_ok_def by (meson inj_onD)
  qed (use x u t assms(2) in auto)
  then show ?thesis using x u t by simp
qed

lemma remove_service_eq:
  assumes "hpd_wf m" and "services m s = Some sv" and "sdevice sv = Some d" and "devices m d = Some dv"
  shows "remove_service_from_device (Some s) (Some d) m =
    Some (0, set_device d (dv\<lparr>service_list := remove1 s (service_list dv)\<rparr>) m)"
proof -
  have "search (\<lambda>e. do { x \<leftarrow> services m e; t \<leftarrow> str_at m (stype sv); u \<leftarrow> str_at m (stype x);
      Some (t = u \<and> sID sv = sID x) }) (service_list dv) = Some (find (\<lambda>e. e = s) (service_list dv))"
    by (rule search_find) (rule service_match [OF assms])
  also have "find (\<lambda>e. e = s) (service_list dv) = Some s"
    using hpd_wfD(1) [OF assms(1,2)] assms(3,4) by (intro find_unique) (auto simp: service_ok_def)
  finally show ?thesis using assms(2-4) by (simp add: remove_service_from_device_def)
qed

lemma free_parameters_eq:
  "distinct ps \<Longrightarrow> set ps \<subseteq> dom (parameters m) \<Longrightarrow>
    free_parameters ps m = Some (m\<lparr>parameters := parameters m |` (- set ps)\<rparr>)"
proof (induction ps arbitrary: m)
  case (Cons p ps)
  then obtain x where "parameters m p = Some x" by auto
  moreover have "(parameters m)(p := None) |` (- set ps) = parameters m |` (- set (p # ps))"
    by (auto simp: restrict_map_def)
  moreover have "free_parameters ps (m\<lparr>parameters := (parameters m)(p := None)\<rparr>) =
      Some (m\<lparr>parameters := (parameters m)(p := None) |` (- set ps)\<rparr>)"
    (is "_ = Some ?m'")
  proof -
    have "distinct ps" "set ps \<subseteq> dom (parameters (m\<lparr>parameters := (parameters m)(p := None)\<rparr>))"
      using Cons.prems by auto
    from Cons.IH [OF this] show ?thesis by (simp add: fun_upd_def)
  qed
  ultimately show ?case by (simp add: free_parameter_struct_def)
qed (simp add: restrict_map_def)

text \<open>What is left when the service \<open>s\<close> is gone, and when an empty device is.\<close>

definition removed :: "addr \<Rightarrow> service \<Rightarrow> addr \<Rightarrow> device \<Rightarrow> hpd \<Rightarrow> hpd" where
  "removed s sv d dv m = m\<lparr>
     services := (services m)(s := None),
     devices := (devices m)(d \<mapsto> dv\<lparr>service_list := remove1 s (service_list dv)\<rparr>),
     strs := (strs m)(stype sv := None),
     parameters := parameters m |` (- set (parameter_list sv))\<rparr>"

definition without_device :: "addr \<Rightarrow> hpd \<Rightarrow> hpd" where
  "without_device d m = m\<lparr>devices := (devices m)(d := None)\<rparr>"

definition destroyed :: "addr \<Rightarrow> service \<Rightarrow> addr \<Rightarrow> device \<Rightarrow> hpd \<Rightarrow> hpd" where
  "destroyed s sv d dv m = (if remove1 s (service_list dv) = [] then without_device d (removed s sv d dv m)
     else removed s sv d dv m)"

lemma destroy_service_eq:
  assumes "hpd_wf m" and "services m s = Some sv" and "sdevice sv = Some d" and "devices m d = Some dv"
    and "is_service_registered (Some s) m = Some 0"
  shows "destroy_service_struct (Some s) m = Some (0, destroyed s sv d dv m)"
proof -
  have ok: "service_ok m s sv" using hpd_wfD(1) assms(1,2) .
  then obtain t where t: "strs m (stype sv) = Some (True, t)" and s: "s \<in> set (service_list dv)"
    using assms(3,4) by (auto simp: service_ok_def)
  have ps: "free_parameters (parameter_list sv) m' =
      Some (m'\<lparr>parameters := parameters m |` (- set (parameter_list sv))\<rparr>)" if "parameters m' = parameters m" for m'
    using free_parameters_eq [of "parameter_list sv" m'] ok that by (simp add: service_ok_def)
  have "service_list dv \<noteq> []" using s by auto
  then show ?thesis
    using assms(2-5) t remove_service_eq [OF assms(1-4)] ps
    by (simp add: destroy_service_struct_def destroyed_def removed_def without_device_def set_device_def
        free_device_def free_str_def)
qed


lemma search_hits: "s \<in> set xs \<Longrightarrow> P s \<noteq> Some False \<Longrightarrow> search P xs \<noteq> Some None"
  by (induction xs) (auto split: bind_splits if_splits)

lemma is_registered_head:
  assumes "daemon m" and "is_service_registered (Some s) m = Some 0" and "services m s = Some sv"
    and "sdevice sv = Some d" and "devices m d = Some dv" and "secure_device dv = 0"
  shows "s \<notin> set (service_head m)"
proof
  assume s: "s \<in> set (service_head m)"
  have "search (\<lambda>e. do { x \<leftarrow> four_tuple m e; y \<leftarrow> four_tuple m s; Some (x = y) }) (service_head m) \<noteq> Some None"
    by (rule search_hits [OF s]) (cases "four_tuple m s", auto)
  then show False
    using assms by (auto simp: is_service_registered_def is_unsecure_service_registered_def split: bind_splits if_splits)
qed

lemma hpd_wf_removed:
  assumes "hpd_wf m" and "services m s = Some sv" and "sdevice sv = Some d" and "devices m d = Some dv"
  shows "hpd_wf (removed s sv d dv m)"
proof -
  let ?m = "removed s sv d dv m"
  have dok: "device_ok m d dv" using hpd_wfD(2) assms(1,4) .
  have "service_ok ?m s' sv'" if "services ?m s' = Some sv'" for s' sv'
  proof -
    have s': "services m s' = Some sv'" "s' \<noteq> s" using that by (auto simp: removed_def split: if_splits)
    have apart: "stype sv' \<noteq> stype sv" "set (parameter_list sv') \<inter> set (parameter_list sv) = {}"
      using hpd_wfD(3) [OF assms(1) s'(1) assms(2) s'(2)] by auto
    obtain d' dv' t where d': "sdevice sv' = Some d'" "devices m d' = Some dv'" "s' \<in> set (service_list dv')"
      "strs m (stype sv') = Some (True, t)" "value_url sv' = value_url_of dv' t (sID sv')"
      using hpd_wfD(1) [OF assms(1) s'(1)] by (auto simp: service_ok_def)
    have "\<exists>dv''. devices ?m d' = Some dv'' \<and> s' \<in> set (service_list dv'') \<and> dtype dv'' = dtype dv' \<and> dID dv'' = dID dv'"
    proof (cases "d' = d")
      case True
      then have "s' \<in> set (remove1 s (service_list dv))" using d'(2,3) assms(4) s'(2) by simp
      then show ?thesis using True d'(2) assms(4) by (auto simp: removed_def)
    qed (use d' in \<open>simp add: removed_def\<close>)
    then show ?thesis
      using hpd_wfD(1) [OF assms(1) s'(1)] d' apart
      by (auto simp: service_ok_def removed_def value_url_of_def restrict_map_def)
  qed
  moreover have "device_ok ?m d' dv'" if "devices ?m d' = Some dv'" for d' dv'
  proof (cases "d' = d")
    case True
    then have dv': "dv' = dv\<lparr>service_list := remove1 s (service_list dv)\<rparr>"
      using that by (auto simp: removed_def split: if_splits)
    have "set (remove1 s (service_list dv)) = set (service_list dv) - {s}"
      using dok by (simp add: device_ok_def set_remove1_eq)
    then show ?thesis
      using dok True by (auto simp: dv' device_ok_def removed_def inj_on_def)
  next
    case False
    then have dv': "devices m d' = Some dv'" using that by (simp add: removed_def)
    then have ok: "device_ok m d' dv'" using hpd_wfD(2) assms(1) by blast
    then have "s \<notin> set (service_list dv')" using assms(2,3) False by (auto simp: device_ok_def)
    then show ?thesis using ok by (auto simp: device_ok_def removed_def inj_on_def split: if_splits)
  qed
  moreover have "stype sv1 \<noteq> stype sv2 \<and> set (parameter_list sv1) \<inter> set (parameter_list sv2) = {}"
    if "services ?m s1 = Some sv1" "services ?m s2 = Some sv2" "s1 \<noteq> s2" for s1 sv1 s2 sv2
    using that hpd_wfD(3) [OF assms(1)] by (auto simp: removed_def split: if_splits)
  ultimately show ?thesis unfolding hpd_wf_def by blast
qed

lemma hpd_wf_without_device:
  assumes "hpd_wf m" and "devices m d = Some dv" and "service_list dv = []"
  shows "hpd_wf (without_device d m)"
proof -
  have "service_ok (without_device d m) s sv" if live: "services m s = Some sv" for s sv
  proof -
    obtain d' dv' t where d': "sdevice sv = Some d'" "devices m d' = Some dv'" "s \<in> set (service_list dv')"
      "strs m (stype sv) = Some (True, t)" "value_url sv = value_url_of dv' t (sID sv)"
      using hpd_wfD(1) [OF assms(1) live] by (auto simp: service_ok_def)
    then have "d' \<noteq> d" using assms(2,3) by auto
    then show ?thesis using d' hpd_wfD(1) [OF assms(1) live] by (simp add: service_ok_def without_device_def)
  qed
  moreover have "device_ok (without_device d m) d' dv'" if "devices m d' = Some dv'" for d' dv'
    using hpd_wfD(2) [OF assms(1) that] by (simp add: device_ok_def without_device_def)
  ultimately show ?thesis
    using assms(1) unfolding hpd_wf_def
    by (intro conjI allI impI) (auto simp: without_device_def split: if_splits)
qed

lemma hpd_wf_destroyed:
  assumes "hpd_wf m" and "services m s = Some sv" and "sdevice sv = Some d" and "devices m d = Some dv"
  shows "hpd_wf (destroyed s sv d dv m)"
  using hpd_wf_removed [OF assms] hpd_wf_without_device [of "removed s sv d dv m" d]
  by (simp add: destroyed_def removed_def)


text \<open>Creating a service whose URL is not in the list of its device.\<close>

definition new_service :: "string option \<Rightarrow> string \<Rightarrow> addr \<Rightarrow> string \<Rightarrow> string option \<Rightarrow> addr \<Rightarrow> device \<Rightarrow> nat \<Rightarrow>
    nat option \<Rightarrow> addr list \<Rightarrow> nat option \<Rightarrow> service" where
  "new_service desc i t tn un d dv g putf ps udp =
     \<lparr>sdescription = desc, sID = i, value_url = value_url_of dv tn i, stype = t, sunit = un,
      DNS_SD_type = (if secure_device dv = 1 then Some ''_homeport-secure._tcp''
        else if secure_device dv = 0 then Some ''_homeport._tcp'' else None),
      zeroConfName = zeroConfName_of dv tn i, sdevice = Some d, get_function = g, put_function = putf,
      user_data_pointer = udp, parameter_list = ps\<rparr>"

definition created :: "service \<Rightarrow> addr \<Rightarrow> device \<Rightarrow> hpd \<Rightarrow> hpd" where
  "created sv d dv m = m\<lparr>brk := brk m + 1, services := (services m)(brk m \<mapsto> sv),
     devices := (devices m)(d \<mapsto> dv\<lparr>service_list := service_list dv @ [brk m]\<rparr>)\<rparr>"

lemma search_url:
  assumes "hpd_wf m" and "devices m d = Some dv" and "services m' s = Some sv"
    and "\<And>e. e \<in> set (service_list dv) \<Longrightarrow> services m' e = services m e"
  shows "search (\<lambda>e. cmp_ServiceElement m' e s) (service_list dv) =
    Some (find (\<lambda>e. map_option value_url (services m e) = Some (value_url sv)) (service_list dv))"
proof (rule search_find)
  fix e assume e: "e \<in> set (service_list dv)"
  then obtain x where "services m e = Some x"
    using hpd_wfD(2) [OF assms(1,2)] by (auto simp: device_ok_def)
  then show "cmp_ServiceElement m' e s = Some (map_option value_url (services m e) = Some (value_url sv))"
    using assms(3,4) e by (auto simp: cmp_ServiceElement_def)
qed

lemma create_service_eq:
  assumes "hpd_wf m" and "devices m d = Some dv" and "strs m t = Some (b, tn)" and "set ps \<subseteq> dom (parameters m)"
    and par: "(case par of None \<Rightarrow> ps = [] | Some p \<Rightarrow> ps = [p])"
  shows "create_service_struct desc (Some i) (Some t) un (Some d) (Some g) putf par udp m = Some (Some (brk m),
    if list_ex (\<lambda>e. map_option value_url (services m e) = Some (value_url_of dv tn i)) (service_list dv)
    then m\<lparr>brk := brk m + 1, services := (services m)(brk m \<mapsto> new_service desc i t tn un d dv g putf ps udp)\<rparr>
    else created (new_service desc i t tn un d dv g putf ps udp) d dv m)"
proof -
  let ?sv = "new_service desc i t tn un d dv g putf ps udp"
  let ?m = "set_service (brk m) ?sv (m\<lparr>brk := brk m + 1\<rparr>)"
  have old: "e < brk m" if "e \<in> set (service_list dv)" for e
    using hpd_wfD(2) [OF assms(1,2)] hpd_wfD(1) [OF assms(1)] that by (auto simp: device_ok_def service_ok_def)
  have "search (\<lambda>e. cmp_ServiceElement ?m e (brk m)) (service_list dv) =
      Some (find (\<lambda>e. map_option value_url (services m e) = Some (value_url ?sv)) (service_list dv))"
    by (rule search_url [OF assms(1,2)]) (auto simp: set_service_def dest: old)
  moreover have "value_url ?sv = value_url_of dv tn i" by (simp add: new_service_def)
  ultimately have add: "add_service_to_device (Some (brk m)) (Some d) ?m = Some
      (if list_ex (\<lambda>e. map_option value_url (services m e) = Some (value_url_of dv tn i)) (service_list dv)
       then (- 14, ?m) else (0, created ?sv d dv m))"
    using assms(2) by (auto simp: add_service_to_device_def set_device_def set_service_def created_def list_ex_iff
        find_None_iff find_Some_iff dest: nth_mem split: option.split)
  have ps: "(case par of None \<Rightarrow> Some [] | Some p \<Rightarrow> if parameters m p = None then None else Some [p]) = Some ps"
    using par assms(4) by (auto split: option.splits)
  show ?thesis
    using assms(2,3) add ps
    by (simp add: create_service_struct_def Let_def str_at_def new_service_def [symmetric] set_service_def
        split del: if_split cong: option.case_cong) (simp add: set_service_def)
qed


lemma hpd_wf_created:
  assumes "hpd_wf m" and "devices m d = Some dv" and "strs m (stype sv) = Some (True, tn)"
    and "sdevice sv = Some d" and "value_url sv = value_url_of dv tn (sID sv)"
    and "distinct (parameter_list sv)" and "set (parameter_list sv) \<subseteq> dom (parameters m)"
    and own: "\<And>s' sv'. services m s' = Some sv' \<Longrightarrow>
      stype sv' \<noteq> stype sv \<and> set (parameter_list sv) \<inter> set (parameter_list sv') = {}"
    and new: "\<And>e. e \<in> set (service_list dv) \<Longrightarrow> map_option value_url (services m e) \<noteq> Some (value_url sv)"
  shows "hpd_wf (created sv d dv m)"
proof -
  let ?m = "created sv d dv m"
  have fresh: "services m s' = Some sv' \<Longrightarrow> s' < brk m" for s' sv'
    using hpd_wfD(1) [OF assms(1)] by (auto simp: service_ok_def)
  have "service_ok ?m s' sv'" if live: "services ?m s' = Some sv'" for s' sv'
  proof (cases "s' = brk m")
    case True
    then show ?thesis using live assms(3-7)
      by (auto simp: service_ok_def created_def value_url_of_def)
  next
    case False
    then have s': "services m s' = Some sv'" using live by (simp add: created_def)
    obtain d' dv' t where d': "sdevice sv' = Some d'" "devices m d' = Some dv'" "s' \<in> set (service_list dv')"
      "strs m (stype sv') = Some (True, t)" "value_url sv' = value_url_of dv' t (sID sv')"
      using hpd_wfD(1) [OF assms(1) s'] by (auto simp: service_ok_def)
    then have "\<exists>dv''. devices ?m d' = Some dv'' \<and> s' \<in> set (service_list dv'') \<and> dtype dv'' = dtype dv' \<and> dID dv'' = dID dv'"
      using assms(2) by (cases "d' = d") (auto simp: created_def)
    then show ?thesis
      using hpd_wfD(1) [OF assms(1) s'] d' by (auto simp: service_ok_def created_def value_url_of_def)
  qed
  moreover have "device_ok ?m d' dv'" if live: "devices ?m d' = Some dv'" for d' dv'
  proof -
    have old: "e \<noteq> brk m" if "e \<in> set (service_list x)" "devices m y = Some x" for e x y
      using hpd_wfD(2) [OF assms(1) that(2)] that(1) fresh by (fastforce simp: device_ok_def)
    show ?thesis
    proof (cases "d' = d")
      case True
      then have dv': "dv' = dv\<lparr>service_list := service_list dv @ [brk m]\<rparr>" using live by (simp add: created_def)
      have "inj_on (\<lambda>s. map_option value_url (services ?m s)) (set (service_list dv))"
        using hpd_wfD(2) [OF assms(1,2)] old [OF _ assms(2)] unfolding device_ok_def inj_on_def
        by (simp add: created_def)
      moreover have "map_option value_url (services ?m (brk m)) \<notin> (\<lambda>s. map_option value_url (services ?m s)) ` set (service_list dv)"
      proof -
        have ne: "map_option value_url (services ?m e) \<noteq> Some (value_url sv)" if "e \<in> set (service_list dv)" for e
          using new [OF that] old [OF that assms(2)] by (simp add: created_def)
        have "map_option value_url (services ?m (brk m)) = Some (value_url sv)"
          by (simp add: created_def)
        then show ?thesis by (simp only:) (use ne in \<open>blast elim: imageE dest: sym\<close>)
      qed
      ultimately have "inj_on (\<lambda>s. map_option value_url (services ?m s)) (set (service_list dv'))"
      proof -
        have "set (service_list dv') = insert (brk m) (set (service_list dv))" by (simp add: dv')
        moreover have "set (service_list dv) - {brk m} = set (service_list dv)" using old [OF _ assms(2)] by blast
        ultimately show ?thesis
          using \<open>inj_on _ (set (service_list dv))\<close> \<open>_ \<notin> _ ` set (service_list dv)\<close> by (simp only: inj_on_insert simp_thms)
      qed
      moreover have "distinct (service_list dv')"
        using hpd_wfD(2) [OF assms(1,2)] old [OF _ assms(2)] unfolding dv' by (auto simp: device_ok_def)
      moreover have "\<exists>x. services ?m e = Some x \<and> sdevice x = Some d" if "e \<in> set (service_list dv')" for e
        using that hpd_wfD(2) [OF assms(1,2)] assms(4) unfolding dv' by (auto simp: device_ok_def created_def)
      ultimately show ?thesis using True unfolding device_ok_def by blast
    next
      case False
      then have dv': "devices m d' = Some dv'" using live by (simp add: created_def)
      then show ?thesis
        using hpd_wfD(2) [OF assms(1) dv'] old [OF _ dv'] unfolding device_ok_def inj_on_def
        by (auto simp: created_def)
    qed
  qed
  moreover have "stype sv1 \<noteq> stype sv2 \<and> set (parameter_list sv1) \<inter> set (parameter_list sv2) = {}"
    if "services ?m s1 = Some sv1" "services ?m s2 = Some sv2" "s1 \<noteq> s2" for s1 sv1 s2 sv2
    using that hpd_wfD(3) [OF assms(1)] own by (fastforce simp: created_def split: if_splits)
  ultimately show ?thesis unfolding hpd_wf_def by blast
qed

section \<open>Destroying a device\<close>

lemma four_tuple_removed:
  assumes "hpd_wf m" and "services m s = Some sv" and "devices m d = Some dv" and "e \<noteq> s"
  shows "four_tuple (removed s sv d dv m) e = four_tuple m e"
proof (cases "services m e")
  case (Some x)
  have "stype x \<noteq> stype sv" using hpd_wfD(3) [OF assms(1) Some assms(2,4)] by simp
  then show ?thesis
    using Some assms(3,4) by (cases "sdevice x") (auto simp: four_tuple_def removed_def str_at_def)
qed (use assms(4) in \<open>simp add: four_tuple_def removed_def\<close>)

lemma search_cong: "(\<And>e. e \<in> set xs \<Longrightarrow> P e = Q e) \<Longrightarrow> search P xs = search Q xs"
proof (induction xs)
  case (Cons x xs)
  then have "search P xs = search Q xs" "P x = Q x" by auto
  then show ?case by (simp only: search.simps)
qed simp

lemma is_registered_removed:
  assumes "hpd_wf m" and "services m s = Some sv" and "devices m d = Some dv" and "e \<noteq> s" and "s \<notin> set (service_head m)"
  shows "is_service_registered (Some e) (removed s sv d dv m) = is_service_registered (Some e) m"
proof (cases "services m e")
  case (Some x)
  let ?m = "removed s sv d dv m"
  have "search (\<lambda>i. do { x \<leftarrow> four_tuple ?m i; y \<leftarrow> four_tuple ?m e; Some (x = y) }) (service_head m) =
    search (\<lambda>i. do { x \<leftarrow> four_tuple m i; y \<leftarrow> four_tuple m e; Some (x = y) }) (service_head m)"
  proof (rule search_cong)
    fix i assume "i \<in> set (service_head m)"
    then have "i \<noteq> s" using assms(5) by auto
    then show "do { x \<leftarrow> four_tuple ?m i; y \<leftarrow> four_tuple ?m e; Some (x = y) } =
        do { x \<leftarrow> four_tuple m i; y \<leftarrow> four_tuple m e; Some (x = y) }"
      using four_tuple_removed [OF assms(1-3)] assms(4) by presburger
  qed
  then have "is_unsecure_service_registered e ?m = is_unsecure_service_registered e m"
    by (simp add: is_unsecure_service_registered_def removed_def)
  then show ?thesis
    using Some assms(3,4)
    by (cases "sdevice x"; cases "devices m (the (sdevice x))") (auto simp: is_service_registered_def removed_def)
qed (use assms(4) in \<open>simp add: is_service_registered_def removed_def\<close>)


lemma is_registered_set_list:
  assumes "devices m d = Some dv"
  shows "is_service_registered ser (set_device d (dv\<lparr>service_list := l\<rparr>) m) = is_service_registered ser m"
proof (cases ser)
  case (Some e)
  let ?m = "set_device d (dv\<lparr>service_list := l\<rparr>) m"
  have "four_tuple ?m i = four_tuple m i" for i
    using assms by (auto simp: four_tuple_def set_device_def str_at_def split: bind_splits)
  then have "is_unsecure_service_registered e ?m = is_unsecure_service_registered e m"
    by (simp add: is_unsecure_service_registered_def) (simp add: set_device_def)
  then show ?thesis using Some assms
    by (auto simp: is_service_registered_def set_device_def split: bind_splits)
qed (simp add: is_service_registered_def)

text \<open>The service that the loop has just unlinked.\<close>

lemma destroy_unlinked_eq:
  assumes "hpd_wf m" and "services m s = Some sv" and "sdevice sv = Some d" and "devices m d = Some dv"
    and "service_list dv = s # ss" and "is_service_registered (Some s) m = Some 0"
  shows "destroy_service_struct (Some s) (set_device d (dv\<lparr>service_list := ss\<rparr>) m) = Some (0, removed s sv d dv m)"
proof -
  let ?m = "set_device d (dv\<lparr>service_list := ss\<rparr>) m"
  have ok: "service_ok m s sv" using hpd_wfD(1) assms(1,2) .
  then obtain t where t: "strs m (stype sv) = Some (True, t)" by (auto simp: service_ok_def)
  have ps: "free_parameters (parameter_list sv) m' =
      Some (m'\<lparr>parameters := parameters m |` (- set (parameter_list sv))\<rparr>)" if "parameters m' = parameters m" for m'
    using free_parameters_eq [of "parameter_list sv" m'] ok that by (simp add: service_ok_def)
  have "s \<notin> set ss" using hpd_wfD(2) [OF assms(1,4)] assms(5) by (simp add: device_ok_def)
  then have "search (\<lambda>e. do { x \<leftarrow> services m e; t \<leftarrow> str_at m (stype sv); u \<leftarrow> str_at m (stype x);
      Some (t = u \<and> sID sv = sID x) }) ss = Some (find (\<lambda>e. False) ss)"
    using service_match [OF assms(1-4)] assms(5) by (intro search_find) fastforce
  also have "find (\<lambda>e. False) ss = None" by (simp add: find_None_iff)
  finally have "remove_service_from_device (Some s) (Some d) ?m = Some (0, ?m)"
    using assms(2-4) by (simp add: remove_service_from_device_def set_device_def str_at_def)
  then show ?thesis
    using assms(2-6) t ps is_registered_set_list [OF assms(4)]
    by (auto simp: destroy_service_struct_def removed_def set_device_def free_str_def)
qed

lemma destroy_services_eq:
  assumes "hpd_wf m" and "devices m d = Some dv" and "service_list dv = ss" and "daemon m" and "secure_device dv = 0"
    and "list_all (\<lambda>s. is_service_registered (Some s) m = Some 0) ss"
  shows "\<exists>m'. destroy_services d ss m = Some (0, m') \<and> hpd_wf m' \<and>
    devices m' = (devices m)(d \<mapsto> dv\<lparr>service_list := []\<rparr>) \<and> services m' = services m |` (- set ss) \<and>
    service_head m' = service_head m"
  using assms
proof (induction ss arbitrary: m dv)
  case Nil
  then show ?case by (cases dv) (auto simp: restrict_map_def)
next
  case (Cons s ss)
  have reg: "is_service_registered (Some s) m = Some 0" using Cons.prems(6) by simp
  obtain sv where sv: "services m s = Some sv" "sdevice sv = Some d"
    using hpd_wfD(2) [OF Cons.prems(1,2)] Cons.prems(3) by (auto simp: device_ok_def)
  let ?m = "removed s sv d dv m"
  have head: "s \<notin> set (service_head m)"
    using is_registered_head [OF Cons.prems(4) reg sv Cons.prems(2,5)] .
  have "s \<notin> set ss" using hpd_wfD(2) [OF Cons.prems(1,2)] Cons.prems(3) by (simp add: device_ok_def)
  then have "list_all (\<lambda>s. is_service_registered (Some s) ?m = Some 0) ss"
    using Cons.prems(6) is_registered_removed [OF Cons.prems(1) sv(1) Cons.prems(2) _ head]
    unfolding list_all_iff by (metis list.set_intros(2))
  moreover have "hpd_wf ?m" using hpd_wf_removed [OF Cons.prems(1) sv Cons.prems(2)] .
  moreover have "devices ?m d = Some (dv\<lparr>service_list := ss\<rparr>)" using Cons.prems(3) by (simp add: removed_def)
  moreover have "daemon ?m" using Cons.prems(4) by (simp add: removed_def)
  ultimately obtain m' where m': "destroy_services d ss ?m = Some (0, m')" "hpd_wf m'"
    "devices m' = (devices ?m)(d \<mapsto> dv\<lparr>service_list := []\<rparr>)" "services m' = services ?m |` (- set ss)"
    "service_head m' = service_head ?m"
    using Cons.IH [of ?m "dv\<lparr>service_list := ss\<rparr>"] Cons.prems(5) by (auto simp: fun_upd_def)
  have "destroy_services d (s # ss) m = Some (0, m')"
    using Cons.prems(2,3) reg m'(1) destroy_unlinked_eq [OF Cons.prems(1) sv Cons.prems(2,3) reg] by simp
  moreover have "devices m' = (devices m)(d \<mapsto> dv\<lparr>service_list := []\<rparr>)" using m'(3) by (simp add: removed_def)
  moreover have "services m' = services m |` (- set (s # ss))"
    using m'(4) by (auto simp: removed_def restrict_map_def)
  ultimately show ?case using m'(2,5) by (auto simp: removed_def)
qed


section \<open>Parameters of a service\<close>

lemma same_fields_refl: "list_all (\<lambda>(x, y). x = y) fs \<Longrightarrow> same_fields fs = Some True"
  by (induction fs rule: same_fields.induct) auto

lemma cmp_Parameter_copy: "parameters m p = Some v \<Longrightarrow> parameters m q = Some v \<Longrightarrow> cmp_Parameter m p q = Some True"
  by (simp add: cmp_Parameter_def same_fields_refl)

lemma search_append: "search P xs = Some None \<Longrightarrow> search P (xs @ ys) = search P ys"
  by (induction xs) (auto split: bind_splits if_splits)

section \<open>Properties\<close>


definition one_device :: "int \<Rightarrow> hpd" where
  "one_device secure = snd (create_device_struct None (Some ''1'') None None None None None None (Some ''Lamp'') secure
     \<lparr>services = Map.empty, devices = Map.empty, parameters = Map.empty,
      strs = [0 \<mapsto> (True, ''Switch''), 1 \<mapsto> (True, ''Switch''), 2 \<mapsto> (False, ''Switch'')], brk = 0,
      service_head = [], daemon = True\<rparr>)"

lemma one_device_wf: "hpd_wf (one_device secure)"
  by (auto simp: one_device_def create_device_struct_def hpd_wf_def device_ok_def)

definition one_service :: "int \<Rightarrow> addr \<Rightarrow> hpd" where
  "one_service secure t = (case create_service_struct None (Some ''0'') (Some t) None (Some 0) (Some 7) None None None (one_device secure)
     of Some (_, m) \<Rightarrow> m)"




lemma one_service_eq: "one_service secure 0 = created (new_service None ''0'' 0 ''Switch'' None 0
    (the (devices (one_device secure) 0)) 7 None [] None) 0 (the (devices (one_device secure) 0)) (one_device secure)"
proof -
  obtain dv where dv: "devices (one_device secure) 0 = Some dv" "service_list dv = []"
    by (simp add: one_device_def create_device_struct_def)
  have "strs (one_device secure) 0 = Some (True, ''Switch'')"
    by (simp add: one_device_def create_device_struct_def)
  from create_service_eq [OF one_device_wf dv(1) this, of "[]" None] show ?thesis
    using dv by (simp add: one_service_def)
qed

lemma one_service_wf: "hpd_wf (one_service secure 0)"
  unfolding one_service_eq
  by (rule hpd_wf_created [OF one_device_wf, where tn = "''Switch''"])
    (simp_all add: one_device_def create_device_struct_def new_service_def)


text \<open>
  C21. Destroying a device none of whose services is registered: its loop runs through all services
  without touching freed memory, and the device and exactly its services are gone.
\<close>

theorem destroy_device_ok:
  assumes "hpd_wf m" and "devices m d = Some dv" and "daemon m" and "secure_device dv = 0"
    and "list_all (\<lambda>s. is_service_registered (Some s) m = Some 0) (service_list dv)"
  shows "\<exists>m'. destroy_device_struct (Some d) m = Some (0, m') \<and> hpd_wf m' \<and>
    devices m' = (devices m)(d := None) \<and> services m' = services m |` (- set (service_list dv))"
proof -
  obtain m' where m': "destroy_services d (service_list dv) m = Some (0, m')" "hpd_wf m'"
    "devices m' = (devices m)(d \<mapsto> dv\<lparr>service_list := []\<rparr>)" "services m' = services m |` (- set (service_list dv))"
    using destroy_services_eq [OF assms(1,2) refl assms(3-5)] by blast
  then have "hpd_wf (without_device d m')" by (intro hpd_wf_without_device) auto
  then show ?thesis
    using m' assms(2) by (auto simp: destroy_device_struct_def free_device_def without_device_def)
qed

theorem destroy_device_ok_witness:
  "\<exists>m'. destroy_device_struct (Some 0) (one_service 0 0) = Some (0, m') \<and> hpd_wf m' \<and>
    devices m' 0 = None \<and> services m' 1 = None"
proof -
  obtain dv where "devices (one_service 0 0) 0 = Some dv" "daemon (one_service 0 0)" "secure_device dv = 0"
    "list_all (\<lambda>s. is_service_registered (Some s) (one_service 0 0) = Some 0) (service_list dv)" "service_list dv = [1]"
    by (simp add: one_service_eq created_def new_service_def one_device_def create_device_struct_def
        is_service_registered_def is_unsecure_service_registered_def)
  with destroy_device_ok [OF one_service_wf this(1-4)] show ?thesis by auto
qed

text \<open>
  The result of a second service with the type and ID of an existing one: the caller gets it, but
  the list of the device has only the first; destroying it takes the first, which still exists, out of
  the list.
\<close>

theorem duplicate_service:
  assumes "hpd_wf m" and "devices m d = Some dv" and "e \<in> set (service_list dv)" and "services m e = Some x"
    and "str_at m (stype x) = Some tn" and "strs m t = Some (True, tn)" and "stype x \<noteq> t"
    and "create_service_struct desc (Some (sID x)) (Some t) un (Some d) (Some g) putf None udp m = Some (r, m1)"
    and "is_service_registered r m1 = Some 0"
  shows "r = Some (brk m) \<and> devices m1 = devices m \<and>
    (\<exists>m2. destroy_service_struct r m1 = Some (0, m2) \<and> services m2 = services m \<and>
      devices m2 d = (if service_list dv = [e] then None else Some (dv\<lparr>service_list := remove1 e (service_list dv)\<rparr>)))"
proof -
  let ?sv = "new_service desc (sID x) t tn un d dv g putf [] udp"
  have dev: "sdevice x = Some d" using hpd_wfD(2) [OF assms(1,2)] assms(3,4) by (auto simp: device_ok_def)
  have "value_url x = value_url_of dv tn (sID x)"
    using hpd_wfD(1) [OF assms(1,4)] dev assms(2,5) by (auto simp: service_ok_def str_at_def)
  then have ex: "list_ex (\<lambda>e. map_option value_url (services m e) = Some (value_url_of dv tn (sID x))) (service_list dv)"
    using assms(3,4) by (auto simp: list_ex_iff)
  then have r: "r = Some (brk m)" and m1: "m1 = m\<lparr>brk := brk m + 1, services := (services m)(brk m \<mapsto> ?sv)\<rparr>"
    using assms(8) create_service_eq [OF assms(1,2,6), of "[]" None desc "sID x" un g putf udp] by simp_all
  have fresh: "i < brk m" if "i \<in> set (service_list dv)" for i
    using hpd_wfD(2) [OF assms(1,2)] hpd_wfD(1) [OF assms(1)] that by (auto simp: device_ok_def service_ok_def)
  have none: "services m (brk m) = None"
    using hpd_wfD(1) [OF assms(1), of "brk m"] by (cases "services m (brk m)") (auto simp: service_ok_def)
  have "search (\<lambda>i. do { y \<leftarrow> services m1 i; t \<leftarrow> str_at m1 (stype ?sv); u \<leftarrow> str_at m1 (stype y);
      Some (t = u \<and> sID ?sv = sID y) }) (service_list dv) = Some (find (\<lambda>i. i = e) (service_list dv))"
  proof (rule search_find)
    fix i assume i: "i \<in> set (service_list dv)"
    then have "i \<noteq> brk m" using fresh by blast
    then show "do { y \<leftarrow> services m1 i; t \<leftarrow> str_at m1 (stype ?sv); u \<leftarrow> str_at m1 (stype y);
      Some (t = u \<and> sID ?sv = sID y) } = Some (i = e)"
      using service_match [OF assms(1,4) dev assms(2) i] assms(5,6) m1
      by (auto simp: str_at_def new_service_def)
  qed
  also have "find (\<lambda>i. i = e) (service_list dv) = Some e" using assms(3) by (intro find_unique) auto
  finally have rem: "remove_service_from_device r (Some d) m1 =
      Some (0, set_device d (dv\<lparr>service_list := remove1 e (service_list dv)\<rparr>) m1)"
    using assms(2) by (simp add: remove_service_from_device_def r m1 new_service_def)
  have "remove1 e (service_list dv) = [] \<longleftrightarrow> service_list dv = [e]" "service_list dv \<noteq> []"
    using assms(3) by (cases "service_list dv"; auto split: if_splits)+
  moreover have "(services m)(brk m := None) = services m" using none by (simp add: fun_upd_idem)
  ultimately show ?thesis
    using rem assms(2,6,9) none unfolding r
    by (auto simp: destroy_service_struct_def m1 new_service_def set_device_def free_device_def free_str_def)
qed


lemma duplicate_eq: "create_service_struct None (Some ''0'') (Some 1) None (Some 0) (Some 8) None None None (one_service 0 0) =
  Some (Some 2, (one_service 0 0)\<lparr>brk := 3, services := (services (one_service 0 0))(2 \<mapsto>
    new_service None ''0'' 1 ''Switch'' None 0 (the (devices (one_service 0 0) 0)) 8 None [] None)\<rparr>)"
  by (subst create_service_eq [OF one_service_wf, where ps = "[]" and tn = "''Switch''" and b = True and
        dv = "the (devices (one_service 0 0) 0)"])
    (simp_all add: one_service_eq created_def new_service_def one_device_def create_device_struct_def value_url_of_def
        zeroConfName_of_def numeral_2_eq_2)

theorem duplicate_service_witness:
  "\<exists>m2. destroy_service_struct (Some 2) (snd (the (create_service_struct None (Some ''0'') (Some 1) None (Some 0)
      (Some 8) None None None (one_service 0 0)))) = Some (0, m2) \<and> services m2 1 \<noteq> None \<and> devices m2 0 = None"
proof -
  obtain dv where dv: "devices (one_service 0 0) 0 = Some dv" "service_list dv = [1]"
    by (simp add: one_service_eq created_def new_service_def one_device_def create_device_struct_def)
  obtain x where x: "services (one_service 0 0) 1 = Some x" "stype x = 0" "sID x = ''0''"
    by (simp add: one_service_eq created_def new_service_def one_device_def create_device_struct_def)
  have str: "str_at (one_service 0 0) (stype x) = Some ''Switch''" "strs (one_service 0 0) 1 = Some (True, ''Switch'')"
    by (simp_all add: x one_service_eq created_def new_service_def one_device_def create_device_struct_def str_at_def)
  let ?m1 = "snd (the (create_service_struct None (Some ''0'') (Some 1) None (Some 0) (Some 8) None None None (one_service 0 0)))"
  have reg: "is_service_registered (Some 2) ?m1 = Some 0"
    unfolding duplicate_eq
    by (simp add: one_service_eq created_def new_service_def one_device_def create_device_struct_def
        is_service_registered_def is_unsecure_service_registered_def)
  have "create_service_struct None (Some (sID x)) (Some 1) None (Some 0) (Some 8) None None None (one_service 0 0) =
      Some (Some 2, ?m1)"
    unfolding x(3) duplicate_eq by simp
  from duplicate_service [OF one_service_wf dv(1) _ x(1) str _ this reg] x dv show ?thesis by auto
qed

text \<open>
  A service whose type is a string literal, as the examples pass it, cannot be destroyed: the code
  frees the literal.
\<close>

theorem literal_type_faults:
  assumes "services m s = Some sv" and "strs m (stype sv) = Some (False, t)"
    and "is_service_registered (Some s) m = Some 0"
  shows "destroy_service_struct (Some s) m = None"
proof -
  have keep: "strs m' = strs m" if "remove_service_from_device (Some s) (Some d) m = Some (rc, m')" for d rc m'
    using that by (auto simp: remove_service_from_device_def set_device_def split: bind_splits option.splits if_splits)
  have "strs m' = strs m1" if "free_device d m1 = Some m'" for d m1 m'
    using that by (auto simp: free_device_def split: if_splits)
  then show ?thesis using assms
    by (auto simp: destroy_service_struct_def free_str_def split: bind_splits option.splits if_splits
        dest!: keep \<open>\<And>m' m1 d. free_device d m1 = Some m' \<Longrightarrow> strs m' = strs m1\<close>)
qed

theorem literal_type_faults_witness:
  "destroy_service_struct (Some 1) (one_service 0 2) = None"
proof -
  obtain sv where "services (one_service 0 2) 1 = Some sv" "strs (one_service 0 2) (stype sv) = Some (False, ''Switch'')"
    "is_service_registered (Some 1) (one_service 0 2) = Some 0"
    by (simp add: one_service_def one_device_def create_device_struct_def create_service_struct_def str_at_def
        add_service_to_device_def set_service_def set_device_def
        is_service_registered_def is_unsecure_service_registered_def)
  from literal_type_faults [OF this] show ?thesis .
qed


text \<open>
  A parameter that was added to a service is in its list, is refused a second time, and is removed
  again by the pointer that was added; a copy of it with the same fields is found, but its removal is
  outside the contract of the list.
\<close>

theorem parameter_roundtrip:
  assumes "add_parameter_to_service (Some p) (Some s) m = Some (0, m1)"
  shows "\<exists>sv. services m s = Some sv \<and>
    services m1 = (services m)(s \<mapsto> sv\<lparr>parameter_list := parameter_list sv @ [p]\<rparr>) \<and>
    add_parameter_to_service (Some p) (Some s) m1 = Some (-16, m1) \<and>
    remove_parameter_from_service (Some p) (Some s) m1 = Some (0, m) \<and>
    (parameters m q \<noteq> parameters m p \<or> q = p \<or> q \<in> set (parameter_list sv) \<or>
     search (\<lambda>e. cmp_Parameter m e q) (parameter_list sv) \<noteq> Some None \<or>
     remove_parameter_from_service (Some q) (Some s) m1 = None)"
proof -
  obtain sv v where sv: "services m s = Some sv" "search (\<lambda>e. cmp_Parameter m e p) (parameter_list sv) = Some None"
      "parameters m p = Some v"
    and m1: "m1 = set_service s (sv\<lparr>parameter_list := parameter_list sv @ [p]\<rparr>) m"
    using assms by (auto simp: add_parameter_to_service_def split: bind_splits option.splits if_splits)
  have par: "cmp_Parameter m1 = cmp_Parameter m"
    by (intro ext) (simp add: cmp_Parameter_def m1 set_service_def)
  have self: "cmp_Parameter m p p = Some True" using cmp_Parameter_copy sv(3) by blast
  have "p \<notin> set (parameter_list sv)"
    using search_hits [of p "parameter_list sv" "\<lambda>e. cmp_Parameter m e p"] self sv(2) by auto
  moreover have "search (\<lambda>e. cmp_Parameter m e p) (parameter_list sv @ [p]) = Some (Some p)"
    using search_append [OF sv(2)] self by simp
  moreover have "search (\<lambda>e. cmp_Parameter m e q) (parameter_list sv @ [p]) = Some (Some p)"
    if "search (\<lambda>e. cmp_Parameter m e q) (parameter_list sv) = Some None" "parameters m q = parameters m p"
    using search_append [OF that(1)] cmp_Parameter_copy [of m p v q] that(2) sv(3) by simp
  moreover have "services m1 s = Some (sv\<lparr>parameter_list := parameter_list sv @ [p]\<rparr>)"
    "services m1 = (services m)(s \<mapsto> sv\<lparr>parameter_list := parameter_list sv @ [p]\<rparr>)"
    by (simp_all add: m1 set_service_def)
  moreover have "set_service s sv m1 = m" using sv(1) by (simp add: m1 set_service_def fun_upd_idem)
  ultimately show ?thesis
    using sv by (auto simp: add_parameter_to_service_def remove_parameter_from_service_def par remove1_append)
qed

definition two_parameters :: hpd where
  "two_parameters = (one_service 0 0)\<lparr>parameters :=
     [5 \<mapsto> \<lparr>pID = ''p'', pmax = Some ''9'', pmin = None, pscale = None, pstep = None, ptype = None, punit = None, pvalues = None\<rparr>,
      6 \<mapsto> \<lparr>pID = ''p'', pmax = Some ''9'', pmin = None, pscale = None, pstep = None, ptype = None, punit = None, pvalues = None\<rparr>]\<rparr>"

theorem parameter_roundtrip_witness:
  "\<exists>m1. add_parameter_to_service (Some 5) (Some 1) two_parameters = Some (0, m1) \<and>
    remove_parameter_from_service (Some 6) (Some 1) m1 = None"
proof -
  obtain sv where sv: "services two_parameters 1 = Some sv" "parameter_list sv = []"
    by (simp add: two_parameters_def one_service_eq created_def new_service_def one_device_def create_device_struct_def)
  moreover have "parameters two_parameters 6 = parameters two_parameters 5" "parameters two_parameters 5 \<noteq> None"
    by (simp_all add: two_parameters_def)
  moreover obtain m1 where m1: "add_parameter_to_service (Some 5) (Some 1) two_parameters = Some (0, m1)"
    using sv \<open>parameters two_parameters 5 \<noteq> None\<close> by (auto simp: add_parameter_to_service_def)
  ultimately show ?thesis using parameter_roundtrip [OF m1, of 6] by auto
qed

end
