(* ===== verification/HpdEvents.thy ===== *)
theory HpdEvents
  imports HP_Prelude
begin

text \<open>
  Events and event queues of the HomePort daemon (\<open>hpdaemon/hpd_events.c\<close>). Every web client that
  subscribed to something has a queue (the \<open>session\<close> cookie names it); one global queue collects the
  events of the whole daemon.

  A queue is a value here, and the functions return the changed queue; a \<open>NULL\<close> pointer is \<open>None\<close>.
  Every function is one critical section of the mutex of the queue, so it is one step; only
  \<open>dequeue_event\<close> gives the mutex back, in \<open>pthread_cond_wait\<close>, and is two steps
  (\<open>dequeue_begin\<close>, \<open>dequeue_end\<close>). Functions that signal the condition variable return a flag that
  says so. The result \<open>None\<close> of the whole function is a crash: \<open>strcmp\<close> on a \<open>NULL\<close> pointer, or the
  removal of the first node of an empty list.
\<close>

abbreviation (input) HPD_YES :: int where "HPD_YES \<equiv> 1"
abbreviation (input) HPD_NO :: int where "HPD_NO \<equiv> 2"
abbreviation (input) HPD_WAIT_FOR_TIMEOUT :: int where "HPD_WAIT_FOR_TIMEOUT \<equiv> 3"
abbreviation (input) HPD_E_EVENT_IS_NULL :: int where "HPD_E_EVENT_IS_NULL \<equiv> -40"
abbreviation (input) HPD_E_EVENT_QUEUE_IS_NULL :: int where "HPD_E_EVENT_QUEUE_IS_NULL \<equiv> -41"
abbreviation (input) HPD_E_EVENT_QUEUE_OR_EVENT_IS_NULL :: int where "HPD_E_EVENT_QUEUE_OR_EVENT_IS_NULL \<equiv> -43"
abbreviation (input) HPD_E_EVENT_QUEUE_OR_URL_IS_NULL :: int where "HPD_E_EVENT_QUEUE_OR_URL_IS_NULL \<equiv> -44"
abbreviation (input) HPD_E_EVENT_QUEUE_OR_SERVICE_ID_IS_NULL :: int where "HPD_E_EVENT_QUEUE_OR_SERVICE_ID_IS_NULL \<equiv> -45"
abbreviation (input) HPD_E_SERVICE_ID_NOT_IN_EVENT_QUEUE :: int where "HPD_E_SERVICE_ID_NOT_IN_EVENT_QUEUE \<equiv> -46"
abbreviation (input) HPD_E_NOT_HPD_BOOLEAN :: int where "HPD_E_NOT_HPD_BOOLEAN \<equiv> -47"

record event =
  eid :: "string option"
  edata :: "string option"

record service_id =
  service_url :: string
  available :: int

record event_queue =
  session_id :: string
  connection_id :: "string option"
  event_queue_head :: "event list"
  service_id_head :: "service_id list"
  send_log_events :: int
  exiting :: int
  is_waiting :: int

section \<open>Events\<close>

definition create_empty_event :: event where
  "create_empty_event = \<lparr>eid = None, edata = None\<rparr>"

definition create_event :: "string option \<Rightarrow> string option \<Rightarrow> event option" where
  "create_event i d = (case (i, d) of
     (Some i', Some d') \<Rightarrow> Some \<lparr>eid = Some i', edata = Some d'\<rparr>
   | _ \<Rightarrow> None)"

text \<open>A field that is \<open>NULL\<close> leaves that of the copy uninitialised; this counts as a crash at once.\<close>

definition copy_event :: "event option \<Rightarrow> event option option" where
  "copy_event e = (case e of
     None \<Rightarrow> Some None
   | Some x \<Rightarrow> (if eid x = None \<or> edata x = None then None else Some (Some x)))"

section \<open>Queues\<close>

definition create_event_queue :: "string \<Rightarrow> event_queue" where
  "create_event_queue new_session_id =
     \<lparr>session_id = new_session_id, connection_id = None, event_queue_head = [], service_id_head = [],
      send_log_events = HPD_NO, exiting = HPD_NO, is_waiting = HPD_NO\<rparr>"

definition exit_event_queue :: "event_queue option \<Rightarrow> int \<times> event_queue option \<times> bool" where
  "exit_event_queue eq = (case eq of
     None \<Rightarrow> (HPD_E_EVENT_QUEUE_IS_NULL, None, False)
   | Some q \<Rightarrow> (0, Some (q\<lparr>exiting := HPD_YES\<rparr>), is_waiting q = HPD_YES))"

definition create_service_id :: "string option \<Rightarrow> service_id option" where
  "create_service_id i = map_option (\<lambda>u. \<lparr>service_url = u, available = HPD_YES\<rparr>) i"

definition queue_event :: "event_queue option \<Rightarrow> event option \<Rightarrow> int \<Rightarrow> (int \<times> event_queue option \<times> bool) option" where
  "queue_event eq ev is_global = (case (eq, ev) of
     (Some q, Some e) \<Rightarrow> do {
       i \<leftarrow> eid e;
       (if i = ''Log'' \<and> send_log_events q = HPD_NO then Some (0, eq, False)
        else if is_global = HPD_NO \<and> i \<noteq> ''Log'' \<and> \<not> list_ex (\<lambda>s. service_url s = i) (service_id_head q)
        then Some (0, eq, False)
        else do {
          e' \<leftarrow> (if is_global = HPD_NO then copy_event ev else Some ev);
          e'' \<leftarrow> e';
          Some (0, Some (q\<lparr>event_queue_head := event_queue_head q @ [e'']\<rparr>),
            is_waiting q = HPD_YES \<and> (is_global = HPD_YES \<or> is_global = HPD_NO \<and> connection_id q \<noteq> None))
        })
     }
   | _ \<Rightarrow> Some (HPD_E_EVENT_QUEUE_OR_EVENT_IS_NULL, eq, False))"

text \<open>
  The part of \<open>dequeue_event\<close> after the wait. The other half goes to sleep on an empty queue, or
  continues at once; \<open>None\<close> as the inner result means that the caller sleeps. The wait is an \<open>if\<close> and
  not a loop, so the second half runs after every wake-up, whatever its reason.
\<close>

definition dequeue_end :: "string option \<Rightarrow> int \<Rightarrow> event_queue \<Rightarrow> (event option \<times> event_queue) option" where
  "dequeue_end conn is_global q = do {
     taken \<leftarrow> (case conn of
        Some c \<Rightarrow> if is_global = HPD_NO then map_option (\<lambda>c'. c' \<noteq> c) (connection_id q) else Some False
      | None \<Rightarrow> Some False);
     (if taken \<or> exiting q = HPD_YES then Some (None, q)
      else (case event_queue_head q of
         [] \<Rightarrow> None
       | e # es \<Rightarrow> Some (Some e, q\<lparr>event_queue_head := es\<rparr>)))
   }"

definition dequeue_begin :: "string option \<Rightarrow> int \<Rightarrow> event_queue \<Rightarrow> (event option option \<times> event_queue) option" where
  "dequeue_begin conn is_global q =
     (if event_queue_head q = [] then Some (None, q\<lparr>is_waiting := HPD_YES\<rparr>)
      else map_option (\<lambda>(e, q'). (Some e, q')) (dequeue_end conn is_global q))"

definition dequeue_wake :: "string option \<Rightarrow> int \<Rightarrow> event_queue \<Rightarrow> (event option \<times> event_queue) option" where
  "dequeue_wake conn is_global q = dequeue_end conn is_global (q\<lparr>is_waiting := HPD_NO\<rparr>)"

text \<open>\<open>wait_for_timeout\<close>, before and after the wait; \<open>timed_out\<close> is what the wait returns.\<close>

definition wait_for_timeout_begin :: "event_queue \<Rightarrow> event_queue" where
  "wait_for_timeout_begin q = q\<lparr>is_waiting := HPD_WAIT_FOR_TIMEOUT\<rparr>"

definition wait_for_timeout_end :: "bool \<Rightarrow> event_queue \<Rightarrow> int \<times> event_queue" where
  "wait_for_timeout_end timed_out q = (if timed_out then HPD_YES else HPD_NO, q\<lparr>is_waiting := HPD_NO\<rparr>)"

section \<open>Subscriptions\<close>

definition is_queue_subscribed_to_service :: "event_queue option \<Rightarrow> string option \<Rightarrow> int" where
  "is_queue_subscribed_to_service eq url = (case (eq, url) of
     (Some q, Some u) \<Rightarrow> (if list_ex (\<lambda>s. service_url s = u) (service_id_head q) then HPD_YES else HPD_NO)
   | _ \<Rightarrow> HPD_E_EVENT_QUEUE_OR_URL_IS_NULL)"

definition add_service_id_to_queue :: "service_id option \<Rightarrow> event_queue option \<Rightarrow> int \<times> event_queue option" where
  "add_service_id_to_queue sid eq = (case (eq, sid) of
     (Some q, Some s) \<Rightarrow> (0, Some (q\<lparr>service_id_head := service_id_head q @ [s]\<rparr>))
   | _ \<Rightarrow> (HPD_E_EVENT_QUEUE_OR_SERVICE_ID_IS_NULL, eq))"

text \<open>Removing the first entry with the URL.\<close>

fun drop_service_id :: "string \<Rightarrow> service_id list \<Rightarrow> service_id list option" where
  "drop_service_id u [] = None"
| "drop_service_id u (s # ss) = (if service_url s = u then Some ss else map_option ((#) s) (drop_service_id u ss))"

definition remove_service_id_from_queue :: "string option \<Rightarrow> event_queue option \<Rightarrow> int \<times> event_queue option" where
  "remove_service_id_from_queue url eq = (case (eq, url) of
     (Some q, Some u) \<Rightarrow> (case drop_service_id u (service_id_head q) of
        Some ss \<Rightarrow> (0, Some (q\<lparr>service_id_head := ss\<rparr>))
      | None \<Rightarrow> (HPD_E_SERVICE_ID_NOT_IN_EVENT_QUEUE, eq))
   | _ \<Rightarrow> (HPD_E_EVENT_QUEUE_OR_URL_IS_NULL, eq))"

fun set_available :: "string \<Rightarrow> int \<Rightarrow> service_id list \<Rightarrow> service_id list option" where
  "set_available u a [] = None"
| "set_available u a (s # ss) =
     (if service_url s = u then Some (s\<lparr>available := a\<rparr> # ss) else map_option ((#) s) (set_available u a ss))"

definition set_availability_of_service :: "string option \<Rightarrow> event_queue option \<Rightarrow> int \<Rightarrow> int \<times> event_queue option" where
  "set_availability_of_service url eq a = (case (eq, url) of
     (Some q, Some u) \<Rightarrow>
       (if a \<noteq> HPD_YES \<and> a \<noteq> HPD_NO then (HPD_E_NOT_HPD_BOOLEAN, eq)
        else (case set_available u a (service_id_head q) of
           Some ss \<Rightarrow> (HPD_YES, Some (q\<lparr>service_id_head := ss\<rparr>))
         | None \<Rightarrow> (HPD_NO, eq)))
   | _ \<Rightarrow> (HPD_E_EVENT_QUEUE_OR_URL_IS_NULL, eq))"

section \<open>Lemmas\<close>

lemma create_event_Some [simp]: "create_event (Some i) (Some d) = Some \<lparr>eid = Some i, edata = Some d\<rparr>"
  by (simp add: create_event_def)

lemma drop_service_id_None: "drop_service_id u ss = None \<longleftrightarrow> \<not> list_ex (\<lambda>s. service_url s = u) ss"
  by (induction ss) auto

lemma drop_service_id_new:
  "\<not> list_ex (\<lambda>s. service_url s = u) ss \<Longrightarrow> drop_service_id u (ss @ [\<lparr>service_url = u, available = a\<rparr>]) = Some ss"
  by (induction ss) auto

lemma set_available_urls: "set_available u a ss = Some ss' \<Longrightarrow> map service_url ss' = map service_url ss"
  by (induction ss arbitrary: ss') (auto split: if_splits)

lemma set_available_None: "set_available u a ss = None \<longleftrightarrow> \<not> list_ex (\<lambda>s. service_url s = u) ss"
  by (induction ss) auto

text \<open>A session queue takes the events it subscribed to; the global queue takes all that are not logs.\<close>

definition accepts :: "event_queue \<Rightarrow> event \<Rightarrow> bool" where
  "accepts q e = (if eid e = Some ''Log'' then send_log_events q \<noteq> HPD_NO
     else list_ex (\<lambda>s. Some (service_url s) = eid e) (service_id_head q))"

definition complete :: "event \<Rightarrow> bool" where
  "complete e \<longleftrightarrow> eid e \<noteq> None \<and> edata e \<noteq> None"

lemma queue_event_session:
  assumes "complete e"
  shows "queue_event (Some q) (Some e) HPD_NO = Some (0,
    Some (if accepts q e then q\<lparr>event_queue_head := event_queue_head q @ [e]\<rparr> else q),
    accepts q e \<and> is_waiting q = HPD_YES \<and> connection_id q \<noteq> None)"
  using assms by (auto simp: queue_event_def accepts_def complete_def copy_event_def list_ex_iff split: if_splits)

lemma queue_event_global:
  assumes "eid e = Some i"
  shows "queue_event (Some q) (Some e) HPD_YES = Some (0,
    Some (if i = ''Log'' \<and> send_log_events q = HPD_NO then q else q\<lparr>event_queue_head := event_queue_head q @ [e]\<rparr>),
    \<not> (i = ''Log'' \<and> send_log_events q = HPD_NO) \<and> is_waiting q = HPD_YES)"
  using assms by (auto simp: queue_event_def)

lemma dequeue_end_owner:
  assumes "connection_id q = Some c" and "exiting q = HPD_NO" and "event_queue_head q = e # es"
  shows "dequeue_end (Some c) HPD_NO q = Some (Some e, q\<lparr>event_queue_head := es\<rparr>)"
  using assms by (simp add: dequeue_end_def)

text \<open>Posting a list of events, and reading as many events as the queue holds.\<close>

fun post_all :: "event list \<Rightarrow> event_queue \<Rightarrow> event_queue option" where
  "post_all [] q = Some q"
| "post_all (e # es) q = do {
     (rc, q', b) \<leftarrow> queue_event (Some q) (Some e) HPD_NO;
     q1 \<leftarrow> q';
     post_all es q1
   }"

fun read_all :: "nat \<Rightarrow> string \<Rightarrow> event_queue \<Rightarrow> (event list \<times> event_queue) option" where
  "read_all 0 c q = Some ([], q)"
| "read_all (Suc n) c q = do {
     (r, q1) \<leftarrow> dequeue_begin (Some c) HPD_NO q;
     r1 \<leftarrow> r;
     e \<leftarrow> r1;
     (es, q2) \<leftarrow> read_all n c q1;
     Some (e # es, q2)
   }"

lemma post_all_eq:
  "list_all complete es \<Longrightarrow> post_all es q = Some (q\<lparr>event_queue_head := event_queue_head q @ filter (accepts q) es\<rparr>)"
proof (induction es arbitrary: q)
  case (Cons e es)
  have "accepts (q\<lparr>event_queue_head := l\<rparr>) = accepts q" for l by (simp add: accepts_def fun_eq_iff)
  then show ?case using Cons queue_event_session [of e q] by simp
qed simp

lemma read_all_eq:
  "connection_id q = Some c \<Longrightarrow> exiting q = HPD_NO \<Longrightarrow> event_queue_head q = es @ es' \<Longrightarrow>
    read_all (length es) c q = Some (es, q\<lparr>event_queue_head := es'\<rparr>)"
proof (induction es arbitrary: q)
  case (Cons e es)
  then show ?case
    using Cons.IH [of "q\<lparr>event_queue_head := es @ es'\<rparr>"] dequeue_end_owner [of q c e "es @ es'"]
    by (simp add: dequeue_begin_def)
qed simp

section \<open>Properties\<close>

text \<open>
  C22. A session queue is a filter in first-in, first-out order: of the events posted, exactly those that
  it is subscribed to (or the logs, if wanted) are stored behind the ones already there, and its
  connection reads them in this order, each once.
\<close>

theorem event_queue_fifo:
  assumes "list_all complete es" and "connection_id q = Some c" and "exiting q = HPD_NO"
  shows "\<exists>q'. post_all es q = Some q' \<and>
    read_all (length (event_queue_head q')) c q' =
      Some (event_queue_head q @ filter (accepts q) es, q\<lparr>event_queue_head := []\<rparr>)"
  using assms post_all_eq [OF assms(1), of q]
    read_all_eq [of "q\<lparr>event_queue_head := event_queue_head q @ filter (accepts q) es\<rparr>" c
      "event_queue_head q @ filter (accepts q) es" "[]"]
  by simp

theorem event_queue_fifo_witness:
  "\<exists>q'. post_all [\<lparr>eid = Some ''/a'', edata = Some ''1''\<rparr>, \<lparr>eid = Some ''/b'', edata = Some ''2''\<rparr>,
      \<lparr>eid = Some ''/a'', edata = Some ''3''\<rparr>]
    ((create_event_queue ''s'')\<lparr>connection_id := Some ''c'', service_id_head := [\<lparr>service_url = ''/a'', available = 1\<rparr>]\<rparr>) =
      Some q' \<and> map_option fst (read_all 2 ''c'' q') =
      Some [\<lparr>eid = Some ''/a'', edata = Some ''1''\<rparr>, \<lparr>eid = Some ''/a'', edata = Some ''3''\<rparr>]"
proof -
  let ?q = "(create_event_queue ''s'')\<lparr>connection_id := Some ''c'', service_id_head := [\<lparr>service_url = ''/a'', available = 1\<rparr>]\<rparr>"
  let ?es = "[\<lparr>eid = Some ''/a'', edata = Some ''1''\<rparr>, \<lparr>eid = Some ''/b'', edata = Some ''2''\<rparr>,
      \<lparr>eid = Some ''/a'', edata = Some ''3''\<rparr>]"
  have "list_all complete ?es" "connection_id ?q = Some ''c''" "exiting ?q = HPD_NO"
    by (simp_all add: complete_def create_event_queue_def)
  from event_queue_fifo [OF this] obtain q' where q': "post_all ?es ?q = Some q'"
    "read_all (length (event_queue_head q')) ''c'' q' =
      Some (event_queue_head ?q @ filter (accepts ?q) ?es, ?q\<lparr>event_queue_head := []\<rparr>)" by blast
  moreover have "length (event_queue_head q') = 2"
    using q'(1) post_all_eq [OF \<open>list_all complete ?es\<close>, of ?q] by (simp add: accepts_def create_event_queue_def)
  ultimately show ?thesis by (simp add: accepts_def create_event_queue_def)
qed

text \<open>
  A waiting thread that wakes up although no event was queued removes the first node of an empty
  list: the wait of \<open>dequeue_event\<close> is not repeated.
\<close>

theorem spurious_wakeup_crashes:
  assumes "dequeue_begin conn g q = Some (None, q')" and "exiting q \<noteq> HPD_YES"
    and "\<forall>c. conn = Some c \<longrightarrow> g = HPD_NO \<longrightarrow> connection_id q = conn"
  shows "dequeue_wake conn g q' = None"
  using assms by (auto simp: dequeue_begin_def dequeue_wake_def dequeue_end_def split: if_splits option.splits)

theorem spurious_wakeup_crashes_witness:
  "dequeue_wake None HPD_YES ((create_event_queue ''g'')\<lparr>is_waiting := HPD_YES\<rparr>) = None"
  using spurious_wakeup_crashes [of None HPD_YES "create_event_queue ''g''" "(create_event_queue ''g'')\<lparr>is_waiting := HPD_YES\<rparr>"]
  by (simp add: dequeue_begin_def create_event_queue_def)

end
