(* ===== verification/Registry.thy ===== *)
theory Registry
  imports HP_Prelude
begin

text \<open>
  The contract of a register of entries with keys: adding, removing and asking. The lists of services of
  the two web servers and the XML description of the services provide it; what a sequence of guarded
  operations does to the set of keys is shown once, for every provider.
\<close>

text \<open>An operation is skipped when its guard fails: \<open>True\<close> adds, \<open>False\<close> removes.\<close>

definition guarded :: "('e \<Rightarrow> 's \<Rightarrow> bool) \<Rightarrow> ('e \<Rightarrow> 's \<Rightarrow> 's) \<Rightarrow> ('e \<Rightarrow> 's \<Rightarrow> 's) \<Rightarrow> bool \<times> 'e \<Rightarrow> 's \<Rightarrow> 's" where
  "guarded mem add del = (\<lambda>(b, e) s. if b then (if mem e s then s else add e s) else (if mem e s then del e s else s))"

definition track :: "('e \<Rightarrow> 'k) \<Rightarrow> bool \<times> 'e \<Rightarrow> 'k set \<Rightarrow> 'k set" where
  "track key = (\<lambda>(b, e) K. if b then insert (key e) K else K - {key e})"

locale registry =
  fixes wf :: "'s \<Rightarrow> bool"
    and keys :: "'s \<Rightarrow> 'k set"
    and key :: "'e \<Rightarrow> 'k"
    and ok :: "'e \<Rightarrow> bool"
    and add :: "'e \<Rightarrow> 's \<Rightarrow> 's"
    and del :: "'e \<Rightarrow> 's \<Rightarrow> 's"
    and mem :: "'e \<Rightarrow> 's \<Rightarrow> bool"
  assumes mem_iff: "wf s \<Longrightarrow> ok e \<Longrightarrow> mem e s \<longleftrightarrow> key e \<in> keys s"
    and add_wf: "wf s \<Longrightarrow> ok e \<Longrightarrow> \<not> mem e s \<Longrightarrow> wf (add e s)"
    and add_keys: "wf s \<Longrightarrow> ok e \<Longrightarrow> \<not> mem e s \<Longrightarrow> keys (add e s) = insert (key e) (keys s)"
    and del_wf: "wf s \<Longrightarrow> ok e \<Longrightarrow> mem e s \<Longrightarrow> wf (del e s)"
    and del_keys: "wf s \<Longrightarrow> ok e \<Longrightarrow> mem e s \<Longrightarrow> keys (del e s) = keys s - {key e}"
begin

lemma step_keys:
  assumes "wf s" and "ok e"
  shows "wf (guarded mem add del (b, e) s) \<and> keys (guarded mem add del (b, e) s) = track key (b, e) (keys s)"
  using assms mem_iff add_wf add_keys del_wf del_keys by (auto simp: guarded_def track_def)

lemma replay:
  "wf s \<Longrightarrow> list_all (\<lambda>(b, e). ok e) ops \<Longrightarrow>
    wf (fold (guarded mem add del) ops s) \<and> keys (fold (guarded mem add del) ops s) = fold (track key) ops (keys s)"
proof (induction ops arbitrary: s)
  case (Cons op ops)
  obtain b e where op: "op = (b, e)" by (cases op)
  then have "wf s" "ok e" using Cons.prems by auto
  then show ?case using Cons step_keys [of s e b] by (simp add: op)
qed simp

lemma add_then_del:
  assumes "wf s" and "ok e" and "\<not> mem e s"
  shows "mem e (add e s) \<and> keys (del e (add e s)) = keys s"
  using assms mem_iff add_wf add_keys del_keys by auto

end

text \<open>A list of entries with different keys, which are appended and unlinked, is a register.\<close>

definition list_wf :: "('e \<Rightarrow> bool) \<Rightarrow> ('e \<Rightarrow> 'k) \<Rightarrow> 'e list \<Rightarrow> bool" where
  "list_wf ok key l \<longleftrightarrow> list_all ok l \<and> distinct (map key l)"

lemma filter_find_remove1:
  "distinct (map key l) \<Longrightarrow>
    filter (\<lambda>e. key e \<noteq> k) l = (case find (\<lambda>e. key e = k) l of None \<Rightarrow> l | Some i \<Rightarrow> remove1 i l)"
proof (induction l)
  case (Cons a l)
  show ?case
  proof (cases "key a = k")
    case True
    then have "filter (\<lambda>e. key e \<noteq> k) l = l"
      using Cons.prems unfolding filter_id_conv by (metis distinct.simps(2) image_eqI list.map(2) set_map)
    then show ?thesis using True by simp
  next
    case False
    show ?thesis
    proof (cases "find (\<lambda>e. key e = k) l")
      case (Some i)
      then have "key i = k" by (auto simp: find_Some_iff)
      then show ?thesis using Cons False Some by auto
    qed (use Cons False in simp)
  qed
qed simp

lemma list_registry:
  assumes wf: "\<And>l. W l \<longleftrightarrow> on \<and> list_wf ok key l"
    and mem: "\<And>l e. W l \<Longrightarrow> ok e \<Longrightarrow> mem e l \<longleftrightarrow> key e \<in> key ` set l"
    and add: "\<And>l e. W l \<Longrightarrow> ok e \<Longrightarrow> add e l = l @ [e]"
    and del: "\<And>l e. W l \<Longrightarrow> ok e \<Longrightarrow> del e l = filter (\<lambda>x. key x \<noteq> key e) l"
  shows "registry W (\<lambda>l. key ` set l) key ok add del mem"
  by unfold_locales (auto simp: mem add del wf list_wf_def list_all_iff distinct_map_filter)

end
