(* ===== verification/HpdXml.thy ===== *)
theory HpdXml
  imports HpdObjects HpdEvents Registry
begin

text \<open>
  The XML description of the registered services (\<open>hpdaemon/hpd_xml.c\<close>), kept as a tree of the Mini-XML
  library and saved to \<open>services.xml\<close> after every change.

  The tree has one \<open>devicelist\<close> with \<open>device\<close> elements, these have \<open>service\<close> elements, and these
  \<open>parameter\<close> elements; it is a nested list here. Of Mini-XML the code uses the attributes of an
  element by name, a new element at the end of its parent, the removal of an element, and the search in
  document order. A node is its position. A missing attribute is a \<open>NULL\<close> for \<open>strcmp\<close>, a crash
  (\<open>None\<close>). Texts of a tree, which Mini-XML prints and parses, stay trees.
\<close>

abbreviation (input) HPD_E_SERVICE_NOT_IN_LIST :: int where "HPD_E_SERVICE_NOT_IN_LIST \<equiv> -15"
abbreviation (input) HPD_E_DEVICE_ALREADY_IN_XML :: int where "HPD_E_DEVICE_ALREADY_IN_XML \<equiv> -35"
abbreviation (input) HPD_E_SERVICE_ALREADY_IN_XML :: int where "HPD_E_SERVICE_ALREADY_IN_XML \<equiv> -36"
abbreviation (input) HPD_E_IMPOSSIBLE_TO_RETRIEVE_DEVICE_XML_NODE :: int where
  "HPD_E_IMPOSSIBLE_TO_RETRIEVE_DEVICE_XML_NODE \<equiv> -37"
abbreviation (input) HPD_E_IMPOSSIBLE_TO_RETRIEVE_SERVICE_XML_NODE :: int where
  "HPD_E_IMPOSSIBLE_TO_RETRIEVE_SERVICE_XML_NODE \<equiv> -38"

type_synonym attributes = "(string \<times> string) list"

record xml_service =
  service_attrs :: attributes
  service_parameters :: "attributes list"

record xml_device =
  device_attrs :: attributes
  device_services :: "xml_service list"

text \<open>\<open>saved\<close> is the content of the file, \<open>writable\<close> says whether it can be opened.\<close>

record xml_file =
  list_attrs :: attributes
  xml_tree :: "xml_device list"
  saved :: "xml_device list option"
  writable :: bool

text \<open>The attributes of an element: those that are not \<open>NULL\<close>, in the order in which they are set.\<close>

definition attrs :: "(string \<times> string option) list \<Rightarrow> attributes" where
  "attrs xs = [(n, the v). (n, v) \<leftarrow> xs, v \<noteq> None]"

fun search_idx :: "('a \<Rightarrow> bool option) \<Rightarrow> 'a list \<Rightarrow> nat option option" where
  "search_idx P [] = Some None"
| "search_idx P (x # xs) = do { b \<leftarrow> P x; (if b then Some (Some 0) else map_option (map_option Suc) (search_idx P xs)) }"

definition has_key :: "string \<Rightarrow> string \<Rightarrow> attributes \<Rightarrow> bool option" where
  "has_key ty i as = do {
     t \<leftarrow> map_of as ''type'';
     (if t = ty then do { j \<leftarrow> map_of as ''id''; Some (j = i) } else Some False)
   }"

section \<open>The file\<close>

definition save_xml_tree :: "xml_file \<Rightarrow> xml_file" where
  "save_xml_tree x = (if writable x then x\<lparr>saved := Some (xml_tree x)\<rparr> else x)"

definition init_xml_file :: "string \<Rightarrow> string \<Rightarrow> bool \<Rightarrow> int \<times> xml_file" where
  "init_xml_file name i w = (0, save_xml_tree
     \<lparr>list_attrs = [(''name'', name), (''id'', i), (''xmlns:xsi'', ''http://www.w3.org/2001/XMLSchema-instance''),
        (''xsi:noNamespaceSchemaLocation'', ''http://cs.au.dk/dithus/xml/devicedescription.xsd'')],
      xml_tree = [], saved = None, writable = w\<rparr>)"

section \<open>Finding devices and services\<close>

definition get_xml_node_of_device :: "device \<Rightarrow> xml_file \<Rightarrow> nat option option" where
  "get_xml_node_of_device dv x = search_idx (\<lambda>d. has_key (dtype dv) (dID dv) (device_attrs d)) (xml_tree x)"

definition device_is_in_xml_file :: "device \<Rightarrow> xml_file \<Rightarrow> int option" where
  "device_is_in_xml_file dv x = do {
     k \<leftarrow> search_idx (\<lambda>d. has_key (dtype dv) (dID dv) (device_attrs d)) (xml_tree x);
     Some (if k \<noteq> None then HPD_YES else HPD_NO)
   }"

text \<open>The nested loops over all devices with the type and ID of the device, and their services.\<close>

fun find_service :: "device \<Rightarrow> string \<Rightarrow> string \<Rightarrow> xml_device list \<Rightarrow> (nat \<times> nat) option option" where
  "find_service dv ty i [] = Some None"
| "find_service dv ty i (d # ds) = do {
     b \<leftarrow> has_key (dtype dv) (dID dv) (device_attrs d);
     j \<leftarrow> (if b then search_idx (\<lambda>s. has_key ty i (service_attrs s)) (device_services d) else Some None);
     (case j of
        Some n \<Rightarrow> Some (Some (0, n))
      | None \<Rightarrow> map_option (map_option (map_prod Suc id)) (find_service dv ty i ds))
   }"

definition service_is_in_xml_file :: "device \<Rightarrow> string \<Rightarrow> string \<Rightarrow> xml_file \<Rightarrow> int option" where
  "service_is_in_xml_file dv ty i x = do {
     r \<leftarrow> device_is_in_xml_file dv x;
     (if r = HPD_NO then Some HPD_NO
      else do {
        n \<leftarrow> get_xml_node_of_device dv x;
        (case n of
           None \<Rightarrow> Some HPD_E_IMPOSSIBLE_TO_RETRIEVE_DEVICE_XML_NODE
         | Some _ \<Rightarrow> do {
             k \<leftarrow> find_service dv ty i (xml_tree x);
             Some (if k \<noteq> None then HPD_YES else HPD_NO)
           })
      })
   }"

definition get_xml_node_of_service :: "device \<Rightarrow> string \<Rightarrow> string \<Rightarrow> xml_file \<Rightarrow> (nat \<times> nat) option option" where
  "get_xml_node_of_service dv ty i x = do {
     r \<leftarrow> device_is_in_xml_file dv x;
     (if r = HPD_NO then Some None
      else do {
        n \<leftarrow> get_xml_node_of_device dv x;
        (case n of None \<Rightarrow> Some None | Some _ \<Rightarrow> find_service dv ty i (xml_tree x))
      })
   }"

section \<open>Adding and removing\<close>

definition device_attributes :: "device \<Rightarrow> attributes" where
  "device_attributes dv = attrs [(''desc'', ddescription dv), (''id'', Some (dID dv)), (''vendorID'', vendorID dv),
     (''productID'', productID dv), (''version'', dversion dv), (''ip'', IP dv), (''port'', dport dv),
     (''location'', location dv), (''type'', Some (dtype dv))]"

definition service_attributes :: "service \<Rightarrow> string \<Rightarrow> attributes" where
  "service_attributes sv ty = attrs [(''desc'', sdescription sv), (''id'', Some (sID sv)),
     (''value_url'', Some (value_url sv)), (''type'', Some ty), (''unit'', sunit sv)]"

definition parameter_attributes :: "parameter \<Rightarrow> attributes" where
  "parameter_attributes p = attrs [(''id'', Some (pID p)), (''max'', pmax p), (''min'', pmin p), (''scale'', pscale p),
     (''step'', pstep p), (''type'', ptype p), (''unit'', punit p), (''values'', pvalues p)]"

fun parameter_elements :: "hpd \<Rightarrow> addr list \<Rightarrow> attributes list option" where
  "parameter_elements m [] = Some []"
| "parameter_elements m (a # as) = do {
     p \<leftarrow> parameters m a;
     es \<leftarrow> parameter_elements m as;
     Some (parameter_attributes p # es)
   }"

definition add_device_to_xml :: "device \<Rightarrow> xml_file \<Rightarrow> (int \<times> xml_file) option" where
  "add_device_to_xml dv x = do {
     r \<leftarrow> device_is_in_xml_file dv x;
     (if r = HPD_YES then Some (HPD_E_DEVICE_ALREADY_IN_XML, x)
      else Some (0, save_xml_tree
        (x\<lparr>xml_tree := xml_tree x @ [\<lparr>device_attrs = device_attributes dv, device_services = []\<rparr>]\<rparr>)))
   }"

definition the_device :: "hpd \<Rightarrow> addr \<Rightarrow> (service \<times> device \<times> string) option" where
  "the_device m s = do {
     sv \<leftarrow> services m s;
     d \<leftarrow> sdevice sv;
     dv \<leftarrow> devices m d;
     t \<leftarrow> str_at m (stype sv);
     Some (sv, dv, t)
   }"

definition add_service_to_xml :: "hpd \<Rightarrow> addr \<Rightarrow> xml_file \<Rightarrow> (int \<times> xml_file) option" where
  "add_service_to_xml m s x = do {
     (sv, dv, ty) \<leftarrow> the_device m s;
     r \<leftarrow> service_is_in_xml_file dv ty (sID sv) x;
     (if r = HPD_YES then Some (HPD_E_SERVICE_ALREADY_IN_XML, x)
      else do {
        r1 \<leftarrow> device_is_in_xml_file dv x;
        x1 \<leftarrow> (if r1 = HPD_NO then map_option snd (add_device_to_xml dv x) else Some x);
        n \<leftarrow> get_xml_node_of_device dv x1;
        (case n of
           None \<Rightarrow> Some (HPD_E_IMPOSSIBLE_TO_RETRIEVE_DEVICE_XML_NODE, x1)
         | Some k \<Rightarrow> do {
             ps \<leftarrow> parameter_elements m (parameter_list sv);
             let d = xml_tree x1 ! k;
             let e = \<lparr>service_attrs = service_attributes sv ty, service_parameters = ps\<rparr>;
             Some (0, save_xml_tree (x1\<lparr>xml_tree := (xml_tree x1)[k := d\<lparr>device_services := device_services d @ [e]\<rparr>]\<rparr>))
           })
      })
   }"

definition remove_at :: "nat \<Rightarrow> 'a list \<Rightarrow> 'a list" where
  "remove_at n xs = take n xs @ drop (Suc n) xs"

definition remove_service_from_XML :: "hpd \<Rightarrow> addr \<Rightarrow> xml_file \<Rightarrow> (int \<times> xml_file) option" where
  "remove_service_from_XML m s x = do {
     (sv, dv, ty) \<leftarrow> the_device m s;
     r \<leftarrow> service_is_in_xml_file dv ty (sID sv) x;
     (if r = HPD_NO then Some (HPD_E_SERVICE_NOT_IN_LIST, x)
      else do {
        n \<leftarrow> get_xml_node_of_service dv ty (sID sv) x;
        (case n of
           None \<Rightarrow> Some (HPD_E_IMPOSSIBLE_TO_RETRIEVE_SERVICE_XML_NODE, x)
         | Some (k, j) \<Rightarrow>
             let d = xml_tree x ! k in
             Some (HPD_YES, save_xml_tree
               (x\<lparr>xml_tree := (xml_tree x)[k := d\<lparr>device_services := remove_at j (device_services d)\<rparr>]\<rparr>)))
      })
   }"

definition remove_device_from_XML :: "device \<Rightarrow> xml_file \<Rightarrow> (int \<times> xml_file) option" where
  "remove_device_from_XML dv x = do {
     r \<leftarrow> device_is_in_xml_file dv x;
     (if r = HPD_NO then Some (HPD_E_SERVICE_NOT_IN_LIST, x)
      else do {
        n \<leftarrow> get_xml_node_of_device dv x;
        (case n of
           None \<Rightarrow> Some (HPD_E_IMPOSSIBLE_TO_RETRIEVE_DEVICE_XML_NODE, x)
         | Some k \<Rightarrow> Some (HPD_YES, save_xml_tree (x\<lparr>xml_tree := remove_at k (xml_tree x)\<rparr>)))
      })
   }"

section \<open>Answers\<close>

text \<open>The description of one service: its own attributes, those of its device, and its parameters.\<close>

definition extract_service_xml :: "hpd \<Rightarrow> addr \<Rightarrow> xml_file \<Rightarrow> (attributes \<times> attributes \<times> attributes list) option option" where
  "extract_service_xml m s x = do {
     (sv, dv, ty) \<leftarrow> the_device m s;
     r \<leftarrow> service_is_in_xml_file dv ty (sID sv) x;
     (if r = HPD_NO then Some None
      else do {
        ps \<leftarrow> parameter_elements m (parameter_list sv);
        Some (Some (service_attributes sv ty, device_attributes dv, ps))
      })
   }"

definition get_xml_device_list :: "xml_file \<Rightarrow> attributes \<times> xml_device list" where
  "get_xml_device_list x = (list_attrs x, xml_tree x)"

text \<open>The elements of the small answers: name, attributes and text.\<close>

definition get_xml_value :: "string \<Rightarrow> string \<Rightarrow> string \<times> attributes \<times> string" where
  "get_xml_value now value = (''value'', [(''timestamp'', now)], value)"

definition get_xml_subscription :: "string \<Rightarrow> string \<Rightarrow> string \<Rightarrow> string \<times> attributes \<times> string" where
  "get_xml_subscription now value url = (''subscription'', [(''timestamp'', now), (''url'', url)], value)"

text \<open>
  The time stamp, from the fields of \<open>struct tm\<close>. The result is written to a static buffer of 25 bytes;
  a text that does not fit there, or an index outside the tables of names, is a crash.
\<close>

definition wday_name :: "string list" where
  "wday_name = [''Sun'', ''Mon'', ''Tue'', ''Wed'', ''Thu'', ''Fri'', ''Sat'']"

definition mon_name :: "string list" where
  "mon_name = [''Jan'', ''Feb'', ''Mar'', ''Apr'', ''May'', ''Jun'', ''Jul'', ''Aug'', ''Sep'', ''Oct'', ''Nov'', ''Dec'']"

definition pad :: "char \<Rightarrow> nat \<Rightarrow> string \<Rightarrow> string" where
  "pad c w s = replicate (w - length s) c @ s"

definition timestamp :: "nat \<Rightarrow> nat \<Rightarrow> nat \<Rightarrow> nat \<Rightarrow> nat \<Rightarrow> nat \<Rightarrow> nat \<Rightarrow> string option" where
  "timestamp wday mon mday hour mn sec year =
     (if wday < 7 \<and> mon < 12 then
        let r = wday_name ! wday @ '' '' @ mon_name ! mon @ pad (CHR '' '') 3 (decimal mday) @ '' '' @
          pad (CHR ''0'') 2 (decimal hour) @ '':'' @ pad (CHR ''0'') 2 (decimal mn) @ '':'' @
          pad (CHR ''0'') 2 (decimal sec) @ '' '' @ decimal (1900 + year)
        in if length r < 25 then Some r else None
      else None)"

section \<open>The services that a tree describes\<close>

type_synonym service_key = "string \<times> string \<times> string \<times> string"

definition named :: "attributes \<Rightarrow> bool" where
  "named as \<longleftrightarrow> map_of as ''type'' \<noteq> None \<and> map_of as ''id'' \<noteq> None"

definition name_of :: "attributes \<Rightarrow> string \<times> string" where
  "name_of as = (the (map_of as ''type''), the (map_of as ''id''))"

definition device_keys :: "xml_device \<Rightarrow> service_key set" where
  "device_keys d = (\<lambda>s. (fst (name_of (device_attrs d)), snd (name_of (device_attrs d)),
     fst (name_of (service_attrs s)), snd (name_of (service_attrs s)))) ` set (device_services d)"

definition xml_keys :: "xml_file \<Rightarrow> service_key set" where
  "xml_keys x = \<Union> (device_keys ` set (xml_tree x))"

definition device_wf :: "xml_device \<Rightarrow> bool" where
  "device_wf d \<longleftrightarrow> named (device_attrs d) \<and> list_all (\<lambda>s. named (service_attrs s)) (device_services d) \<and>
     distinct (map (name_of \<circ> service_attrs) (device_services d))"

definition tree_wf :: "xml_device list \<Rightarrow> bool" where
  "tree_wf ds \<longleftrightarrow> list_all device_wf ds \<and> distinct (map (name_of \<circ> device_attrs) ds)"

definition xml_wf :: "xml_file \<Rightarrow> bool" where
  "xml_wf x \<longleftrightarrow> tree_wf (xml_tree x)"

lemma has_key_named: "named as \<Longrightarrow> has_key ty i as = Some (name_of as = (ty, i))"
  by (auto simp: named_def name_of_def has_key_def)

lemma search_idx_total:
  "list_all (\<lambda>e. P e = Some (Q e)) xs \<Longrightarrow>
    \<exists>r. search_idx P xs = Some r \<and> (case r of None \<Rightarrow> \<not> list_ex Q xs | Some n \<Rightarrow> n < length xs \<and> Q (xs ! n))"
proof (induction xs)
  case (Cons x xs)
  then obtain r where "search_idx P xs = Some r"
    "case r of None \<Rightarrow> \<not> list_ex Q xs | Some n \<Rightarrow> n < length xs \<and> Q (xs ! n)" by auto
  then show ?case using Cons.prems by (cases "Q x"; cases r) auto
qed simp

lemma search_device:
  assumes "list_all device_wf ds"
  shows "\<exists>r. search_idx (\<lambda>d. has_key ty i (device_attrs d)) ds = Some r \<and>
    (case r of None \<Rightarrow> (ty, i) \<notin> (name_of \<circ> device_attrs) ` set ds
     | Some n \<Rightarrow> n < length ds \<and> name_of (device_attrs (ds ! n)) = (ty, i))"
proof -
  have "list_all (\<lambda>d. has_key ty i (device_attrs d) = Some (name_of (device_attrs d) = (ty, i))) ds"
    using assms by (auto simp: list_all_iff device_wf_def has_key_named)
  from search_idx_total [OF this] show ?thesis by (force simp: list_ex_iff split: option.splits)
qed

lemma search_service:
  assumes "device_wf d"
  shows "\<exists>r. search_idx (\<lambda>s. has_key ty i (service_attrs s)) (device_services d) = Some r \<and>
    (case r of None \<Rightarrow> (ty, i) \<notin> (name_of \<circ> service_attrs) ` set (device_services d)
     | Some n \<Rightarrow> n < length (device_services d) \<and> name_of (service_attrs (device_services d ! n)) = (ty, i))"
proof -
  have "list_all (\<lambda>s. has_key ty i (service_attrs s) = Some (name_of (service_attrs s) = (ty, i))) (device_services d)"
    using assms by (auto simp: list_all_iff device_wf_def has_key_named)
  from search_idx_total [OF this] show ?thesis by (force simp: list_ex_iff split: option.splits)
qed

lemma device_keys_iff:
  "(t, i, st, si) \<in> device_keys d \<longleftrightarrow>
    name_of (device_attrs d) = (t, i) \<and> (st, si) \<in> (name_of \<circ> service_attrs) ` set (device_services d)"
  by (force simp: device_keys_def)

lemma find_service_total:
  assumes "list_all device_wf ds"
  shows "\<exists>r. find_service dv ty i ds = Some r \<and>
    (case r of None \<Rightarrow> (dtype dv, dID dv, ty, i) \<notin> \<Union> (device_keys ` set ds)
     | Some (k, j) \<Rightarrow> k < length ds \<and> j < length (device_services (ds ! k)) \<and>
         name_of (device_attrs (ds ! k)) = (dtype dv, dID dv) \<and>
         name_of (service_attrs (device_services (ds ! k) ! j)) = (ty, i))"
  using assms
proof (induction ds)
  case (Cons d ds)
  then have d: "device_wf d" "has_key (dtype dv) (dID dv) (device_attrs d) = Some (name_of (device_attrs d) = (dtype dv, dID dv))"
    by (auto simp: device_wf_def has_key_named)
  obtain r where r: "find_service dv ty i ds = Some r"
    "case r of None \<Rightarrow> (dtype dv, dID dv, ty, i) \<notin> \<Union> (device_keys ` set ds)
     | Some (k, j) \<Rightarrow> k < length ds \<and> j < length (device_services (ds ! k)) \<and>
         name_of (device_attrs (ds ! k)) = (dtype dv, dID dv) \<and>
         name_of (service_attrs (device_services (ds ! k) ! j)) = (ty, i)"
    using Cons by auto
  obtain q where q: "search_idx (\<lambda>s. has_key ty i (service_attrs s)) (device_services d) = Some q"
    "case q of None \<Rightarrow> (ty, i) \<notin> (name_of \<circ> service_attrs) ` set (device_services d)
     | Some n \<Rightarrow> n < length (device_services d) \<and> name_of (service_attrs (device_services d ! n)) = (ty, i)"
    using search_service [OF d(1)] by blast
  show ?case
    using d(2) r q by (cases q; cases r) (auto simp: device_keys_iff)
qed simp

lemma attrs_simps [simp]:
  "attrs [] = []" "attrs ((k, None) # xs) = attrs xs" "attrs ((k, Some v) # xs) = (k, v) # attrs xs"
  by (simp_all add: attrs_def)

lemma map_of_attrs_None: "n \<notin> fst ` set xs \<Longrightarrow> map_of (attrs xs) n = None"
  by (induction xs rule: list.induct) (auto simp: attrs_def)

lemma map_of_attrs:
  "distinct (map fst xs) \<Longrightarrow> map_of (attrs xs) n = (case map_of xs n of Some v \<Rightarrow> v | None \<Rightarrow> None)"
proof (induction xs)
  case (Cons x xs)
  obtain k v where x: "x = (k, v)" by (cases x)
  show ?case
  proof (cases "n = k")
    case True
    then have "map_of (attrs xs) n = None" using Cons.prems x by (intro map_of_attrs_None) auto
    then show ?thesis using x True by (cases v) auto
  next
    case False
    then show ?thesis using Cons x by (cases v) auto
  qed
qed simp

lemma device_attributes_name: "named (device_attributes dv)" "name_of (device_attributes dv) = (dtype dv, dID dv)"
  by (simp_all add: named_def name_of_def device_attributes_def map_of_attrs)

lemma service_attributes_name: "named (service_attributes sv ty)" "name_of (service_attributes sv ty) = (ty, sID sv)"
  by (simp_all add: named_def name_of_def service_attributes_def map_of_attrs)

lemma found_key:
  assumes "k < length ds" and "j < length (device_services (ds ! k))" and "name_of (device_attrs (ds ! k)) = (t, i)"
    and "name_of (service_attrs (device_services (ds ! k) ! j)) = (st, si)"
  shows "(t, i, st, si) \<in> \<Union> (device_keys ` set ds)"
proof -
  have "(st, si) \<in> (name_of \<circ> service_attrs) ` set (device_services (ds ! k))"
    using assms(2,4) nth_mem by (metis comp_apply image_eqI)
  then have "(t, i, st, si) \<in> device_keys (ds ! k)" using assms(3) by (simp add: device_keys_iff)
  then show ?thesis using assms(1) nth_mem by blast
qed

lemma service_is_in_eq:
  assumes "xml_wf x"
  shows "service_is_in_xml_file dv ty i x =
    Some (if (dtype dv, dID dv, ty, i) \<in> xml_keys x then HPD_YES else HPD_NO)"
proof -
  have wf: "list_all device_wf (xml_tree x)" using assms by (simp add: xml_wf_def tree_wf_def)
  obtain r where r: "search_idx (\<lambda>d. has_key (dtype dv) (dID dv) (device_attrs d)) (xml_tree x) = Some r"
    "case r of None \<Rightarrow> (dtype dv, dID dv) \<notin> (name_of \<circ> device_attrs) ` set (xml_tree x)
     | Some n \<Rightarrow> n < length (xml_tree x) \<and> name_of (device_attrs (xml_tree x ! n)) = (dtype dv, dID dv)"
    using search_device [OF wf] by blast
  obtain q where q: "find_service dv ty i (xml_tree x) = Some q"
    "case q of None \<Rightarrow> (dtype dv, dID dv, ty, i) \<notin> \<Union> (device_keys ` set (xml_tree x))
     | Some (k, j) \<Rightarrow> k < length (xml_tree x) \<and> j < length (device_services (xml_tree x ! k)) \<and>
         name_of (device_attrs (xml_tree x ! k)) = (dtype dv, dID dv) \<and>
         name_of (service_attrs (device_services (xml_tree x ! k) ! j)) = (ty, i)"
    using find_service_total [OF wf] by blast
  have "(dtype dv, dID dv, ty, i) \<in> xml_keys x" if "q = Some (k, j)" for k j
    unfolding xml_keys_def by (rule found_key [of k _ j]) (use q(2) that in auto)
  moreover have "(dtype dv, dID dv, ty, i) \<notin> xml_keys x" if "r = None"
    using r(2) that by (force simp: xml_keys_def device_keys_iff)
  ultimately show ?thesis
    using r(1) q by (cases r; cases q)
      (auto simp: service_is_in_xml_file_def device_is_in_xml_file_def get_xml_node_of_device_def xml_keys_def)
qed


definition tree_keys :: "xml_device list \<Rightarrow> service_key set" where
  "tree_keys ds = \<Union> (device_keys ` set ds)"

lemma add_at:
  assumes "tree_wf ds" and "k < length ds" and "name_of (device_attrs (ds ! k)) = (t, i)"
    and "named (service_attrs e)" and "name_of (service_attrs e) = (st, si)" and "(t, i, st, si) \<notin> tree_keys ds"
  shows "tree_wf (ds[k := (ds ! k)\<lparr>device_services := device_services (ds ! k) @ [e]\<rparr>]) \<and>
    tree_keys (ds[k := (ds ! k)\<lparr>device_services := device_services (ds ! k) @ [e]\<rparr>]) = insert (t, i, st, si) (tree_keys ds)"
proof -
  obtain as bs where ds: "ds = as @ (ds ! k) # bs" "length as = k"
    using id_take_nth_drop [OF assms(2)] assms(2) by (metis length_take min.absorb4)
  let ?d = "ds ! k"
  let ?d' = "?d\<lparr>device_services := device_services ?d @ [e]\<rparr>"
  have upd: "ds[k := ?d'] = as @ ?d' # bs" using ds by (metis list_update_length)
  have keys: "device_keys ?d' = insert (t, i, st, si) (device_keys ?d)"
    using assms(3,5) by (auto simp: device_keys_def)
  have "(t, i, st, si) \<notin> device_keys ?d" using assms(2,6) by (auto simp: tree_keys_def)
  then have "(st, si) \<notin> (name_of \<circ> service_attrs) ` set (device_services ?d)"
    using assms(3) by (simp add: device_keys_iff)
  moreover have "device_wf ?d" using assms(1,2) by (simp add: tree_wf_def list_all_length)
  ultimately have "device_wf ?d'" using assms(4,5) by (auto simp: device_wf_def)
  moreover have "tree_wf (as @ ?d # bs)" using assms(1) ds(1) by simp
  ultimately have "tree_wf (as @ ?d' # bs)" by (auto simp: tree_wf_def)
  moreover have "tree_keys (as @ ?d' # bs) = insert (t, i, st, si) (tree_keys (as @ ?d # bs))"
    using keys by (auto simp: tree_keys_def)
  ultimately show ?thesis using upd ds(1) by simp
qed

lemma remove_at_append [simp]: "remove_at (length as) (as @ x # bs) = as @ bs"
  by (simp add: remove_at_def)

lemma delete_at:
  assumes "tree_wf ds" and "k < length ds" and "name_of (device_attrs (ds ! k)) = (t, i)"
    and "j < length (device_services (ds ! k))" and "name_of (service_attrs (device_services (ds ! k) ! j)) = (st, si)"
  shows "tree_wf (ds[k := (ds ! k)\<lparr>device_services := remove_at j (device_services (ds ! k))\<rparr>]) \<and>
    tree_keys (ds[k := (ds ! k)\<lparr>device_services := remove_at j (device_services (ds ! k))\<rparr>]) = tree_keys ds - {(t, i, st, si)}"
proof -
  obtain as bs where ds: "ds = as @ (ds ! k) # bs" "length as = k"
    using id_take_nth_drop [OF assms(2)] assms(2) by (metis length_take min.absorb4)
  let ?d = "ds ! k"
  obtain cs es where ss: "device_services ?d = cs @ (device_services ?d ! j) # es" "length cs = j"
    using id_take_nth_drop [OF assms(4)] assms(4) by (metis length_take min.absorb4)
  let ?s = "device_services ?d ! j"
  let ?d' = "?d\<lparr>device_services := cs @ es\<rparr>"
  have rem: "remove_at j (device_services ?d) = cs @ es" using ss remove_at_append by metis
  have upd: "ds[k := ?d'] = as @ ?d' # bs" using ds by (metis list_update_length)
  have wf: "tree_wf (as @ ?d # bs)" using assms(1) ds(1) by simp
  then have dwf: "device_wf ?d" by (simp add: tree_wf_def)
  have "distinct (map (name_of \<circ> service_attrs) (cs @ ?s # es))" using dwf ss(1) by (simp add: device_wf_def)
  then have "(st, si) \<notin> (name_of \<circ> service_attrs) ` (set cs \<union> set es)" using assms(5) by auto
  moreover have "set (device_services ?d) = insert ?s (set cs \<union> set es)" by (subst ss(1)) simp
  ultimately have "device_keys ?d' = device_keys ?d - {(t, i, st, si)}"
    using assms(3,5) by (auto simp: device_keys_def)
  moreover have "(t, i, st, si) \<notin> tree_keys as \<union> tree_keys bs"
    using wf assms(3) by (force simp: tree_wf_def tree_keys_def device_keys_iff)
  ultimately have "tree_keys (as @ ?d' # bs) = tree_keys (as @ ?d # bs) - {(t, i, st, si)}"
    by (auto simp: tree_keys_def)
  moreover have "list_all (\<lambda>s. named (service_attrs s)) (cs @ ?s # es)" "distinct (map (name_of \<circ> service_attrs) (cs @ ?s # es))"
    using dwf ss(1) by (simp_all add: device_wf_def)
  then have "device_wf ?d'" using dwf by (auto simp: device_wf_def)
  then have "tree_wf (as @ ?d' # bs)" using wf by (auto simp: tree_wf_def)
  ultimately show ?thesis using upd ds(1) rem by simp
qed


lemma xml_keys_tree: "xml_keys x = tree_keys (xml_tree x)"
  by (simp add: xml_keys_def tree_keys_def)

lemma save_sel [simp]:
  "xml_tree (save_xml_tree x) = xml_tree x" "writable (save_xml_tree x) = writable x"
  "writable x \<Longrightarrow> saved (save_xml_tree x) = Some (xml_tree x)"
  by (simp_all add: save_xml_tree_def)

definition describable :: "hpd \<Rightarrow> addr \<Rightarrow> bool" where
  "describable m s \<longleftrightarrow> (\<exists>sv dv ty. the_device m s = Some (sv, dv, ty) \<and> set (parameter_list sv) \<subseteq> dom (parameters m))"

lemma four_tuple_the_device: "the_device m s = Some (sv, dv, ty) \<Longrightarrow> four_tuple m s = Some (dtype dv, dID dv, ty, sID sv)"
  by (auto simp: the_device_def four_tuple_def split: bind_splits)

lemma parameter_elements_ok: "set ps \<subseteq> dom (parameters m) \<Longrightarrow> \<exists>es. parameter_elements m ps = Some es"
  by (induction ps) auto

lemma device_is_in_eq:
  assumes "xml_wf x"
  shows "device_is_in_xml_file dv x =
    Some (if (dtype dv, dID dv) \<in> (name_of \<circ> device_attrs) ` set (xml_tree x) then HPD_YES else HPD_NO)"
proof -
  have "list_all device_wf (xml_tree x)" using assms by (simp add: xml_wf_def tree_wf_def)
  from search_device [OF this] obtain r where
    "search_idx (\<lambda>d. has_key (dtype dv) (dID dv) (device_attrs d)) (xml_tree x) = Some r"
    "case r of None \<Rightarrow> (dtype dv, dID dv) \<notin> (name_of \<circ> device_attrs) ` set (xml_tree x)
     | Some n \<Rightarrow> n < length (xml_tree x) \<and> name_of (device_attrs (xml_tree x ! n)) = (dtype dv, dID dv)" by blast
  then show ?thesis
    by (cases r) (auto simp: device_is_in_xml_file_def image_iff intro!: bexI [of _ "xml_tree x ! the r"])
qed

lemma node_of_device_eq:
  assumes "xml_wf x" and "(dtype dv, dID dv) \<in> (name_of \<circ> device_attrs) ` set (xml_tree x)"
  shows "\<exists>k. get_xml_node_of_device dv x = Some (Some k) \<and> k < length (xml_tree x) \<and>
    name_of (device_attrs (xml_tree x ! k)) = (dtype dv, dID dv)"
proof -
  have "list_all device_wf (xml_tree x)" using assms(1) by (simp add: xml_wf_def tree_wf_def)
  from search_device [OF this, of "dtype dv" "dID dv"] assms(2) show ?thesis
    by (auto simp: get_xml_node_of_device_def split: option.splits)
qed

lemma add_service_to_xml_eq:
  assumes "xml_wf x" and "the_device m s = Some (sv, dv, ty)" and "set (parameter_list sv) \<subseteq> dom (parameters m)"
  shows "\<exists>rc x'. add_service_to_xml m s x = Some (rc, x') \<and> xml_wf x' \<and> writable x' = writable x \<and>
    (if (dtype dv, dID dv, ty, sID sv) \<in> xml_keys x then rc = -36 \<and> x' = x
     else rc = 0 \<and> xml_keys x' = insert (dtype dv, dID dv, ty, sID sv) (xml_keys x) \<and>
       (writable x \<longrightarrow> saved x' = Some (xml_tree x')))"
proof (cases "(dtype dv, dID dv, ty, sID sv) \<in> xml_keys x")
  case True
  then show ?thesis using assms by (auto simp: add_service_to_xml_def service_is_in_eq)
next
  case False
  let ?k = "(dtype dv, dID dv, ty, sID sv)"
  let ?D = "(name_of \<circ> device_attrs) ` set (xml_tree x)"
  define x1 where "x1 = (if (dtype dv, dID dv) \<in> ?D then x else save_xml_tree
    (x\<lparr>xml_tree := xml_tree x @ [\<lparr>device_attrs = device_attributes dv, device_services = []\<rparr>]\<rparr>))"
  have x1: "xml_wf x1" "xml_keys x1 = xml_keys x" "writable x1 = writable x"
      "(dtype dv, dID dv) \<in> (name_of \<circ> device_attrs) ` set (xml_tree x1)"
    using assms(1) device_attributes_name [of dv]
    by (auto simp: x1_def xml_wf_def tree_wf_def device_wf_def xml_keys_tree tree_keys_def device_keys_def)
  have dev: "(if (if (dtype dv, dID dv) \<in> ?D then HPD_YES else HPD_NO) = HPD_NO
      then map_option snd (add_device_to_xml dv x) else Some x) = Some x1"
    using device_is_in_eq [OF assms(1)] by (simp add: add_device_to_xml_def x1_def)
  obtain k where k: "get_xml_node_of_device dv x1 = Some (Some k)" "k < length (xml_tree x1)"
    "name_of (device_attrs (xml_tree x1 ! k)) = (dtype dv, dID dv)" using node_of_device_eq [OF x1(1,4)] by blast
  obtain es where es: "parameter_elements m (parameter_list sv) = Some es" using parameter_elements_ok assms(3) by blast
  let ?e = "\<lparr>service_attrs = service_attributes sv ty, service_parameters = es\<rparr>"
  let ?t = "(xml_tree x1)[k := (xml_tree x1 ! k)\<lparr>device_services := device_services (xml_tree x1 ! k) @ [?e]\<rparr>]"
  have "add_service_to_xml m s x = Some (0, save_xml_tree (x1\<lparr>xml_tree := ?t\<rparr>))"
    using False assms(1,2) k(1) es dev by (simp add: add_service_to_xml_def service_is_in_eq device_is_in_eq Let_def)
  moreover have "tree_wf ?t \<and> tree_keys ?t = insert ?k (tree_keys (xml_tree x1))"
    using add_at [of "xml_tree x1" k "dtype dv" "dID dv" ?e ty "sID sv"] x1(1,2) k(2,3) False service_attributes_name
    by (simp add: xml_wf_def xml_keys_tree)
  ultimately show ?thesis using False x1(2,3) by (simp add: xml_wf_def xml_keys_tree)
qed

lemma remove_service_from_XML_eq:
  assumes "xml_wf x" and "the_device m s = Some (sv, dv, ty)"
  shows "\<exists>rc x'. remove_service_from_XML m s x = Some (rc, x') \<and> xml_wf x' \<and> writable x' = writable x \<and>
    (if (dtype dv, dID dv, ty, sID sv) \<in> xml_keys x
     then rc = HPD_YES \<and> xml_keys x' = xml_keys x - {(dtype dv, dID dv, ty, sID sv)} \<and>
       (writable x \<longrightarrow> saved x' = Some (xml_tree x'))
     else rc = -15 \<and> x' = x)"
proof (cases "(dtype dv, dID dv, ty, sID sv) \<in> xml_keys x")
  case False
  then show ?thesis using assms by (auto simp: remove_service_from_XML_def service_is_in_eq)
next
  case True
  have wf: "tree_wf (xml_tree x)" and "list_all device_wf (xml_tree x)" using assms(1) by (simp_all add: xml_wf_def tree_wf_def)
  from find_service_total [OF this(2), of dv ty "sID sv"] True obtain k j where
    kj: "find_service dv ty (sID sv) (xml_tree x) = Some (Some (k, j))" "k < length (xml_tree x)"
      "j < length (device_services (xml_tree x ! k))" "name_of (device_attrs (xml_tree x ! k)) = (dtype dv, dID dv)"
      "name_of (service_attrs (device_services (xml_tree x ! k) ! j)) = (ty, sID sv)"
    by (auto simp: xml_keys_def split: option.splits prod.splits)
  have D: "(dtype dv, dID dv) \<in> (name_of \<circ> device_attrs) ` set (xml_tree x)"
    using True by (force simp: xml_keys_def device_keys_iff)
  obtain n where "get_xml_node_of_device dv x = Some (Some n)" using node_of_device_eq [OF assms(1) D] by blast
  then have "get_xml_node_of_service dv ty (sID sv) x = Some (Some (k, j))"
    using kj(1) D device_is_in_eq [OF assms(1)] by (simp add: get_xml_node_of_service_def)
  then have "remove_service_from_XML m s x = Some (HPD_YES, save_xml_tree (x\<lparr>xml_tree := (xml_tree x)[k :=
      (xml_tree x ! k)\<lparr>device_services := remove_at j (device_services (xml_tree x ! k))\<rparr>]\<rparr>))"
    using True assms by (simp add: remove_service_from_XML_def service_is_in_eq Let_def)
  with delete_at [OF wf kj(2,4,3,5)] True show ?thesis by (simp add: xml_wf_def xml_keys_tree)
qed

section \<open>The XML description is a register of services\<close>

definition the_key :: "hpd \<Rightarrow> addr \<Rightarrow> service_key" where
  "the_key m s = the (four_tuple m s)"

definition xml_mem :: "hpd \<Rightarrow> addr \<Rightarrow> xml_file \<Rightarrow> bool" where
  "xml_mem m s x \<longleftrightarrow> (case the_device m s of
     Some (sv, dv, ty) \<Rightarrow> service_is_in_xml_file dv ty (sID sv) x = Some HPD_YES | None \<Rightarrow> False)"

definition xml_add :: "hpd \<Rightarrow> addr \<Rightarrow> xml_file \<Rightarrow> xml_file" where
  "xml_add m s x = snd (the (add_service_to_xml m s x))"

definition xml_del :: "hpd \<Rightarrow> addr \<Rightarrow> xml_file \<Rightarrow> xml_file" where
  "xml_del m s x = snd (the (remove_service_from_XML m s x))"

lemma xml_registry: "registry xml_wf xml_keys (the_key m) (describable m) (xml_add m) (xml_del m) (xml_mem m)"
proof
  fix x s assume wf: "xml_wf x" and "describable m s"
  then obtain sv dv ty where s: "the_device m s = Some (sv, dv, ty)" "set (parameter_list sv) \<subseteq> dom (parameters m)"
    by (auto simp: describable_def)
  then have key: "the_key m s = (dtype dv, dID dv, ty, sID sv)" by (simp add: the_key_def four_tuple_the_device)
  show mem: "xml_mem m s x \<longleftrightarrow> the_key m s \<in> xml_keys x" using s(1) wf by (simp add: xml_mem_def service_is_in_eq key)
  obtain rc x' where a: "add_service_to_xml m s x = Some (rc, x')" "xml_wf x'"
    "\<not> xml_mem m s x \<Longrightarrow> xml_keys x' = insert (the_key m s) (xml_keys x)"
    using add_service_to_xml_eq [OF wf s] unfolding mem key by (metis (no_types, lifting))
  then show "xml_wf (xml_add m s x)" and "\<not> xml_mem m s x \<Longrightarrow> xml_keys (xml_add m s x) = insert (the_key m s) (xml_keys x)"
    by (simp_all add: xml_add_def)
  obtain rc x' where r: "remove_service_from_XML m s x = Some (rc, x')" "xml_wf x'"
    "xml_mem m s x \<Longrightarrow> xml_keys x' = xml_keys x - {the_key m s}"
    using remove_service_from_XML_eq [OF wf s(1)] unfolding mem key by (metis (no_types, lifting))
  then show "xml_wf (xml_del m s x)" and "xml_mem m s x \<Longrightarrow> xml_keys (xml_del m s x) = xml_keys x - {the_key m s}"
    by (simp_all add: xml_del_def)
qed

interpretation xml_file: registry xml_wf xml_keys "the_key m" "describable m" "xml_add m" "xml_del m" "xml_mem m" for m
  by (rule xml_registry)


section \<open>Properties\<close>

definition xml_change :: "hpd \<Rightarrow> bool \<times> addr \<Rightarrow> xml_file \<Rightarrow> xml_file" where
  "xml_change m = (\<lambda>(b, s) x. if b then xml_add m s x else xml_del m s x)"

lemma xml_change_guarded:
  assumes "xml_wf x" and "describable m s"
  shows "xml_change m (b, s) x = guarded (xml_mem m) (xml_add m) (xml_del m) (b, s) x"
proof -
  obtain sv dv ty where s: "the_device m s = Some (sv, dv, ty)" "set (parameter_list sv) \<subseteq> dom (parameters m)"
    using assms(2) by (auto simp: describable_def)
  have "xml_mem m s x \<longleftrightarrow> (dtype dv, dID dv, ty, sID sv) \<in> xml_keys x"
    using s(1) assms(1) by (simp add: xml_mem_def service_is_in_eq)
  then show ?thesis
    using add_service_to_xml_eq [OF assms(1) s] remove_service_from_XML_eq [OF assms(1) s(1)]
    by (auto simp: xml_change_def guarded_def xml_add_def xml_del_def split: if_splits)
qed

lemma xml_changes_guarded:
  "xml_wf x \<Longrightarrow> list_all (\<lambda>(b, s). describable m s) ops \<Longrightarrow>
    fold (xml_change m) ops x = fold (guarded (xml_mem m) (xml_add m) (xml_del m)) ops x"
proof (induction ops arbitrary: x)
  case (Cons op ops)
  obtain b s where op: "op = (b, s)" by (cases op)
  then have "describable m s" using Cons.prems(2) by simp
  with Cons xml_change_guarded [of x m s b] xml_file.step_keys [OF Cons.prems(1) this, of b] show ?case
    by (simp add: op)
qed simp

text \<open>
  C7. From the new file on, whatever sequence of services is added to and removed from the description,
  with repetitions: it describes exactly the services that were added and not removed since, each in one
  element of its device.
\<close>

theorem xml_describes_services:
  assumes "list_all (\<lambda>(b, s). describable m s) ops"
  shows "xml_wf (fold (xml_change m) ops (snd (init_xml_file n i w))) \<and>
    xml_keys (fold (xml_change m) ops (snd (init_xml_file n i w))) = fold (track (the_key m)) ops {}"
proof -
  let ?x = "snd (init_xml_file n i w)"
  have "xml_wf ?x" "xml_keys ?x = {}" by (simp_all add: init_xml_file_def xml_wf_def tree_wf_def xml_keys_def)
  then show ?thesis
    using xml_file.replay [of ?x m ops] assms xml_changes_guarded [OF _ assms, of ?x] by simp
qed

lemma one_service_key: "the_key (one_service 0 0) 1 = (''Lamp'', ''1'', ''Switch'', ''0'')"
  by (simp add: the_key_def four_tuple_def one_service_eq created_def new_service_def one_device_def create_device_struct_def str_at_def)

lemma one_service_describable: "describable (one_service 0 0) 1"
  by (simp add: describable_def the_device_def one_service_eq created_def new_service_def one_device_def create_device_struct_def str_at_def)

theorem xml_describes_services_witness:
  "xml_keys (fold (xml_change (one_service 0 0)) [(True, 1), (False, 1), (True, 1), (True, 1)]
    (snd (init_xml_file ''services.xml'' ''12345'' True))) = {(''Lamp'', ''1'', ''Switch'', ''0'')}"
proof -
  have "list_all (\<lambda>(b, s). describable (one_service 0 0) s) [(True, 1), (False, 1), (True, 1), (True, 1)]"
    using one_service_describable by simp
  from xml_describes_services [OF this, of "''services.xml''" "''12345''" True] show ?thesis
    by (simp add: track_def one_service_key [unfolded One_nat_def])
qed

text \<open>
  For every calendar date up to the year 9999, the time stamp fits the static buffer of 25 bytes.
\<close>

theorem timestamp_fits:
  assumes "wday < 7" and "mon < 12" and "mday < 100" and "hour < 24" and "mn < 60" and "sec \<le> 60" and "1900 + year < 10000"
  shows "\<exists>r. timestamp wday mon mday hour mn sec year = Some r \<and> length r < 25"
proof -
  have "length (decimal mday) \<le> 2" "length (decimal hour) \<le> 2" "length (decimal mn) \<le> 2" "length (decimal sec) \<le> 2"
    "length (decimal (1900 + year)) \<le> 4"
    using assms by (auto intro!: decimal_digits)
  moreover have "list_all (\<lambda>s. length s = 3) wday_name" "list_all (\<lambda>s. length s = 3) mon_name"
    by (simp_all add: wday_name_def mon_name_def)
  then have "length (wday_name ! wday) = 3" "length (mon_name ! mon) = 3"
    using assms(1,2) by (auto simp: list_all_length wday_name_def mon_name_def)
  ultimately show ?thesis using assms(1,2) by (simp add: timestamp_def pad_def Let_def)
qed

theorem timestamp_fits_witness:
  "\<exists>r. timestamp 3 11 31 23 59 60 8099 = Some r \<and> length r < 25"
  by (rule timestamp_fits) simp_all

end
