(* ===== verification/HpdSse.thy ===== *)
theory HpdSse
  imports HpdEvents HpdObjects
begin

text \<open>
  Server-sent events of the HomePort daemon (\<open>hpdaemon/hpd_server_sent_events.c\<close>): the global queue
  and its consumer thread, the list of the queues of the sessions, the subscriptions, and the callback
  that streams the events of a queue to its client.

  Queues live at addresses, as the objects of theory \<open>HpdObjects\<close>; a freed queue is not mapped, and its
  use is a crash (\<open>None\<close>). \<open>signals\<close> collects the queues whose condition variable was signalled. Every
  function body between two waits is one step. The session and connection identifiers that libuuid
  makes, the cookie of a request and the XML texts are arguments. The mutexes are not part of the
  state; \<open>subscribe_to_service\<close> unlocks one that it does not hold, which has no effect here.
\<close>

abbreviation (input) HPD_E_SERVICE_IS_NULL :: int where "HPD_E_SERVICE_IS_NULL \<equiv> -48"
abbreviation (input) HPD_E_ERROR_QUEUING_EVENT :: int where "HPD_E_ERROR_QUEUING_EVENT \<equiv> -49"
abbreviation (input) HPD_E_LOG_DATA_IS_NULL :: int where "HPD_E_LOG_DATA_IS_NULL \<equiv> -50"
abbreviation (input) HPD_IS_SECURE_CONNECTION :: int where "HPD_IS_SECURE_CONNECTION \<equiv> 2"
abbreviation (input) HPD_IS_UNSECURE_CONNECTION :: int where "HPD_IS_UNSECURE_CONNECTION \<equiv> 3"
abbreviation (input) HPD_SEND_LOG_EVENTS :: int where "HPD_SEND_LOG_EVENTS \<equiv> 1"
abbreviation (input) MHD_NO :: int where "MHD_NO \<equiv> 0"
abbreviation (input) MHD_YES :: int where "MHD_YES \<equiv> 1"
abbreviation (input) MHD_HTTP_NOT_FOUND :: int where "MHD_HTTP_NOT_FOUND \<equiv> 404"

record sse =
  queues :: "addr \<rightharpoonup> event_queue"
  queue_list :: "addr list"
  global_queue :: "addr option"
  next_queue :: addr
  signals :: "addr list"

definition put_queue :: "addr \<Rightarrow> event_queue option \<Rightarrow> sse \<Rightarrow> sse" where
  "put_queue a q m = m\<lparr>queues := (queues m)(a := q)\<rparr>"

definition signal :: "bool \<Rightarrow> addr \<Rightarrow> sse \<Rightarrow> sse" where
  "signal b a m = (if b then m\<lparr>signals := signals m @ [a]\<rparr> else m)"

section \<open>The global queue\<close>

definition initiate_global_event_queue :: "string \<Rightarrow> sse \<Rightarrow> int \<times> sse" where
  "initiate_global_event_queue uuid m =
     (0, m\<lparr>queues := (queues m)(next_queue m \<mapsto> (create_event_queue uuid)\<lparr>send_log_events := HPD_YES\<rparr>),
          global_queue := Some (next_queue m), next_queue := next_queue m + 1\<rparr>)"

definition queue_event_at :: "addr option \<Rightarrow> event option \<Rightarrow> int \<Rightarrow> sse \<Rightarrow> (int \<times> sse) option" where
  "queue_event_at p e is_global m = (case p of
     None \<Rightarrow> Some (HPD_E_EVENT_QUEUE_OR_EVENT_IS_NULL, m)
   | Some a \<Rightarrow> do {
       q \<leftarrow> queues m a;
       (rc, q', b) \<leftarrow> queue_event (Some q) e is_global;
       Some (rc, signal b a (put_queue a q' m))
     })"

definition send_event_of_value_change :: "service option \<Rightarrow> string option \<Rightarrow> sse \<Rightarrow> (int \<times> sse) option" where
  "send_event_of_value_change ser value m = (case ser of
     None \<Rightarrow> Some (HPD_E_SERVICE_IS_NULL, m)
   | Some sv \<Rightarrow> (case create_event (Some (value_url sv)) value of
       None \<Rightarrow> Some (HPD_E_EVENT_IS_NULL, m)
     | Some e \<Rightarrow> do {
         (rc, m1) \<leftarrow> queue_event_at (global_queue m) (Some e) HPD_YES m;
         Some (if rc \<noteq> 0 then HPD_E_ERROR_QUEUING_EVENT else 0, m1)
       }))"

definition send_log_event :: "string option \<Rightarrow> sse \<Rightarrow> (int \<times> sse) option" where
  "send_log_event log_data m = (case create_event (Some ''Log'') log_data of
     None \<Rightarrow> Some (HPD_E_LOG_DATA_IS_NULL, m)
   | Some e \<Rightarrow> do {
       (rc, m1) \<leftarrow> queue_event_at (global_queue m) (Some e) HPD_YES m;
       Some (if rc \<noteq> 0 then HPD_E_ERROR_QUEUING_EVENT else 0, m1)
     })"

text \<open>
  One round of the consumer thread: it takes an event from the global queue, or sleeps, or ends; an
  event is queued in every queue of the list. \<open>woken\<close> says whether the round starts at the wait.
\<close>

fun deliver :: "addr list \<Rightarrow> event \<Rightarrow> sse \<Rightarrow> sse option" where
  "deliver [] e m = Some m"
| "deliver (a # as) e m = do {
     (rc, m1) \<leftarrow> queue_event_at (Some a) (Some e) HPD_NO m;
     (if rc \<noteq> 0 then Some m1 else deliver as e m1)
   }"

datatype round = Asleep | Ended | Delivered

definition consume_global_event_queue :: "bool \<Rightarrow> sse \<Rightarrow> (round \<times> sse) option" where
  "consume_global_event_queue woken m = do {
     g \<leftarrow> global_queue m;
     q \<leftarrow> queues m g;
     (r, q') \<leftarrow> (if woken then map_option (\<lambda>(e, q'). (Some e, q')) (dequeue_wake None HPD_YES q)
                else dequeue_begin None HPD_YES q);
     let m1 = put_queue g (Some q') m;
     (case r of
        None \<Rightarrow> Some (Asleep, m1)
      | Some None \<Rightarrow> Some (Ended, put_queue g None m1)
      | Some (Some e) \<Rightarrow> do { m2 \<leftarrow> deliver (queue_list m1) e m1; Some (Delivered, m2) })
   }"

section \<open>Sessions\<close>

text \<open>The header, cut to the 255 characters of the buffer.\<close>

definition add_session_cookie :: "event_queue option \<Rightarrow> int \<Rightarrow> string option" where
  "add_session_cookie eq secure = (case eq of
     None \<Rightarrow> None
   | Some q \<Rightarrow>
       if secure = HPD_IS_SECURE_CONNECTION then Some (take 255 (''session='' @ session_id q @ ''; path=/; secure''))
       else if secure = HPD_IS_UNSECURE_CONNECTION then Some (take 255 (''session='' @ session_id q @ ''; path=/''))
       else None)"

definition get_queue :: "string option \<Rightarrow> sse \<Rightarrow> addr option option" where
  "get_queue cookie m = (case cookie of
     None \<Rightarrow> Some None
   | Some c \<Rightarrow> search (\<lambda>a. do { q \<leftarrow> queues m a; Some (c = session_id q) }) (queue_list m))"

definition get_event_queue_with_connection_id :: "string option \<Rightarrow> sse \<Rightarrow> addr option option" where
  "get_event_queue_with_connection_id conn m = (case conn of
     None \<Rightarrow> Some None
   | Some c \<Rightarrow> search (\<lambda>a. do { q \<leftarrow> queues m a; c' \<leftarrow> connection_id q; Some (c' = c) }) (queue_list m))"

text \<open>A new queue at the end of the list.\<close>

definition add_event_queue :: "string \<Rightarrow> sse \<Rightarrow> addr \<times> sse" where
  "add_event_queue uuid m = (next_queue m,
     m\<lparr>queues := (queues m)(next_queue m \<mapsto> create_event_queue uuid), queue_list := queue_list m @ [next_queue m],
       next_queue := next_queue m + 1\<rparr>)"

definition session_queue :: "string option \<Rightarrow> string \<Rightarrow> sse \<Rightarrow> (addr \<times> sse) option" where
  "session_queue cookie uuid m = do {
     g \<leftarrow> get_queue cookie m;
     Some (case g of Some a \<Rightarrow> (a, m) | None \<Rightarrow> add_event_queue uuid m)
   }"

text \<open>
  The answer to a request: the XML text and the cookie. The result of \<open>send_cookied_xml\<close> is not used.
\<close>

type_synonym answer = "(string \<times> string option) option"

definition subscribe_to_service ::
  "(string \<Rightarrow> string \<Rightarrow> string option) \<Rightarrow> string option \<Rightarrow> string \<Rightarrow> service \<Rightarrow> int \<Rightarrow> sse \<Rightarrow> (int \<times> answer \<times> sse) option" where
  "subscribe_to_service get_xml_subscription cookie uuid sv secure m = do {
     (a, m1) \<leftarrow> session_queue cookie uuid m;
     q \<leftarrow> queues m1 a;
     (if is_queue_subscribed_to_service (Some q) (Some (value_url sv)) = HPD_NO
      then let m2 = put_queue a (snd (add_service_id_to_queue (create_service_id (Some (value_url sv))) (Some q))) m1 in
        Some (case get_xml_subscription ''yes'' (value_url sv) of
           None \<Rightarrow> (MHD_NO, None, m2)
         | Some x \<Rightarrow> (MHD_YES, Some (x, add_session_cookie (Some q) secure), m2))
      else
        Some (case get_xml_subscription ''no'' (value_url sv) of
           None \<Rightarrow> (MHD_NO, None, m1)
         | Some x \<Rightarrow> (MHD_YES, Some (x, add_session_cookie (Some q) secure),
             put_queue a (snd (remove_service_id_from_queue (Some (value_url sv)) (Some q))) m1)))
   }"

definition subscribe_to_log_events ::
  "(string \<Rightarrow> string \<Rightarrow> string option) \<Rightarrow> string option \<Rightarrow> string \<Rightarrow> int \<Rightarrow> sse \<Rightarrow> (int \<times> answer \<times> sse) option" where
  "subscribe_to_log_events get_xml_subscription cookie uuid secure m = do {
     (a, m1) \<leftarrow> session_queue cookie uuid m;
     q \<leftarrow> queues m1 a;
     let yes = (send_log_events q \<noteq> HPD_YES);
     let m2 = put_queue a (Some (q\<lparr>send_log_events := (if yes then HPD_YES else HPD_NO)\<rparr>)) m1;
     Some (case get_xml_subscription (if yes then ''yes'' else ''no'') ''log'' of
        None \<Rightarrow> (MHD_NO, None, m2)
      | Some x \<Rightarrow> (MHD_YES, Some (x, add_session_cookie (Some q) secure), m2))
   }"

text \<open>
  The client opens its event stream: the queue is handed to the new connection. The comparison with
  \<open>HPD_NO\<close> (2) holds for \<open>HPD_WAIT_FOR_TIMEOUT\<close> (3) and not for \<open>HPD_YES\<close> (1).
\<close>

definition take_over :: "string \<Rightarrow> event_queue \<Rightarrow> event_queue \<times> bool" where
  "take_over conn q = (q\<lparr>connection_id := Some conn\<rparr>, is_waiting q > HPD_NO \<and> connection_id q \<noteq> None)"

definition set_up_server_sent_event_connection ::
  "bool \<Rightarrow> int \<Rightarrow> string option \<Rightarrow> string \<Rightarrow> int \<Rightarrow> sse \<Rightarrow> (int \<times> string option \<times> sse) option" where
  "set_up_server_sent_event_connection response_made queued cookie conn secure m = do {
     g \<leftarrow> get_queue cookie m;
     (case g of
        None \<Rightarrow> Some (MHD_HTTP_NOT_FOUND, None, m)
      | Some a \<Rightarrow> do {
          q \<leftarrow> queues m a;
          let (q1, b) = take_over conn q;
          let m1 = signal b a (put_queue a (Some q1) m);
          Some (if service_id_head q1 \<noteq> [] \<or> send_log_events q1 = HPD_SEND_LOG_EVENTS
            then if response_made then (queued, add_session_cookie (Some q1) secure, m1) else (MHD_NO, None, m1)
            else (MHD_HTTP_NOT_FOUND, None, m1))
        })
   }"

section \<open>The event stream of a connection\<close>

text \<open>
  The callback that fills the response buffer of \<open>bufmax\<close> bytes: it finds the queue, waits for an event
  if there is none, and prints it. \<open>Sleeping a\<close> is the wait in queue \<open>a\<close>; \<open>Filled n text\<close> is the value
  returned and the text printed. A text that does not fit is a crash, as \<open>sprintf\<close> has no bound.
\<close>

datatype stream = Sleeping addr | Filled int string

definition event_text :: "string \<Rightarrow> string \<Rightarrow> string" where
  "event_text d i = ''data: '' @ d @ ''<br>id: '' @ i @ ''<br><br>''"

definition stream_event :: "nat \<Rightarrow> addr \<Rightarrow> event option \<Rightarrow> sse \<Rightarrow> (stream \<times> sse) option" where
  "stream_event bufmax a r m = do {
     q \<leftarrow> queues m a;
     (case r of
        None \<Rightarrow> Some (Filled (-1) [], if exiting q = 1 then put_queue a None m else m)
      | Some e \<Rightarrow> (case (eid e, edata e) of
          (Some i, Some d) \<Rightarrow>
            (if length (event_text d i) < bufmax then Some (Filled (int (length (event_text d i))) (event_text d i), m)
             else None)
        | _ \<Rightarrow> Some (Filled (-1) [], m)))
   }"

definition server_sent_events_callback :: "string option \<Rightarrow> nat \<Rightarrow> sse \<Rightarrow> (stream \<times> sse) option" where
  "server_sent_events_callback conn bufmax m = do {
     g \<leftarrow> get_event_queue_with_connection_id conn m;
     (case g of
        None \<Rightarrow> Some (Filled (-1) [], m)
      | Some a \<Rightarrow> do {
          q \<leftarrow> queues m a;
          (r, q') \<leftarrow> dequeue_begin conn HPD_NO q;
          (case r of
             None \<Rightarrow> Some (Sleeping a, put_queue a (Some q') m)
           | Some e \<Rightarrow> stream_event bufmax a e (put_queue a (Some q') m))
        })
   }"

definition server_sent_events_woken :: "string option \<Rightarrow> nat \<Rightarrow> addr \<Rightarrow> sse \<Rightarrow> (stream \<times> sse) option" where
  "server_sent_events_woken conn bufmax a m = do {
     q \<leftarrow> queues m a;
     (e, q') \<leftarrow> dequeue_wake conn HPD_NO q;
     stream_event bufmax a e (put_queue a (Some q') m)
   }"

text \<open>The end of the connection: after five seconds without a successor, the queue is destroyed.\<close>

definition free_callback_begin :: "string option \<Rightarrow> sse \<Rightarrow> (addr option \<times> sse) option" where
  "free_callback_begin conn m = do {
     g \<leftarrow> get_event_queue_with_connection_id conn m;
     (case g of
        None \<Rightarrow> Some (None, m)
      | Some a \<Rightarrow> do { q \<leftarrow> queues m a; Some (Some a, put_queue a (Some (wait_for_timeout_begin q)) m) })
   }"

definition free_callback_end :: "bool \<Rightarrow> addr \<Rightarrow> sse \<Rightarrow> sse option" where
  "free_callback_end timed_out a m = do {
     q \<leftarrow> queues m a;
     let (r, q') = wait_for_timeout_end timed_out q;
     let m1 = put_queue a (Some q') m;
     (if r = HPD_YES
      then if a \<in> set (queue_list m1) then Some (put_queue a None (m1\<lparr>queue_list := remove1 a (queue_list m1)\<rparr>)) else None
      else Some m1)
   }"

section \<open>The end of the daemon, and availability\<close>

fun exit_queues :: "addr list \<Rightarrow> sse \<Rightarrow> sse option" where
  "exit_queues [] m = Some m"
| "exit_queues (a # as) m = do {
     q \<leftarrow> queues m a;
     let (rc, q', b) = exit_event_queue (Some q);
     exit_queues as (signal b a (put_queue a q' (m\<lparr>queue_list := remove1 a (queue_list m)\<rparr>)))
   }"

definition free_server_sent_events_ressources :: "sse \<Rightarrow> sse option" where
  "free_server_sent_events_ressources m = do {
     m1 \<leftarrow> exit_queues (queue_list m) m;
     (case global_queue m1 of
        None \<Rightarrow> Some m1
      | Some g \<Rightarrow> do {
          q \<leftarrow> queues m1 g;
          let (rc, q', b) = exit_event_queue (Some q);
          Some (signal b g (put_queue g q' m1))
        })
   }"

fun notify_queues :: "string \<Rightarrow> int \<Rightarrow> addr list \<Rightarrow> sse \<Rightarrow> sse option" where
  "notify_queues url availability [] m = Some m"
| "notify_queues url availability (a # as) m = do {
     q \<leftarrow> queues m a;
     let (r, q') = set_availability_of_service (Some url) (Some q) availability;
     m1 \<leftarrow> (if r = HPD_YES
       then do {
         (rc, m') \<leftarrow> queue_event_at (Some a)
           (create_event (Some url) (Some (if availability = HPD_YES then ''available'' else ''unavailable'')))
           HPD_NO (put_queue a q' m);
         Some m'
       }
       else Some (put_queue a q' m));
     notify_queues url availability as m1
   }"

definition notify_service_availability :: "service option \<Rightarrow> int \<Rightarrow> sse \<Rightarrow> (int \<times> sse) option" where
  "notify_service_availability ser availability m = (case ser of
     None \<Rightarrow> Some (HPD_E_SERVICE_IS_NULL, m)
   | Some sv \<Rightarrow> do { m1 \<leftarrow> notify_queues (value_url sv) availability (queue_list m) m; Some (0, m1) })"

section \<open>The threads of one session\<close>

text \<open>
  The queue of a session with the threads that serve it: \<open>asleep\<close> are the connections waiting for the
  condition variable, \<open>woken\<close> those that were signalled and do not hold the mutex yet. Every action is
  one critical section; its result is the new state, or \<open>None\<close> when the code crashes.
\<close>

record session =
  sq :: event_queue
  asleep :: "string list"
  woken :: "string list"

datatype action = Stream string | Wake string | Post event | TakeOver string

definition broadcast :: "bool \<Rightarrow> session \<Rightarrow> session" where
  "broadcast b s = (if b then s\<lparr>asleep := [], woken := asleep s @ woken s\<rparr> else s)"

inductive session_step :: "session \<Rightarrow> action \<Rightarrow> session option \<Rightarrow> bool" where
  stream_crash: "c \<notin> set (asleep s @ woken s) \<Longrightarrow> dequeue_begin (Some c) HPD_NO (sq s) = None \<Longrightarrow>
    session_step s (Stream c) None"
| stream_sleep: "c \<notin> set (asleep s @ woken s) \<Longrightarrow> dequeue_begin (Some c) HPD_NO (sq s) = Some (None, q) \<Longrightarrow>
    session_step s (Stream c) (Some (s\<lparr>sq := q, asleep := c # asleep s\<rparr>))"
| stream_read: "c \<notin> set (asleep s @ woken s) \<Longrightarrow> dequeue_begin (Some c) HPD_NO (sq s) = Some (Some e, q) \<Longrightarrow>
    session_step s (Stream c) (Some (s\<lparr>sq := q\<rparr>))"
| wake_crash: "c \<in> set (woken s) \<Longrightarrow> dequeue_wake (Some c) HPD_NO (sq s) = None \<Longrightarrow> session_step s (Wake c) None"
| wake_up: "c \<in> set (woken s) \<Longrightarrow> dequeue_wake (Some c) HPD_NO (sq s) = Some (e, q) \<Longrightarrow>
    session_step s (Wake c) (Some (s\<lparr>sq := q, woken := remove1 c (woken s)\<rparr>))"
| post_crash: "queue_event (Some (sq s)) (Some e) HPD_NO = None \<Longrightarrow> session_step s (Post e) None"
| post: "queue_event (Some (sq s)) (Some e) HPD_NO = Some (rc, Some q, b) \<Longrightarrow>
    session_step s (Post e) (Some (broadcast b (s\<lparr>sq := q\<rparr>)))"
| take: "take_over c (sq s) = (q, b) \<Longrightarrow> session_step s (TakeOver c) (Some (broadcast b (s\<lparr>sq := q\<rparr>)))"

inductive_cases session_stepE: "session_step s a r"

inductive session_run :: "(action \<Rightarrow> bool) \<Rightarrow> session \<Rightarrow> session \<Rightarrow> bool" for P where
  start: "session_run P s s"
| more: "session_run P s t \<Longrightarrow> P a \<Longrightarrow> session_step t a (Some u) \<Longrightarrow> session_run P s u"

text \<open>A session whose connection \<open>c\<close> is the only one: no other streams, and none takes over.\<close>

fun only :: "string \<Rightarrow> action \<Rightarrow> bool" where
  "only c (Stream d) \<longleftrightarrow> d = c"
| "only c (Wake d) \<longleftrightarrow> d = c"
| "only c (Post e) \<longleftrightarrow> complete e"
| "only c (TakeOver d) \<longleftrightarrow> False"

definition session_inv :: "string \<Rightarrow> session \<Rightarrow> bool" where
  "session_inv c s \<longleftrightarrow> connection_id (sq s) = Some c \<and> exiting (sq s) = HPD_NO \<and>
     (asleep s = [] \<and> woken s = [] \<or>
      asleep s = [c] \<and> woken s = [] \<and> is_waiting (sq s) = HPD_YES \<and> event_queue_head (sq s) = [] \<or>
      asleep s = [] \<and> woken s = [c] \<and> event_queue_head (sq s) \<noteq> [])"

lemma session_inv_step:
  assumes "session_inv c s" and "only c a" and "session_step s a r"
  shows "\<exists>t. r = Some t \<and> session_inv c t"
  using assms(3,1,2)
proof cases
  case (stream_crash d)
  then show ?thesis using assms(1,2)
    by (auto simp: session_inv_def dequeue_begin_def dequeue_end_def split: if_splits list.splits)
next
  case (stream_sleep d q)
  then show ?thesis using assms(1,2)
    by (auto simp: session_inv_def dequeue_begin_def split: if_splits)
next
  case (stream_read d e q)
  then show ?thesis using assms(1,2)
    by (auto simp: session_inv_def dequeue_begin_def dequeue_end_def split: if_splits list.splits)
next
  case (wake_crash d)
  then show ?thesis using assms(1,2)
    by (auto simp: session_inv_def dequeue_wake_def dequeue_end_def split: list.splits)
next
  case (wake_up d e q)
  then show ?thesis using assms(1,2)
    by (auto simp: session_inv_def dequeue_wake_def dequeue_end_def split: list.splits)
next
  case (post_crash e)
  then show ?thesis using assms(2) by (simp add: queue_event_session)
next
  case (post e rc q b)
  then show ?thesis using assms(1,2)
    by (auto simp: queue_event_session session_inv_def broadcast_def split: if_splits)
qed (use assms(2) in auto)

lemma session_inv_run: "session_run P s t \<Longrightarrow> P = only c \<Longrightarrow> session_inv c s \<Longrightarrow> session_inv c t"
proof (induction rule: session_run.induct)
  case (more s t a u)
  then show ?case using session_inv_step by fastforce
qed simp



definition session_of :: "string \<Rightarrow> string \<Rightarrow> session" where
  "session_of url conn = \<lparr>sq = (create_event_queue ''s'')\<lparr>connection_id := Some conn,
     service_id_head := [\<lparr>service_url = url, available = HPD_YES\<rparr>]\<rparr>, asleep = [], woken = []\<rparr>"

lemma session_of_inv: "session_inv c (session_of u c)"
  by (simp add: session_inv_def session_of_def create_event_queue_def)


definition stuck :: "string \<Rightarrow> session \<Rightarrow> bool" where
  "stuck c t \<longleftrightarrow> asleep t = [c] \<and> woken t = [] \<and> connection_id (sq t) = Some c \<and>
     event_queue_head (sq t) \<noteq> [] \<and> is_waiting (sq t) = HPD_NO"

definition run :: "session \<Rightarrow> event \<Rightarrow> session list \<Rightarrow> bool" where
  "run s e ts = (case ts of [t1, t2, t3, t4, t5, t6, t7, t8] \<Rightarrow>
     session_step s (Stream ''c'') (Some t1) \<and> session_step t1 (TakeOver ''d'') (Some t2) \<and>
     session_step t2 (Stream ''d'') (Some t3) \<and> session_step t3 (Post e) (Some t4) \<and>
     session_step t4 (Wake ''d'') (Some t5) \<and> session_step t5 (Stream ''d'') (Some t6) \<and>
     session_step t6 (Wake ''c'') (Some t7) \<and> session_step t7 (Post e) (Some t8)
   | _ \<Rightarrow> False)"

lemma stuck_post:
  assumes "stuck c t" and "complete e" and "session_step t (Post e) r"
  shows "\<exists>u. r = Some u \<and> stuck c u"
  using assms(3,1,2)
  by cases (auto simp: stuck_def queue_event_session broadcast_def)



section \<open>From a changed value to the subscriber\<close>

lemma put_queue_sel [simp]:
  "queues (put_queue a q m) = (queues m)(a := q)" "queue_list (put_queue a q m) = queue_list m"
  "global_queue (put_queue a q m) = global_queue m" "next_queue (put_queue a q m) = next_queue m"
  "signals (put_queue a q m) = signals m"
  by (simp_all add: put_queue_def)

lemma signal_sel [simp]:
  "queues (signal b a m) = queues m" "queue_list (signal b a m) = queue_list m"
  "global_queue (signal b a m) = global_queue m" "next_queue (signal b a m) = next_queue m"
  "set (signals m) \<subseteq> set (signals (signal b a m))" "b \<Longrightarrow> a \<in> set (signals (signal b a m))"
  by (auto simp: signal_def)

definition taken :: "event \<Rightarrow> event_queue \<Rightarrow> event_queue" where
  "taken e q = (if accepts q e then q\<lparr>event_queue_head := event_queue_head q @ [e]\<rparr> else q)"

lemma deliver_eq:
  assumes "complete e" and "distinct as" and "set as \<subseteq> dom (queues m)"
  shows "\<exists>m'. deliver as e m = Some m' \<and>
    queues m' = (\<lambda>a. if a \<in> set as then map_option (taken e) (queues m a) else queues m a) \<and>
    queue_list m' = queue_list m \<and> global_queue m' = global_queue m"
  using assms(2,3)
proof (induction as arbitrary: m)
  case (Cons a as)
  then obtain q where q: "queues m a = Some q" by auto
  let ?b = "accepts q e \<and> is_waiting q = HPD_YES \<and> connection_id q \<noteq> None"
  let ?m = "signal ?b a (put_queue a (Some (taken e q)) m)"
  have "queue_event_at (Some a) (Some e) HPD_NO m = Some (0, ?m)"
    using q queue_event_session [OF assms(1), of q] by (simp add: queue_event_at_def taken_def)
  moreover have "distinct as" "set as \<subseteq> dom (queues ?m)" using Cons.prems by auto
  note Cons.IH [OF this]
  ultimately show ?case using Cons.prems(1) q by (fastforce simp: fun_eq_iff)
qed simp

lemma search_first:
  "search P (xs @ a # ys) = Some (Some a)" if "list_all (\<lambda>x. P x = Some False) xs" "P a = Some True"
  using that by (induction xs) auto

text \<open>
  C4. A value that was set reaches the client that subscribed to the service: the event goes through the
  global queue, the consumer thread gives it to every queue that subscribed and to no other, and the
  stream of the subscriber prints exactly this event.
\<close>

theorem value_change_reaches_subscriber:
  assumes "global_queue m = Some g" and "queues m g = Some gq" and "event_queue_head gq = []" and "exiting gq = HPD_NO"
    and "queue_list m = as @ a # bs" and "distinct (g # as @ a # bs)"
    and "set (queue_list m) \<subseteq> dom (queues m)" and "queues m a = Some q" and "connection_id q = Some c"
    and "exiting q = HPD_NO" and "event_queue_head q = []"
    and "list_ex (\<lambda>s. service_url s = value_url sv) (service_id_head q)" and "value_url sv \<noteq> ''Log''"
    and "list_all (\<lambda>x. \<exists>q' c'. queues m x = Some q' \<and> connection_id q' = Some c' \<and> c' \<noteq> c) as"
    and "length (event_text v (value_url sv)) < bufmax"
  shows "\<exists>m1 m2 m3. send_event_of_value_change (Some sv) (Some v) m = Some (0, m1) \<and>
    consume_global_event_queue False m1 = Some (Delivered, m2) \<and>
    (\<forall>b \<in> set (queue_list m). queues m2 b =
       map_option (taken \<lparr>eid = Some (value_url sv), edata = Some v\<rparr>) (queues m b)) \<and>
    server_sent_events_callback (Some c) bufmax m2 =
      Some (Filled (int (length (event_text v (value_url sv)))) (event_text v (value_url sv)), m3) \<and>
    queues m3 a = queues m a"
proof -
  let ?e = "\<lparr>eid = Some (value_url sv), edata = Some v\<rparr>"
  let ?m1 = "signal (is_waiting gq = HPD_YES) g (put_queue g (Some (gq\<lparr>event_queue_head := [?e]\<rparr>)) m)"
  have send: "send_event_of_value_change (Some sv) (Some v) m = Some (0, ?m1)"
    using assms(1-3,13) queue_event_global [of ?e "value_url sv" gq]
    by (simp add: send_event_of_value_change_def queue_event_at_def)
  let ?m1' = "put_queue g (Some gq) ?m1"
  have "complete ?e" and "distinct (queue_list m)" and "set (queue_list m) \<subseteq> dom (queues ?m1')"
    using assms(5-7) by (auto simp: complete_def)
  from deliver_eq [OF this] obtain m2 where m2: "deliver (queue_list m) ?e ?m1' = Some m2"
    "queues m2 = (\<lambda>x. if x \<in> set (queue_list m) then map_option (taken ?e) (queues ?m1' x) else queues ?m1' x)"
    "queue_list m2 = queue_list ?m1'" by blast
  have gq: "gq\<lparr>event_queue_head := []\<rparr> = gq" using assms(3) by simp
  have "dequeue_begin None HPD_YES (gq\<lparr>event_queue_head := [?e]\<rparr>) = Some (Some (Some ?e), gq)"
    using assms(4) gq by (simp add: dequeue_begin_def dequeue_end_def)
  then have cons: "consume_global_event_queue False ?m1 = Some (Delivered, m2)"
    using assms(1) m2(1) by (simp add: consume_global_event_queue_def)
  have q2: "queues m2 x = map_option (taken ?e) (queues m x)" if "x \<in> set (queue_list m)" for x
    using that assms(5,6) m2(2) by auto
  have "accepts q ?e" using assms(12,13) by (simp add: accepts_def list_ex_iff)
  then have qa: "queues m2 a = Some (q\<lparr>event_queue_head := [?e]\<rparr>)"
    using q2 [of a] assms(5,8,11) by (simp add: taken_def)
  have "list_all (\<lambda>x. do { q \<leftarrow> queues m2 x; c' \<leftarrow> connection_id q; Some (c' = c) } = Some False) as"
    using assms(14) q2 assms(5) by (fastforce simp: list_all_iff taken_def)
  then have "search (\<lambda>x. do { q \<leftarrow> queues m2 x; c' \<leftarrow> connection_id q; Some (c' = c) }) (as @ a # bs) = Some (Some a)"
    by (rule search_first) (use qa assms(9) in simp)
  then have find: "get_event_queue_with_connection_id (Some c) m2 = Some (Some a)"
    using assms(5) m2(3) by (simp add: get_event_queue_with_connection_id_def)
  have q: "q\<lparr>event_queue_head := []\<rparr> = q" using assms(11) by simp
  have "dequeue_begin (Some c) HPD_NO (q\<lparr>event_queue_head := [?e]\<rparr>) = Some (Some (Some ?e), q)"
    using assms(9,10) q by (simp add: dequeue_begin_def dequeue_end_def)
  then have "server_sent_events_callback (Some c) bufmax m2 =
      Some (Filled (int (length (event_text v (value_url sv)))) (event_text v (value_url sv)), put_queue a (Some q) m2)"
    using find qa assms(15) by (simp add: server_sent_events_callback_def stream_event_def)
  then show ?thesis using send cons q2 assms(8) by (metis fun_upd_same put_queue_sel(1))
qed


definition lamp :: service where
  "lamp = \<lparr>sdescription = None, sID = ''0'', value_url = ''/Lamp/1/Switch/0'', stype = 0, sunit = None,
     DNS_SD_type = Some ''_homeport._tcp'', zeroConfName = ''Lamp 1 Switch 0'', sdevice = Some 0, get_function = 0,
     put_function = None, user_data_pointer = None, parameter_list = []\<rparr>"

definition two_sessions :: sse where
  "two_sessions = \<lparr>queues =
     [0 \<mapsto> (create_event_queue ''g'')\<lparr>send_log_events := HPD_YES\<rparr>,
      1 \<mapsto> (create_event_queue ''s'')\<lparr>connection_id := Some ''c''\<rparr>,
      2 \<mapsto> (create_event_queue ''t'')\<lparr>connection_id := Some ''d'',
        service_id_head := [\<lparr>service_url = value_url lamp, available = HPD_YES\<rparr>]\<rparr>],
     queue_list = [1, 2], global_queue = Some 0, next_queue = 3, signals = []\<rparr>"

theorem value_change_reaches_subscriber_witness:
  "\<exists>m1 m2 m3. send_event_of_value_change (Some lamp) (Some ''1'') two_sessions = Some (0, m1) \<and>
    consume_global_event_queue False m1 = Some (Delivered, m2) \<and>
    server_sent_events_callback (Some ''d'') 32768 m2 =
      Some (Filled 39 ''data: 1<br>id: /Lamp/1/Switch/0<br><br>'', m3)"
proof -
  let ?g = "(create_event_queue ''g'')\<lparr>send_log_events := HPD_YES\<rparr>"
  let ?q = "(create_event_queue ''t'')\<lparr>connection_id := Some ''d'',
        service_id_head := [\<lparr>service_url = value_url lamp, available = HPD_YES\<rparr>]\<rparr>"
  note defs = two_sessions_def create_event_queue_def lamp_def event_text_def
  have "global_queue two_sessions = Some 0" "queues two_sessions 0 = Some ?g" "event_queue_head ?g = []" "exiting ?g = HPD_NO"
    "queue_list two_sessions = [1] @ 2 # []" "distinct ((0::nat) # [1] @ 2 # [])"
    "set (queue_list two_sessions) \<subseteq> dom (queues two_sessions)" "queues two_sessions 2 = Some ?q"
    "connection_id ?q = Some ''d''" "exiting ?q = HPD_NO" "event_queue_head ?q = []"
    "list_ex (\<lambda>s. service_url s = value_url lamp) (service_id_head ?q)" "value_url lamp \<noteq> ''Log''"
    "list_all (\<lambda>x. \<exists>q' c'. queues two_sessions x = Some q' \<and> connection_id q' = Some c' \<and> c' \<noteq> ''d'') [1]"
    "length (event_text ''1'' (value_url lamp)) < 32768"
    by (simp_all add: defs)
  from value_change_reaches_subscriber [OF this] show ?thesis by (simp add: event_text_def lamp_def) blast
qed

section \<open>Subscriptions\<close>

lemma get_queue_put:
  assumes "get_queue cookie m = Some (Some a)" and "queues m a = Some q" and "session_id q' = session_id q"
  shows "get_queue cookie (put_queue a (Some q') m) = Some (Some a)"
proof -
  have "search (\<lambda>x. do { q \<leftarrow> queues (put_queue a (Some q') m) x; Some (c = session_id q) }) (queue_list m) =
      search (\<lambda>x. do { q \<leftarrow> queues m x; Some (c = session_id q) }) (queue_list m)" for c
    using assms(2,3) by (intro search_cong) auto
  then show ?thesis using assms(1) by (auto simp: get_queue_def split: option.splits)
qed

text \<open>
  A request for a service of a session subscribes to it, and the next one unsubscribes: after the two
  the state is as before, the service is subscribed to in between, and both answers carry the cookie of
  the session.
\<close>

theorem subscribe_toggles:
  assumes "get_queue cookie m = Some (Some a)" and "queues m a = Some q"
    and "\<not> list_ex (\<lambda>s. service_url s = value_url sv) (service_id_head q)"
    and "xml ''yes'' (value_url sv) = Some x" and "xml ''no'' (value_url sv) = Some y"
  shows "\<exists>m1 q1. subscribe_to_service xml cookie uuid sv secure m =
      Some (MHD_YES, Some (x, add_session_cookie (Some q) secure), m1) \<and>
    queues m1 a = Some q1 \<and> is_queue_subscribed_to_service (Some q1) (Some (value_url sv)) = HPD_YES \<and>
    subscribe_to_service xml cookie uuid sv secure m1 =
      Some (MHD_YES, Some (y, add_session_cookie (Some q) secure), m)"
proof -
  let ?q1 = "q\<lparr>service_id_head := service_id_head q @ [\<lparr>service_url = value_url sv, available = HPD_YES\<rparr>]\<rparr>"
  let ?m1 = "put_queue a (Some ?q1) m"
  have "subscribe_to_service xml cookie uuid sv secure m =
      Some (MHD_YES, Some (x, add_session_cookie (Some q) secure), ?m1)"
    using assms by (simp add: subscribe_to_service_def session_queue_def is_queue_subscribed_to_service_def
        add_service_id_to_queue_def create_service_id_def)
  moreover have yes: "is_queue_subscribed_to_service (Some ?q1) (Some (value_url sv)) = HPD_YES"
    by (simp add: is_queue_subscribed_to_service_def)
  moreover have "drop_service_id (value_url sv) (service_id_head ?q1) = Some (service_id_head q)"
    using drop_service_id_new [OF assms(3)] by simp
  then have "remove_service_id_from_queue (Some (value_url sv)) (Some ?q1) = (0, Some q)"
    by (simp add: remove_service_id_from_queue_def)
  moreover have "put_queue a (Some q) ?m1 = m" using assms(2) by (simp add: put_queue_def fun_upd_idem)
  moreover have "get_queue cookie ?m1 = Some (Some a)" using get_queue_put [OF assms(1,2)] by simp
  ultimately have "subscribe_to_service xml cookie uuid sv secure ?m1 =
      Some (MHD_YES, Some (y, add_session_cookie (Some ?q1) secure), m)"
    using assms(5) by (simp add: subscribe_to_service_def session_queue_def)
  moreover have "add_session_cookie (Some ?q1) secure = add_session_cookie (Some q) secure"
    by (simp add: add_session_cookie_def)
  ultimately show ?thesis
    using yes \<open>subscribe_to_service xml cookie uuid sv secure m = _\<close> by (metis fun_upd_same put_queue_sel(1))
qed

theorem subscribe_toggles_witness:
  "\<exists>m1. subscribe_to_service (\<lambda>v u. Some v) (Some ''s'') ''u'' lamp HPD_IS_UNSECURE_CONNECTION two_sessions =
      Some (MHD_YES, Some (''yes'', Some ''session=s; path=/''), m1) \<and>
    subscribe_to_service (\<lambda>v u. Some v) (Some ''s'') ''u'' lamp HPD_IS_UNSECURE_CONNECTION m1 =
      Some (MHD_YES, Some (''no'', Some ''session=s; path=/''), two_sessions)"
proof -
  let ?q = "(create_event_queue ''s'')\<lparr>connection_id := Some ''c''\<rparr>"
  have "get_queue (Some ''s'') two_sessions = Some (Some 1)" "queues two_sessions 1 = Some ?q"
    "\<not> list_ex (\<lambda>s. service_url s = value_url lamp) (service_id_head ?q)"
    by (simp_all add: get_queue_def two_sessions_def create_event_queue_def)
  from subscribe_toggles [OF this, of "\<lambda>v u. Some v" "''yes''" "''no''" "''u''" HPD_IS_UNSECURE_CONNECTION]
  show ?thesis by (auto simp: add_session_cookie_def create_event_queue_def)
qed

text \<open>
  A client that has subscribed and not yet opened its stream crashes the stream of another: the search
  for the queue of a connection compares with the connection of every queue before, which is \<open>NULL\<close> for a
  new queue.
\<close>

theorem unopened_session_crashes_streams:
  assumes "queue_list m = []" and "xml ''yes'' (value_url sv) = Some x" and "uuid \<noteq> uuid2"
  shows "\<exists>m1 m2 m3. subscribe_to_service xml None uuid sv secure m = Some (MHD_YES, Some (x, add_session_cookie (Some (create_event_queue uuid)) secure), m1) \<and>
    subscribe_to_service xml None uuid2 sv secure m1 = Some (MHD_YES, Some (x, add_session_cookie (Some (create_event_queue uuid2)) secure), m2) \<and>
    map_option (\<lambda>(r, _, m'). (r, m')) (set_up_server_sent_event_connection True MHD_YES (Some uuid2) conn secure m2) = Some (MHD_YES, m3) \<and>
    server_sent_events_callback (Some conn) bufmax m3 = None"
proof -
  let ?n = "next_queue m"
  let ?s = "[\<lparr>service_url = value_url sv, available = HPD_YES\<rparr>]"
  have "subscribe_to_service xml None uuid sv secure m = Some (MHD_YES, Some (x, add_session_cookie (Some (create_event_queue uuid)) secure),
      m\<lparr>queues := (queues m)(?n \<mapsto> (create_event_queue uuid)\<lparr>service_id_head := ?s\<rparr>), queue_list := [?n], next_queue := ?n + 1\<rparr>)"
    (is "_ = Some (_, _, ?m1)")
    using assms(1,2) by (simp add: subscribe_to_service_def session_queue_def get_queue_def add_event_queue_def
        is_queue_subscribed_to_service_def create_event_queue_def add_service_id_to_queue_def create_service_id_def put_queue_def)
  moreover have "subscribe_to_service xml None uuid2 sv secure ?m1 = Some (MHD_YES, Some (x, add_session_cookie (Some (create_event_queue uuid2)) secure),
      ?m1\<lparr>queues := (queues ?m1)(?n + 1 \<mapsto> (create_event_queue uuid2)\<lparr>service_id_head := ?s\<rparr>), queue_list := [?n, ?n + 1],
        next_queue := ?n + 2\<rparr>)"
    (is "_ = Some (_, _, ?m2)")
    using assms(1,2) by (simp add: subscribe_to_service_def session_queue_def get_queue_def add_event_queue_def
        is_queue_subscribed_to_service_def create_event_queue_def add_service_id_to_queue_def create_service_id_def put_queue_def)
  moreover have "map_option (\<lambda>(r, _, m'). (r, m')) (set_up_server_sent_event_connection True MHD_YES (Some uuid2) conn secure ?m2) =
      Some (MHD_YES, put_queue (?n + 1) (Some ((create_event_queue uuid2)\<lparr>service_id_head := ?s, connection_id := Some conn\<rparr>)) ?m2)"
    using assms(3) by (simp add: set_up_server_sent_event_connection_def get_queue_def create_event_queue_def take_over_def signal_def)
  moreover have "server_sent_events_callback (Some conn) bufmax
      (put_queue (?n + 1) (Some ((create_event_queue uuid2)\<lparr>service_id_head := ?s, connection_id := Some conn\<rparr>)) ?m2) = None"
    by (simp add: server_sent_events_callback_def get_event_queue_with_connection_id_def create_event_queue_def)
  ultimately show ?thesis by blast
qed

theorem unopened_session_crashes_streams_witness:
  "\<exists>m1 m2 m3 r r'. subscribe_to_service (\<lambda>v u. Some v) None ''s'' lamp 3 (two_sessions\<lparr>queue_list := []\<rparr>) = Some (MHD_YES, r, m1) \<and>
    subscribe_to_service (\<lambda>v u. Some v) None ''t'' lamp 3 m1 = Some (MHD_YES, r', m2) \<and>
    map_option (\<lambda>(r, _, m'). (r, m')) (set_up_server_sent_event_connection True MHD_YES (Some ''t'') ''c'' 3 m2) = Some (MHD_YES, m3) \<and>
    server_sent_events_callback (Some ''c'') 32768 m3 = None"
proof -
  have "queue_list (two_sessions\<lparr>queue_list := []\<rparr>) = []" "''s'' \<noteq> ''t''" by simp_all
  from unopened_session_crashes_streams [where xml = "\<lambda>v u. Some v" and sv = lamp, OF this(1) refl this(2)]
  show ?thesis by blast
qed

section \<open>The end of the daemon\<close>

lemma exit_queues_eq:
  assumes "distinct as" and "set as \<subseteq> dom (queues m)"
  shows "\<exists>m'. exit_queues as m = Some m' \<and>
    queues m' = (\<lambda>a. if a \<in> set as then map_option (\<lambda>q. q\<lparr>exiting := HPD_YES\<rparr>) (queues m a) else queues m a) \<and>
    queue_list m' = fold remove1 as (queue_list m) \<and> global_queue m' = global_queue m \<and>
    set (signals m) \<union> {a \<in> set as. map_option is_waiting (queues m a) = Some HPD_YES} \<subseteq> set (signals m')"
  using assms
proof (induction as arbitrary: m)
  case (Cons a as)
  then obtain q where q: "queues m a = Some q" by auto
  let ?m = "signal (is_waiting q = HPD_YES) a (put_queue a (Some (q\<lparr>exiting := HPD_YES\<rparr>)) (m\<lparr>queue_list := remove1 a (queue_list m)\<rparr>))"
  have step: "exit_queues (a # as) m = exit_queues as ?m" using q by (simp add: exit_event_queue_def)
  have "distinct as" "set as \<subseteq> dom (queues ?m)" using Cons.prems by auto
  from Cons.IH [OF this] obtain m' where m': "exit_queues as ?m = Some m'"
    "queues m' = (\<lambda>b. if b \<in> set as then map_option (\<lambda>q. q\<lparr>exiting := HPD_YES\<rparr>) (queues ?m b) else queues ?m b)"
    "queue_list m' = fold remove1 as (queue_list ?m)" "global_queue m' = global_queue ?m"
    "set (signals ?m) \<union> {b \<in> set as. map_option is_waiting (queues ?m b) = Some HPD_YES} \<subseteq> set (signals m')" by blast
  have "{b \<in> set (a # as). map_option is_waiting (queues m b) = Some HPD_YES} \<subseteq>
      set (signals ?m) \<union> {b \<in> set as. map_option is_waiting (queues ?m b) = Some HPD_YES}"
    using q Cons.prems(1) by (auto simp: signal_def)
  moreover have "set (signals m) \<subseteq> set (signals ?m)" by (auto simp: signal_def)
  ultimately show ?case
    using Cons.prems(1) q step m' by (auto simp: fun_eq_iff)
qed simp

lemma fold_remove1_self: "distinct as \<Longrightarrow> fold remove1 as (as @ bs) = bs"
  by (induction as) auto

text \<open>The queues of the sessions and the global one are alive.\<close>

definition events_ok :: "sse \<Rightarrow> bool" where
  "events_ok m \<longleftrightarrow> distinct (queue_list m) \<and> set (queue_list m) \<subseteq> dom (queues m) \<and>
     set_option (global_queue m) \<subseteq> dom (queues m)"

lemma free_ressources_ok:
  assumes "events_ok m"
  shows "\<exists>m'. free_server_sent_events_ressources m = Some m' \<and> queue_list m' = []"
proof -
  from exit_queues_eq [of "queue_list m" m] assms obtain m1 where m1: "exit_queues (queue_list m) m = Some m1"
    "dom (queues m1) = dom (queues m)" "queue_list m1 = []" "global_queue m1 = global_queue m"
    using fold_remove1_self [of "queue_list m" "[]"] by (auto simp: events_ok_def dom_def)
  moreover have "queues m1 g \<noteq> None" if "global_queue m = Some g" for g
    using that assms m1(2) by (auto simp: events_ok_def)
  ultimately show ?thesis
    by (cases "global_queue m") (auto simp: free_server_sent_events_ressources_def exit_event_queue_def)
qed

text \<open>
  Stopping the daemon: the list of queues is empty, every queue and the global one is marked as exiting,
  and every queue at which a thread waits for an event was signalled.
\<close>

theorem free_ressources_stops_all:
  assumes "distinct (queue_list m)" and "set (queue_list m) \<subseteq> dom (queues m)" and "global_queue m = Some g"
    and "queues m g \<noteq> None"
  shows "\<exists>m'. free_server_sent_events_ressources m = Some m' \<and> queue_list m' = [] \<and>
    list_all (\<lambda>a. map_option exiting (queues m' a) = Some HPD_YES \<and>
      (map_option is_waiting (queues m a) = Some HPD_YES \<longrightarrow> a \<in> set (signals m'))) (g # queue_list m)"
proof -
  obtain m1 where m1: "exit_queues (queue_list m) m = Some m1"
    "queues m1 = (\<lambda>a. if a \<in> set (queue_list m) then map_option (\<lambda>q. q\<lparr>exiting := HPD_YES\<rparr>) (queues m a) else queues m a)"
    "queue_list m1 = fold remove1 (queue_list m) (queue_list m)" "global_queue m1 = global_queue m"
    "set (signals m) \<union> {a \<in> set (queue_list m). map_option is_waiting (queues m a) = Some HPD_YES} \<subseteq> set (signals m1)"
    using exit_queues_eq [OF assms(1,2)] by blast
  obtain q where q: "queues m1 g = Some q" "map_option is_waiting (queues m g) = Some (is_waiting q)"
    using assms(4) m1(2) by (cases "g \<in> set (queue_list m)") auto
  let ?m = "signal (is_waiting q = HPD_YES) g (put_queue g (Some (q\<lparr>exiting := HPD_YES\<rparr>)) m1)"
  have "free_server_sent_events_ressources m = Some ?m"
    using m1(1,4) assms(3) q by (simp add: free_server_sent_events_ressources_def exit_event_queue_def)
  moreover have "queue_list ?m = []" using m1(3) fold_remove1_self [OF assms(1), of "[]"] by simp
  moreover have ex: "map_option exiting (queues ?m a) = Some HPD_YES" if "a \<in> set (g # queue_list m)" for a
    using that assms(2) m1(2) by auto
  moreover have "map_option is_waiting (queues m a) = Some HPD_YES \<Longrightarrow> a \<in> set (signals ?m)" if "a \<in> set (g # queue_list m)" for a
    using that m1(5) q(2) by (auto simp: signal_def)
  ultimately show ?thesis unfolding list_all_iff by blast
qed

theorem free_ressources_stops_all_witness:
  "\<exists>m'. free_server_sent_events_ressources (put_queue 2 (Some ((create_event_queue ''t'')\<lparr>is_waiting := HPD_YES\<rparr>)) two_sessions) = Some m' \<and>
    queue_list m' = [] \<and> 2 \<in> set (signals m')"
    (is "\<exists>m'. free_server_sent_events_ressources ?m = _ \<and> _")
proof -
  have "distinct (queue_list ?m)" "set (queue_list ?m) \<subseteq> dom (queues ?m)" "global_queue ?m = Some 0" "queues ?m 0 \<noteq> None"
    by (simp_all add: two_sessions_def)
  from free_ressources_stops_all [OF this] show ?thesis by (auto simp: two_sessions_def)
qed

end
