(* ===== verification/HpdLog.thy ===== *)
theory HpdLog
  imports HpdXml HpdSse
begin

text \<open>
  The log of the HomePort daemon (\<open>hpdaemon/hpd_log.c\<close>): a file of bounded size that is written round,
  whose messages are also events. The file is its text, a position in it a number; the clock gives the
  fields of \<open>struct tm\<close>. \<open>open_handles\<close> counts the handles that are opened and never closed.
\<close>

abbreviation (input) HPD_LOG_NO_LOG :: int where "HPD_LOG_NO_LOG \<equiv> 0"
abbreviation (input) HPD_LOG_ONLY_REQUESTS :: int where "HPD_LOG_ONLY_REQUESTS \<equiv> 1"
abbreviation (input) HPD_LOG_ALL :: int where "HPD_LOG_ALL \<equiv> 2"
abbreviation (input) HPD_E_LOG_ALREADY_EXIST :: int where "HPD_E_LOG_ALREADY_EXIST \<equiv> -25"
abbreviation (input) HPD_E_LOG_NOT_INIT :: int where "HPD_E_LOG_NOT_INIT \<equiv> -27"
abbreviation (input) HPD_E_FAILED_TO_OPEN_FILE :: int where "HPD_E_FAILED_TO_OPEN_FILE \<equiv> -28"
abbreviation (input) HPD_E_LOG_FAILED :: int where "HPD_E_LOG_FAILED \<equiv> -29"
abbreviation (input) HPD_E_LOG_EVENTS_OUT_OF_BOUNDS :: int where "HPD_E_LOG_EVENTS_OUT_OF_BOUNDS \<equiv> -30"

record tm =
  tm_year :: nat
  tm_mon :: nat
  tm_mday :: nat
  tm_hour :: nat
  tm_min :: nat
  tm_sec :: nat

record hpd_log =
  max_log_size :: nat
  log_level :: int
  send_events :: int
  log_file :: string
  initial_pos :: nat
  pos :: nat
  openable :: bool
  open_handles :: nat

definition get_date :: "tm \<Rightarrow> string" where
  "get_date t = decimal (1900 + tm_year t) @ ''-'' @ pad (CHR ''0'') 2 (decimal (tm_mon t)) @ ''-'' @
     pad (CHR ''0'') 2 (decimal (tm_mday t))"

definition get_time :: "tm \<Rightarrow> string" where
  "get_time t = pad (CHR ''0'') 2 (decimal (tm_hour t)) @ '':'' @ pad (CHR ''0'') 2 (decimal (tm_min t)) @ '':'' @
     pad (CHR ''0'') 2 (decimal (tm_sec t))"

text \<open>The three lines at the start of a new file; of an old one, the first three lines are kept.\<close>

definition log_header :: "tm \<Rightarrow> string" where
  "log_header t = ''#Version: 1.0'' @ [CHR 0x0A] @ ''#Date: '' @ get_date t @ [CHR 0x0A] @
     ''#Fields: date time x-error-string c-ip cs-method cs-uri-stem cs-uri-query'' @ [CHR 0x0A]"

text \<open>\<open>fgets\<close> into 256 bytes: it stops after a newline or 255 characters; the rest of the text.\<close>

fun fgets_rest :: "nat \<Rightarrow> string \<Rightarrow> string" where
  "fgets_rest 0 cs = cs"
| "fgets_rest (Suc n) [] = []"
| "fgets_rest (Suc n) (c # cs) = (if c = CHR 0x0A then cs else fgets_rest n cs)"

definition create_hpd_log :: "nat \<Rightarrow> int \<Rightarrow> string option \<Rightarrow> tm \<Rightarrow> hpd_log" where
  "create_hpd_log msize level old t =
     (let text = (case old of Some f \<Rightarrow> f | None \<Rightarrow> log_header t);
          start = (case old of
             Some f \<Rightarrow> length f - length (fgets_rest 255 (fgets_rest 255 (fgets_rest 255 f)))
           | None \<Rightarrow> length text)
      in \<lparr>max_log_size = msize, log_level = level, send_events = 0, log_file = text, initial_pos = start, pos = start,
          openable = True, open_handles = 0\<rparr>)"

definition init_hpd_log :: "nat \<Rightarrow> int \<Rightarrow> string option \<Rightarrow> tm \<Rightarrow> hpd_log option \<Rightarrow> int \<times> hpd_log option" where
  "init_hpd_log msize level old t l = (case l of
     Some _ \<Rightarrow> (HPD_E_LOG_ALREADY_EXIST, l)
   | None \<Rightarrow> (0, Some (create_hpd_log msize level old t)))"

text \<open>
  A message, printed to a buffer of the size that is computed first; the date and the time go through
  buffers of 11 and 9 bytes. A text that does not fit is a crash.
\<close>

definition or_dash :: "string option \<Rightarrow> string" where
  "or_dash s = (case s of None \<Rightarrow> ''-'' | Some t \<Rightarrow> t)"

definition message_size :: "string option list \<Rightarrow> nat" where
  "message_size parts = 11 + 9 + sum_list (map (\<lambda>s. length (or_dash s)) parts) + 7"

definition get_allocated_log_message ::
  "tm \<Rightarrow> string option \<Rightarrow> string option \<Rightarrow> string option \<Rightarrow> string option \<Rightarrow> string option \<Rightarrow> string option" where
  "get_allocated_log_message t es ip method stem query =
     (let text = get_date t @ '' '' @ get_time t @ '' '' @ or_dash es @ '' '' @ or_dash ip @ '' '' @ or_dash method @
        '' '' @ or_dash stem @ '' '' @ or_dash query
      in if length (get_date t) < 11 \<and> length (get_time t) < 9 \<and> length text < message_size [es, ip, method, stem, query]
         then Some text else None)"

definition set_position_for_new_message :: "nat \<Rightarrow> hpd_log \<Rightarrow> hpd_log" where
  "set_position_for_new_message n l = (if pos l + n > max_log_size l then l\<lparr>pos := initial_pos l\<rparr> else l)"

text \<open>Overwriting the text of a file from a position on; a gap is filled with zero bytes.\<close>

definition write_at :: "nat \<Rightarrow> string \<Rightarrow> string \<Rightarrow> string" where
  "write_at p s f = take p (f @ replicate (p - length f) (CHR 0x00)) @ s @ drop (p + length s) f"

definition Log :: "tm \<Rightarrow> int \<Rightarrow> string option \<Rightarrow> string option \<Rightarrow> string option \<Rightarrow> string option \<Rightarrow> string option \<Rightarrow>
    hpd_log option \<Rightarrow> sse \<Rightarrow> (int \<times> hpd_log option \<times> sse) option" where
  "Log t level es ip method stem query lg m = (case lg of
     None \<Rightarrow> Some (HPD_E_LOG_NOT_INIT, None, m)
   | Some l \<Rightarrow>
       if log_level l = HPD_LOG_NO_LOG then Some (0, lg, m)
       else if \<not> openable l then Some (HPD_E_FAILED_TO_OPEN_FILE, lg, m)
       else if level \<le> log_level l then do {
         msg \<leftarrow> get_allocated_log_message t es ip method stem query;
         let l1 = set_position_for_new_message (length msg) l;
         let line = msg @ [CHR 0x0A];
         let l2 = l1\<lparr>log_file := write_at (pos l1) line (log_file l1), pos := pos l1 + length line\<rparr>;
         (rc, m1) \<leftarrow> send_log_event (Some msg) m;
         Some (0, Some l2, m1)
       }
       else Some (HPD_E_LOG_FAILED, Some (l\<lparr>open_handles := open_handles l + 1\<rparr>), m))"

definition set_event_sending :: "int \<Rightarrow> hpd_log option \<Rightarrow> (int \<times> hpd_log option) option" where
  "set_event_sending v lg =
     (if v = 1 \<or> v = 0 then (case lg of None \<Rightarrow> None | Some l \<Rightarrow> Some (0, Some (l\<lparr>send_events := v\<rparr>)))
      else Some (HPD_E_LOG_EVENTS_OUT_OF_BOUNDS, lg))"

section \<open>Texts of the error codes\<close>

text \<open>
  The cases of the switch of \<open>hpd_error_code_to_string\<close>, in their order; the function has no statement after
  it, so another code has no value.
\<close>

definition error_strings :: "(int \<times> string) list" where
  "error_strings = [
     (2, ''No''),
     (1, ''Yes''),
     (0, ''Success''),
     (-1, ''A NULL pointer have been given to HPD''),
     (-2, ''The configuration has not been initialized''),
     (-3, ''Attempt to initialize the configuration that is already initialized''),
     (-4, ''Error when trying to load the configuration from file''),
     (-5, ''A malloc failed''),
     (-6, ''A bad paramter has been given to HPD''),
     (-7, ''Error happened in the MHD library''),
     (-8, ''Trying to access a server that has not been launched''),
     (-9, ''Trying to use HTTP without the HTTP feature enabled''),
     (-10, ''Trying to use HTTPS without the HTTPS feature enabled''),
     (-11, ''Trying to register a service that is already registered''),
     (-12, ''Trying to unregister a service that is not registered''),
     (-13, ''Trying to delete a service that is still in use''),
     (-14, ''Trying to add a service to a device's list that is already in it''),
     (-15, ''Trying to remove a service form a device's list that is not in it''),
     (-16, ''Trying to add a parameter to a Service that already has it''),
     (-17, ''Trying to remove a parameter from a Service that does not have it''),
     (-18, ''XML error happened''),
     (-19, ''Linked list error''),
     (-20, ''Error when loading the certificates''),
     (-21, ''Error with Avahi client''),
     (-22, ''Error with Avahi core''),
     (-23, ''A service was not found in the Avahi client or server''),
     (-24, ''Error when trying to verify a client certificate''),
     (-25, ''Error when trying to initialize the log it already exists''),
     (-26, ''Error when trying to initialize the log''),
     (-27, ''Error when trying to use the log it is not initialized''),
     (-28, ''Error while loading a file''),
     (-29, ''Logging failed''),
     (-30, []),
     (-31, []),
     (-32, []),
     (-33, []),
     (-34, []),
     (-35, []),
     (-36, []),
     (-37, []),
     (-38, [])]"

definition hpd_error_code_to_string :: "int \<Rightarrow> string option" where
  "hpd_error_code_to_string code = map_of error_strings code"

lemma error_codes: "set (map fst error_strings) = {-38..2}"
proof -
  have "map fst error_strings = rev [-38..2]" by code_simp
  then show ?thesis by (simp only: set_rev set_upto)
qed

text \<open>
  Exactly the codes from -38 to 2 have a text, and it fits into the 256 bytes that \<open>LogError\<close> prints it to; the
  codes of the events, -39 to -51, have none.
\<close>

theorem error_texts:
  "hpd_error_code_to_string code \<noteq> None \<longleftrightarrow> -38 \<le> code \<and> code \<le> 2"
  "\<forall>t \<in> ran hpd_error_code_to_string. length t < 256"
proof -
  have "map_of error_strings code \<noteq> None \<longleftrightarrow> code \<in> set (map fst error_strings)"
    by (simp add: map_of_eq_None_iff)
  then show "hpd_error_code_to_string code \<noteq> None \<longleftrightarrow> -38 \<le> code \<and> code \<le> 2"
    by (simp add: hpd_error_code_to_string_def error_codes del: set_map)
  have "list_all (\<lambda>(c, t). length t < 256) error_strings" by (simp add: error_strings_def)
  then show "\<forall>t \<in> ran hpd_error_code_to_string. length t < 256"
    by (auto simp: ran_def hpd_error_code_to_string_def list_all_iff dest!: map_of_SomeD)
qed

section \<open>Properties\<close>

definition tm_ok :: "tm \<Rightarrow> bool" where
  "tm_ok t \<longleftrightarrow> tm_year t < 8100 \<and> tm_mon t < 12 \<and> tm_mday t < 32 \<and> tm_hour t < 24 \<and> tm_min t < 60 \<and> tm_sec t \<le> 60"

lemma length_pad2: "n < 100 \<Longrightarrow> length (pad c 2 (decimal n)) = 2"
  using decimal_digits [of n 2] by (simp add: pad_def)

lemma tm_ok_lengths:
  assumes "tm_ok t"
  shows "length (get_date t) \<le> 10" and "length (get_time t) = 8"
  using assms decimal_digits [of "1900 + tm_year t" 4]
  by (simp_all add: tm_ok_def get_date_def get_time_def length_pad2)

lemma message_fits:
  assumes "tm_ok t"
  shows "\<exists>msg. get_allocated_log_message t es ip method stem query = Some msg \<and>
    length msg < message_size [es, ip, method, stem, query]"
  using tm_ok_lengths [OF assms] by (simp add: get_allocated_log_message_def message_size_def Let_def)

lemma length_write_at: "length (write_at p s f) = max (p + length s) (length f)"
  by (simp add: write_at_def)

lemma take_write_at: "n \<le> p \<Longrightarrow> n \<le> length f \<Longrightarrow> take n (write_at p s f) = take n f"
  by (simp add: write_at_def take_append min_def)

lemma write_at_reads: "take (length s) (drop p (write_at p s f)) = s"
  by (simp add: write_at_def)

text \<open>
  A request is logged without an overflow of the buffers of the message; the message and a newline
  stand in the file at the old position or at the start, the header lines stay, and the file does not grow
  beyond its limit by more than the newline, as long as a single message fits behind the header.
\<close>

theorem log_bounded:
  assumes "tm_ok t" and "0 < log_level l" and "level \<le> log_level l" and "openable l"
    and "global_queue m = Some g" and "queues m g \<noteq> None"
    and "initial_pos l \<le> pos l" and "initial_pos l \<le> length (log_file l)" and "pos l \<le> max_log_size l + 1"
    and "initial_pos l + message_size [es, ip, method, stem, query] \<le> max_log_size l"
  shows "\<exists>msg l' m'. Log t level es ip method stem query (Some l) m = Some (0, Some l', m') \<and>
    (let p = pos l' - length msg - 1 in
       p \<in> {pos l, initial_pos l} \<and> take (length msg + 1) (drop p (log_file l')) = msg @ [CHR 0x0A]) \<and>
    initial_pos l \<le> pos l' \<and> pos l' \<le> max_log_size l + 1 \<and>
    take (initial_pos l) (log_file l') = take (initial_pos l) (log_file l) \<and>
    length (log_file l') \<le> max (max_log_size l + 1) (length (log_file l))"
proof -
  obtain msg where msg: "get_allocated_log_message t es ip method stem query = Some msg"
    "length msg < message_size [es, ip, method, stem, query]" using message_fits [OF assms(1)] by blast
  obtain q where q: "queues m g = Some q" using assms(6) by blast
  obtain m' where m': "send_log_event (Some msg) m = Some (0, m')"
    using assms(5) q queue_event_global [of "\<lparr>eid = Some ''Log'', edata = Some msg\<rparr>" "''Log''" q]
    by (simp add: send_log_event_def queue_event_at_def)
  define p where "p = pos (set_position_for_new_message (length msg) l)"
  have p: "p \<in> {pos l, initial_pos l}" "p + length msg \<le> max_log_size l" "initial_pos l \<le> p"
    using assms(7,10) msg(2) by (auto simp: p_def set_position_for_new_message_def)
  let ?l = "(set_position_for_new_message (length msg) l)\<lparr>log_file := write_at p (msg @ [CHR 0x0A]) (log_file l),
    pos := p + (length msg + 1)\<rparr>"
  have "Log t level es ip method stem query (Some l) m = Some (0, Some ?l, m')"
    using assms(2-4) msg(1) m' by (simp add: Log_def p_def Let_def set_position_for_new_message_def)
  moreover have "take (length msg + 1) (drop p (log_file ?l)) = msg @ [CHR 0x0A]"
    using write_at_reads [of "msg @ [CHR 0x0A]" p "log_file l"] by simp
  moreover have "take (initial_pos l) (log_file ?l) = take (initial_pos l) (log_file l)"
    using p(3) assms(8) by (simp add: take_write_at)
  moreover have "length (log_file ?l) \<le> max (max_log_size l + 1) (length (log_file l))"
    using p(2) by (simp add: length_write_at)
  moreover have "pos ?l - length msg - 1 = p" by simp
  ultimately show ?thesis using p unfolding Let_def
    by (intro exI [of _ msg] exI [of _ ?l] exI [of _ m']) simp
qed

theorem log_bounded_witness:
  "\<exists>l' m'. Log \<lparr>tm_year = 112, tm_mon = 0, tm_mday = 5, tm_hour = 9, tm_min = 7, tm_sec = 3\<rparr> 1 None (Some ''10.0.0.1'')
      (Some ''GET'') (Some ''/devices'') None
      (Some \<lparr>max_log_size = 100, log_level = 1, send_events = 0, log_file = ''#h'', initial_pos = 2, pos = 2,
        openable = True, open_handles = 0\<rparr>) two_sessions = Some (0, Some l', m') \<and> take 2 (log_file l') = ''#h''"
  using log_bounded [of "\<lparr>tm_year = 112, tm_mon = 0, tm_mday = 5, tm_hour = 9, tm_min = 7, tm_sec = 3\<rparr>"
      "\<lparr>max_log_size = 100, log_level = 1, send_events = 0, log_file = ''#h'', initial_pos = 2, pos = 2,
        openable = True, open_handles = 0\<rparr>" 1 two_sessions 0 None "Some ''10.0.0.1''" "Some ''GET''" "Some ''/devices''" None]
  by (auto simp: tm_ok_def two_sessions_def message_size_def or_dash_def)

end
