(* ===== verification/HpdServer.thy ===== *)
theory HpdServer
  imports HpdLog
begin

text \<open>
  The web server of the HomePort daemon (\<open>hpdaemon/hpd_http_web_server.c\<close>) and the functions that keep it,
  the XML description and the event queues together (\<open>hpdaemon/hpd_web_server.c\<close>), built with HTTP and
  without HTTPS.

  The list of the registered services is \<open>service_head\<close> of the memory, \<open>daemon\<close> says whether the pointer
  \<open>d\<close> to the daemon of libmicrohttpd is set, which the functions assert. What libmicrohttpd and Avahi
  return, the texts that Mini-XML prints and parses, and the functions of the adapters that read and set a
  device are fields of an environment.
\<close>

abbreviation (input) HPD_E_BAD_PARAMETER :: int where "HPD_E_BAD_PARAMETER \<equiv> -6"
abbreviation (input) HPD_E_MHD_ERROR :: int where "HPD_E_MHD_ERROR \<equiv> -7"
abbreviation (input) HPD_E_NO_HTTPS :: int where "HPD_E_NO_HTTPS \<equiv> -10"
abbreviation (input) HPD_E_XML_ERROR :: int where "HPD_E_XML_ERROR \<equiv> -18"
abbreviation (input) MHD_HTTP_OK :: int where "MHD_HTTP_OK \<equiv> 200"
abbreviation (input) MHD_HTTP_BAD_REQUEST :: int where "MHD_HTTP_BAD_REQUEST \<equiv> 400"
abbreviation (input) MHD_HTTP_INTERNAL_SERVER_ERROR :: int where "MHD_HTTP_INTERNAL_SERVER_ERROR \<equiv> 500"

section \<open>The list of services\<close>

definition register_service_in_unsecure_server :: "addr option \<Rightarrow> hpd \<Rightarrow> (int \<times> hpd) option" where
  "register_service_in_unsecure_server ser m =
     (if \<not> daemon m then None
      else Some (case ser of
         None \<Rightarrow> (HPD_E_NULL_POINTER, m)
       | Some s \<Rightarrow> (HPD_E_SUCCESS, m\<lparr>service_head := service_head m @ [s]\<rparr>)))"

definition unregister_service_in_unsecure_server :: "addr \<Rightarrow> hpd \<Rightarrow> (int \<times> hpd) option" where
  "unregister_service_in_unsecure_server s m =
     (if \<not> daemon m then None
      else do {
        e \<leftarrow> search (\<lambda>i. cmp_ServiceElement m i s) (service_head m);
        Some (HPD_E_SUCCESS, case e of None \<Rightarrow> m | Some i \<Rightarrow> m\<lparr>service_head := remove1 i (service_head m)\<rparr>)
      })"

fun free_services :: "addr list \<Rightarrow> hpd \<Rightarrow> hpd option" where
  "free_services [] m = Some m"
| "free_services (s # ss) m = do {
     (rc, m1) \<leftarrow> destroy_service_struct (Some s) (m\<lparr>service_head := remove1 s (service_head m)\<rparr>);
     free_services ss m1
   }"

definition free_unsecure_server_services :: "hpd \<Rightarrow> (int \<times> hpd) option" where
  "free_unsecure_server_services m =
     (if service_head m = [] then Some (HPD_E_NULL_POINTER, m)
      else do { m1 \<leftarrow> free_services (service_head m) m; Some (HPD_E_SUCCESS, m1) })"

definition start_unsecure_server :: "bool \<Rightarrow> hpd \<Rightarrow> int \<times> hpd" where
  "start_unsecure_server started m = (if started then HPD_E_SUCCESS else HPD_E_MHD_ERROR, m\<lparr>daemon := started\<rparr>)"

text \<open>The pointer \<open>d\<close> is not reset.\<close>

definition stop_unsecure_server :: "hpd \<Rightarrow> (int \<times> hpd) option" where
  "stop_unsecure_server m =
     (if \<not> daemon m then None
      else do { (rc, m1) \<leftarrow> free_unsecure_server_services m; Some (HPD_E_SUCCESS, m1) })"

definition get_service_from_unsecure_server ::
  "string \<Rightarrow> string \<Rightarrow> string \<Rightarrow> string \<Rightarrow> hpd \<Rightarrow> addr option option" where
  "get_service_from_unsecure_server dt di st si m =
     (if \<not> daemon m then None
      else search (\<lambda>e. map_option (\<lambda>k. k = (dt, di, st, si)) (four_tuple m e)) (service_head m))"

definition get_device_from_unsecure_server :: "string \<Rightarrow> string \<Rightarrow> hpd \<Rightarrow> addr option option" where
  "get_device_from_unsecure_server dt di m =
     (if \<not> daemon m then None
      else do {
        e \<leftarrow> search (\<lambda>e. do { sv \<leftarrow> services m e; d \<leftarrow> sdevice sv; dv \<leftarrow> devices m d; Some (dtype dv = dt \<and> dID dv = di) })
          (service_head m);
        (case e of None \<Rightarrow> Some None | Some i \<Rightarrow> do { sv \<leftarrow> services m i; d \<leftarrow> sdevice sv; Some (Some d) })
      })"

section \<open>Registration in server, description and event queues\<close>

record server =
  mem :: hpd
  xml :: xml_file
  events :: sse
  hlog :: "hpd_log option"

text \<open>
  \<open>avahi\<close> is the result of the Avahi function. The result of \<open>add_service_to_xml\<close> is compared with -1 and
  -2; the codes that it has are other ones, so they are ignored.
\<close>

definition register_service_in_server :: "int \<Rightarrow> addr \<Rightarrow> server \<Rightarrow> (int \<times> server) option" where
  "register_service_in_server avahi s st = do {
     sv \<leftarrow> services (mem st) s;
     d \<leftarrow> sdevice sv;
     dv \<leftarrow> devices (mem st) d;
     (if secure_device dv = 0 then do {
        b \<leftarrow> is_unsecure_service_registered s (mem st);
        (if b then Some (HPD_E_SERVICE_ALREADY_REGISTER, st)
         else do {
           (rc, m1) \<leftarrow> register_service_in_unsecure_server (Some s) (mem st);
           (if rc < 0 then Some (rc, st\<lparr>mem := m1\<rparr>)
            else do {
              (rx, x1) \<leftarrow> add_service_to_xml m1 s (xml st);
              let st1 = st\<lparr>mem := m1, xml := x1\<rparr>;
              (if rx = -1 then Some (HPD_E_XML_ERROR, st1)
               else if avahi < 0 then Some (avahi, st1)
               else do {
                 (rn, e1) \<leftarrow> notify_service_availability (Some sv) HPD_YES (events st1);
                 Some (if rn < 0 then rn else HPD_E_SUCCESS, st1\<lparr>events := e1\<rparr>)
               })
            })
         })
      }
      else Some (if secure_device dv = 1 then HPD_E_NO_HTTPS else HPD_E_BAD_PARAMETER, st))
   }"

definition unregister_service_in_server :: "int \<Rightarrow> addr \<Rightarrow> server \<Rightarrow> (int \<times> server) option" where
  "unregister_service_in_server avahi s st = do {
     r \<leftarrow> is_service_registered (Some s) (mem st);
     (if r = 0 then Some (HPD_E_SERVICE_NOT_REGISTER, st)
      else do {
        sv \<leftarrow> services (mem st) s;
        d \<leftarrow> sdevice sv;
        dv \<leftarrow> devices (mem st) d;
        (if secure_device dv = 0 then do {
           (rc, m1) \<leftarrow> unregister_service_in_unsecure_server s (mem st);
           (if rc < 0 then Some (rc, st\<lparr>mem := m1\<rparr>)
            else do {
              (rx, x1) \<leftarrow> remove_service_from_XML m1 s (xml st);
              let st1 = st\<lparr>mem := m1, xml := x1\<rparr>;
              (if rx < 0 then Some (HPD_E_XML_ERROR, st1)
               else if avahi < 0 then Some (avahi, st1)
               else do {
                 (rn, e1) \<leftarrow> notify_service_availability (Some sv) HPD_NO (events st1);
                 Some (if rn < 0 then rn else HPD_E_SUCCESS, st1\<lparr>events := e1\<rparr>)
               })
            })
         }
         else Some (if secure_device dv = 1 then HPD_E_NO_HTTPS else HPD_E_BAD_PARAMETER, st))
      })
   }"

fun register_services :: "int \<Rightarrow> addr list \<Rightarrow> server \<Rightarrow> (int \<times> server) option" where
  "register_services avahi [] st = Some (HPD_E_SUCCESS, st)"
| "register_services avahi (s # ss) st = do {
     (rc, st1) \<leftarrow> register_service_in_server avahi s st;
     (if rc < 0 then Some (rc, st1) else register_services avahi ss st1)
   }"

definition register_device_services :: "int \<Rightarrow> addr \<Rightarrow> server \<Rightarrow> (int \<times> server) option" where
  "register_device_services avahi d st = do {
     dv \<leftarrow> devices (mem st) d;
     (if secure_device dv = 0 then register_services avahi (service_list dv) st
      else Some (if secure_device dv = 1 then HPD_E_NO_HTTPS else HPD_E_BAD_PARAMETER, st))
   }"

fun unregister_services :: "int \<Rightarrow> addr list \<Rightarrow> server \<Rightarrow> (int \<times> server) option" where
  "unregister_services avahi [] st = Some (HPD_E_SUCCESS, st)"
| "unregister_services avahi (s # ss) st = do {
     (rc, st1) \<leftarrow> unregister_service_in_server avahi s st;
     (if rc < 0 then Some (rc, st1) else unregister_services avahi ss st1)
   }"

definition unregister_device_services :: "int \<Rightarrow> addr \<Rightarrow> server \<Rightarrow> (int \<times> server) option" where
  "unregister_device_services avahi d st = do {
     dv \<leftarrow> devices (mem st) d;
     (if secure_device dv = 0 then unregister_services avahi (service_list dv) st
      else Some (if secure_device dv = 1 then HPD_E_NO_HTTPS else HPD_E_SUCCESS, st))
   }"

definition get_service_from_server :: "string \<Rightarrow> string \<Rightarrow> string \<Rightarrow> string \<Rightarrow> hpd \<Rightarrow> addr option option" where
  "get_service_from_server dt di st si m = get_service_from_unsecure_server dt di st si m"

definition get_device_from_server :: "string \<Rightarrow> string \<Rightarrow> hpd \<Rightarrow> addr option option" where
  "get_device_from_server dt di m = get_device_from_unsecure_server dt di m"

text \<open>Starting and stopping; the consumer thread and Avahi are outside.\<close>

definition start_server :: "bool \<Rightarrow> string \<Rightarrow> bool \<Rightarrow> int \<Rightarrow> server \<Rightarrow> int \<times> server" where
  "start_server writable_dir uuid started avahi st =
     (let (rx, x1) = init_xml_file ''services.xml'' ''12345'' writable_dir;
          st1 = st\<lparr>xml := x1\<rparr> in
      if rx < 0 then (rx, st1) else
      let (re, e1) = initiate_global_event_queue uuid (events st1); st2 = st1\<lparr>events := e1\<rparr> in
      if re < 0 then (re, st2) else
      let (rh, m1) = start_unsecure_server started (mem st2); st3 = st2\<lparr>mem := m1\<rparr> in
      (if rh < 0 then rh else avahi, st3))"

definition stop_server :: "server \<Rightarrow> (int \<times> server) option" where
  "stop_server st = do {
     e1 \<leftarrow> free_server_sent_events_ressources (events st);
     (rc, m1) \<leftarrow> stop_unsecure_server (mem st);
     Some (rc, st\<lparr>mem := m1, events := e1, xml := (xml st)\<lparr>xml_tree := [], saved := None\<rparr>\<rparr>)
   }"

section \<open>Requests\<close>

text \<open>
  \<open>made\<close> and \<open>queued\<close>: whether a response is created, and the result of \<open>MHD_queue_response\<close>.
  \<open>read_device\<close> and \<open>write_device\<close> are the functions of an adapter: the number of bytes and what they
  wrote to the buffer of 255 bytes. The printing functions may return \<open>NULL\<close>, as may the parser.
\<close>

record env =
  made :: bool
  queued :: int
  now :: tm
  client_ip :: string
  new_id :: string
  print_value :: "string \<Rightarrow> string option"
  print_subscription :: "string \<Rightarrow> string \<Rightarrow> string option"
  print_service :: "attributes \<times> attributes \<times> attributes list \<Rightarrow> string option"
  print_list :: "attributes \<times> xml_device list \<Rightarrow> string option"
  parse_value :: "string \<Rightarrow> string option"
  read_device :: "nat \<Rightarrow> int \<times> string"
  write_device :: "nat \<Rightarrow> string \<Rightarrow> int \<times> string"

record request =
  url :: string
  http_method :: string
  arg_x :: "string option"
  arg_p :: "string option"
  cookie :: "string option"
  upload :: string

text \<open>What \<open>con_cls\<close> points to between the calls for one request.\<close>

datatype con = Null | Aptr | Data string | Dangling

datatype response = Response int string "string option" | EventStream "string option"

definition error_text :: "int \<Rightarrow> string" where
  "error_text code = (if code = MHD_HTTP_NOT_FOUND then ''Not Found''
     else if code = MHD_HTTP_BAD_REQUEST then ''Bad Request''
     else if code = MHD_HTTP_INTERNAL_SERVER_ERROR then ''Internal Server Error''
     else ''Unknown error'')"

definition send_error :: "env \<Rightarrow> int \<Rightarrow> int \<times> response option" where
  "send_error v code = (if made v then (queued v, Some (Response code (error_text code) None)) else (MHD_NO, None))"

definition send_xml :: "env \<Rightarrow> string option \<Rightarrow> int \<times> response option" where
  "send_xml v text = (case text of
     None \<Rightarrow> (MHD_NO, None)
   | Some t \<Rightarrow> if made v then (queued v, Some (Response MHD_HTTP_OK t None)) else (MHD_NO, None))"

definition log_request :: "env \<Rightarrow> request \<Rightarrow> string option \<Rightarrow> server \<Rightarrow> server option" where
  "log_request v r query st = do {
     (rc, l, e) \<leftarrow> Log (now v) HPD_LOG_ONLY_REQUESTS None (Some (client_ip v)) (Some (http_method r)) (Some (url r)) query
       (hlog st) (events st);
     Some (st\<lparr>hlog := l, events := e\<rparr>)
   }"

text \<open>The string in the buffer of a service after \<open>buffer[n] = 0\<close>, which must be inside the 255 bytes.\<close>

definition terminated :: "int \<Rightarrow> string \<Rightarrow> string option" where
  "terminated n buf = (if 0 \<le> n \<and> n < 255 then Some (takeWhile (\<lambda>c. c \<noteq> CHR 0x00) (take (nat n) buf)) else None)"

type_synonym outcome = "(int \<times> response option \<times> con \<times> server) option"

definition answered :: "env \<Rightarrow> request \<Rightarrow> string option \<Rightarrow> con \<Rightarrow> server \<Rightarrow> int \<times> response option \<Rightarrow> outcome" where
  "answered v r query c st a = do { st1 \<leftarrow> log_request v r query st; Some (fst a, snd a, c, st1) }"

definition subscription_answer :: "answer \<Rightarrow> response option" where
  "subscription_answer a = map_option (\<lambda>(x, cookie). Response MHD_HTTP_OK x cookie) a"

definition get_service_value :: "env \<Rightarrow> request \<Rightarrow> addr \<Rightarrow> service \<Rightarrow> server \<Rightarrow> outcome" where
  "get_service_value v r s sv st =
     (if arg_x r = Some ''1'' then do {
        x \<leftarrow> extract_service_xml (mem st) s (xml st);
        answered v r (Some ''x=1'') Null st (send_xml v (case x of None \<Rightarrow> None | Some t \<Rightarrow> print_service v t))
      }
      else if arg_p r = Some ''1'' then do {
        (rc, a, e) \<leftarrow> subscribe_to_service (print_subscription v) (cookie r) (new_id v) sv HPD_IS_UNSECURE_CONNECTION (events st);
        answered v r (Some ''p=1'') Null (st\<lparr>events := e\<rparr>) (rc, subscription_answer a)
      }
      else
        let (n, buf) = read_device v (get_function sv) in
        if n = 0 then answered v r None Null st (send_error v MHD_HTTP_INTERNAL_SERVER_ERROR)
        else do {
          value \<leftarrow> terminated n buf;
          answered v r None Null st (send_xml v (print_value v value))
        })"

definition answer_get :: "env \<Rightarrow> request \<Rightarrow> con \<Rightarrow> server \<Rightarrow> outcome" where
  "answer_get v r c st =
     (if c \<noteq> Aptr then Some (MHD_YES, None, Aptr, st)
      else if url r = ''/log'' then do {
        (rc, a, e) \<leftarrow> subscribe_to_log_events (print_subscription v) (cookie r) (new_id v) HPD_IS_UNSECURE_CONNECTION (events st);
        answered v r None Null (st\<lparr>events := e\<rparr>) (rc, subscription_answer a)
      }
      else if url r = ''/events'' then do {
        (rc, a, e) \<leftarrow> set_up_server_sent_event_connection (made v) (queued v) (cookie r) (new_id v) HPD_IS_UNSECURE_CONNECTION (events st);
        (if rc = MHD_HTTP_NOT_FOUND then answered v r None Null (st\<lparr>events := e\<rparr>) (send_error v MHD_HTTP_NOT_FOUND)
         else answered v r None Null (st\<lparr>events := e\<rparr>) (rc, if made v then Some (EventStream a) else None))
      }
      else if url r = ''/devices'' then
        answered v r None Null st (send_xml v (print_list v (get_xml_device_list (xml st))))
      else do {
        e \<leftarrow> matching_service (mem st) (service_head (mem st)) (url r);
        (case e of
           None \<Rightarrow> answered v r None Null st (send_error v MHD_HTTP_NOT_FOUND)
         | Some s \<Rightarrow> do { sv \<leftarrow> services (mem st) s; get_service_value v r s sv st })
      })"

text \<open>
  The first call with data stores them; the next one answers, whether more data have come or not. An
  unknown service is answered without a log entry.
\<close>

definition put_service_value :: "env \<Rightarrow> request \<Rightarrow> string \<Rightarrow> nat \<Rightarrow> service \<Rightarrow> server \<Rightarrow> outcome" where
  "put_service_value v r d f sv st = (case parse_value v (takeWhile (\<lambda>c. c \<noteq> CHR 0x00) d) of
     None \<Rightarrow> answered v r None (Data d) st (send_error v MHD_HTTP_BAD_REQUEST)
   | Some x \<Rightarrow>
       let (n, buf) = write_device v f x in
       if n = 0 then answered v r None Dangling st (send_error v MHD_HTTP_INTERNAL_SERVER_ERROR)
       else do {
         value \<leftarrow> terminated n buf;
         (rc, e) \<leftarrow> send_event_of_value_change (Some sv) (Some value) (events st);
         answered v r None Dangling (st\<lparr>events := e\<rparr>) (send_xml v (print_value v value))
       })"

definition answer_put :: "env \<Rightarrow> request \<Rightarrow> con \<Rightarrow> server \<Rightarrow> outcome" where
  "answer_put v r c st = (case c of
     Null \<Rightarrow> Some (MHD_YES, None, if upload r = [] then Null else Data (upload r), st)
   | Data d \<Rightarrow> do {
       e \<leftarrow> matching_service (mem st) (service_head (mem st)) (url r);
       (case e of
          None \<Rightarrow> let a = send_error v MHD_HTTP_NOT_FOUND in Some (fst a, snd a, c, st)
        | Some s \<Rightarrow> do {
            sv \<leftarrow> services (mem st) s;
            (case put_function sv of
               None \<Rightarrow> answered v r None c st (send_error v MHD_HTTP_BAD_REQUEST)
             | Some f \<Rightarrow> put_service_value v r d f sv st)
          })
     }
   | _ \<Rightarrow> None)"

definition answer_to_connection :: "env \<Rightarrow> request \<Rightarrow> con \<Rightarrow> server \<Rightarrow> outcome" where
  "answer_to_connection v r c st =
     (if http_method r = ''GET'' then answer_get v r c st
      else if http_method r = ''PUT'' then answer_put v r c st
      else Some (MHD_NO, None, c, st))"

section \<open>URLs of services\<close>

fun url_of_key :: "service_key \<Rightarrow> string" where
  "url_of_key (dt, di, st, si) = ''/'' @ dt @ ''/'' @ di @ ''/'' @ st @ ''/'' @ si"

fun slash_free :: "service_key \<Rightarrow> bool" where
  "slash_free (dt, di, st, si) \<longleftrightarrow> CHR ''/'' \<notin> set dt \<union> set di \<union> set st"

lemma split_at_first:
  assumes "c \<notin> set a" and "c \<notin> set b"
  shows "a @ c # r = b @ c # s \<longleftrightarrow> a = b \<and> r = s"
proof
  assume eq: "a @ c # r = b @ c # s"
  have "takeWhile (\<lambda>x. x \<noteq> c) (a @ c # r) = a" "takeWhile (\<lambda>x. x \<noteq> c) (b @ c # s) = b"
    using assms by (auto simp: takeWhile_append)
  then show "a = b \<and> r = s" using eq by simp
qed simp

lemma url_inj: "slash_free k \<Longrightarrow> slash_free l \<Longrightarrow> url_of_key k = url_of_key l \<longleftrightarrow> k = l"
  by (cases k; cases l) (simp add: split_at_first)

section \<open>The server keeps a register\<close>

definition entry_ok :: "hpd \<Rightarrow> addr \<Rightarrow> bool" where
  "entry_ok m s \<longleftrightarrow> describable m s \<and> (\<exists>sv d dv ty. services m s = Some sv \<and> sdevice sv = Some d \<and>
     devices m d = Some dv \<and> str_at m (stype sv) = Some ty \<and> secure_device dv = 0 \<and>
     value_url sv = value_url_of dv ty (sID sv)) \<and> slash_free (the_key m s)"

lemma entry_okD:
  assumes "entry_ok m s"
  shows "\<exists>sv d dv ty. services m s = Some sv \<and> sdevice sv = Some d \<and> devices m d = Some dv \<and> secure_device dv = 0 \<and>
    the_device m s = Some (sv, dv, ty) \<and> four_tuple m s = Some (the_key m s) \<and>
    the_key m s = (dtype dv, dID dv, ty, sID sv) \<and> value_url sv = url_of_key (the_key m s)"
  using assms by (auto simp: entry_ok_def the_device_def four_tuple_def the_key_def value_url_of_def)

lemma entry_ok_slash: "entry_ok m s \<Longrightarrow> slash_free (the_key m s)" "entry_ok m s \<Longrightarrow> describable m s"
  by (auto simp: entry_ok_def)

lemma entry_four: "entry_ok m s \<Longrightarrow> four_tuple m s = Some (the_key m s)"
  using entry_okD by blast

lemma entry_url: "entry_ok m s \<Longrightarrow> \<exists>sv. services m s = Some sv \<and> value_url sv = url_of_key (the_key m s)"
  using entry_okD by blast

lemma entry_same_url: "entry_ok m s \<Longrightarrow> entry_ok m e \<Longrightarrow> url_of_key (the_key m e) = url_of_key (the_key m s) \<longleftrightarrow> the_key m e = the_key m s"
  using url_inj entry_ok_slash by blast

definition http_wf :: "hpd \<Rightarrow> addr list \<Rightarrow> bool" where
  "http_wf m l \<longleftrightarrow> daemon m \<and> list_all (entry_ok m) l \<and> distinct (map (the_key m) l)"

definition http_keys :: "hpd \<Rightarrow> addr list \<Rightarrow> service_key set" where
  "http_keys m l = the_key m ` set l"

definition http_mem :: "hpd \<Rightarrow> addr \<Rightarrow> addr list \<Rightarrow> bool" where
  "http_mem m s l \<longleftrightarrow> is_unsecure_service_registered s (m\<lparr>service_head := l\<rparr>) = Some True"

definition http_add :: "hpd \<Rightarrow> addr \<Rightarrow> addr list \<Rightarrow> addr list" where
  "http_add m s l = service_head (snd (the (register_service_in_unsecure_server (Some s) (m\<lparr>service_head := l\<rparr>))))"

definition http_del :: "hpd \<Rightarrow> addr \<Rightarrow> addr list \<Rightarrow> addr list" where
  "http_del m s l = service_head (snd (the (unregister_service_in_unsecure_server s (m\<lparr>service_head := l\<rparr>))))"

lemma four_tuple_head [simp]: "four_tuple (m\<lparr>service_head := l\<rparr>) s = four_tuple m s"
  by (simp add: four_tuple_def str_at_def)

text \<open>What the searches in a list of services need of an entry.\<close>

definition keyed :: "hpd \<Rightarrow> addr \<Rightarrow> bool" where
  "keyed m s \<longleftrightarrow> four_tuple m s = Some (the_key m s) \<and> slash_free (the_key m s) \<and>
     (\<exists>sv. services m s = Some sv \<and> value_url sv = url_of_key (the_key m s))"

lemma entry_keyed: "entry_ok m s \<Longrightarrow> keyed m s"
  using entry_four entry_ok_slash entry_url by (auto simp: keyed_def)

lemma search_keys:
  assumes "list_all (keyed m) l" and "keyed m s"
  shows "search (\<lambda>e. do { x \<leftarrow> four_tuple m e; y \<leftarrow> four_tuple m s; Some (x = y) }) l =
      Some (find (\<lambda>e. the_key m e = the_key m s) l)"
    and "search (\<lambda>i. cmp_ServiceElement m i s) l = Some (find (\<lambda>e. the_key m e = the_key m s) l)"
proof -
  show "search (\<lambda>e. do { x \<leftarrow> four_tuple m e; y \<leftarrow> four_tuple m s; Some (x = y) }) l =
      Some (find (\<lambda>e. the_key m e = the_key m s) l)"
    using assms by (intro search_find) (auto simp: keyed_def list_all_iff)
  show "search (\<lambda>i. cmp_ServiceElement m i s) l = Some (find (\<lambda>e. the_key m e = the_key m s) l)"
  proof (rule search_find)
    fix e assume "e \<in> set l"
    then have "keyed m e" using assms(1) by (simp add: list_all_iff)
    then show "cmp_ServiceElement m e s = Some (the_key m e = the_key m s)"
      using assms(2) url_inj [of "the_key m e" "the_key m s"] unfolding keyed_def
      by (auto simp: cmp_ServiceElement_def)
  qed
qed

lemma find_key: "find (\<lambda>e. key e = key s) l \<noteq> None \<longleftrightarrow> key s \<in> key ` set l"
  unfolding find_None_iff by (metis imageE image_eqI)

lemma cmp_ServiceElement_head [simp]: "cmp_ServiceElement (m\<lparr>service_head := l\<rparr>) = cmp_ServiceElement m"
  by (simp add: cmp_ServiceElement_def fun_eq_iff)

lemma http_wf_keyed: "http_wf m l \<Longrightarrow> list_all (keyed m) l"
  using entry_keyed by (auto simp: http_wf_def list_all_iff)

lemma is_registered_eq:
  assumes "http_wf m l" and "entry_ok m s"
  shows "is_unsecure_service_registered s (m\<lparr>service_head := l\<rparr>) = Some (the_key m s \<in> http_keys m l)"
  using assms search_keys(1) [OF http_wf_keyed entry_keyed] find_key [of "the_key m" s l]
  by (simp add: is_unsecure_service_registered_def http_wf_def http_keys_def)

lemma unregister_eq:
  assumes "http_wf m l" and "entry_ok m s"
  shows "unregister_service_in_unsecure_server s (m\<lparr>service_head := l\<rparr>) =
    Some (0, m\<lparr>service_head := filter (\<lambda>e. the_key m e \<noteq> the_key m s) l\<rparr>)"
  using assms search_keys(2) [OF http_wf_keyed entry_keyed] filter_find_remove1 [of "the_key m" l "the_key m s"]
  by (auto simp: unregister_service_in_unsecure_server_def http_wf_def split: option.splits)

lemma http_registry: "registry (http_wf m) (http_keys m) (the_key m) (entry_ok m) (http_add m) (http_del m) (http_mem m)"
  unfolding http_keys_def
proof (rule list_registry)
  fix l s assume l: "http_wf m l" and s: "entry_ok m s"
  show "http_mem m s l \<longleftrightarrow> the_key m s \<in> the_key m ` set l"
    using is_registered_eq [OF l s] by (simp add: http_mem_def http_keys_def)
  show "http_add m s l = l @ [s]"
    using l by (simp add: http_add_def register_service_in_unsecure_server_def http_wf_def)
  show "http_del m s l = filter (\<lambda>e. the_key m e \<noteq> the_key m s) l"
    using unregister_eq [OF l s] by (simp add: http_del_def)
qed (auto simp: http_wf_def list_wf_def)

interpretation http: registry "http_wf m" "http_keys m" "the_key m" "entry_ok m" "http_add m" "http_del m" "http_mem m" for m
  by (rule http_registry)


section \<open>Registration keeps the parts together\<close>

lemma head_irrelevant [simp]:
  "the_key (m\<lparr>service_head := l\<rparr>) = the_key m" "the_device (m\<lparr>service_head := l\<rparr>) s = the_device m s"
  "describable (m\<lparr>service_head := l\<rparr>) s = describable m s" "entry_ok (m\<lparr>service_head := l\<rparr>) s = entry_ok m s"
  by (simp_all add: the_key_def the_device_def describable_def entry_ok_def str_at_def fun_eq_iff)

lemma head_irrelevant_set [simp]:
  "http_wf (m\<lparr>service_head := l\<rparr>) = http_wf m" "http_keys (m\<lparr>service_head := l\<rparr>) = http_keys m"
  by (simp_all add: http_wf_def http_keys_def fun_eq_iff list_all_iff)

lemma head_elements [simp]: "parameter_elements (m\<lparr>service_head := l\<rparr>) ps = parameter_elements m ps"
  by (induction ps) auto

lemma head_xml [simp]:
  "add_service_to_xml (m\<lparr>service_head := l\<rparr>) s x = add_service_to_xml m s x"
  "remove_service_from_XML (m\<lparr>service_head := l\<rparr>) s x = remove_service_from_XML m s x"
  unfolding add_service_to_xml_def remove_service_from_XML_def head_irrelevant head_elements by (rule refl)+

lemma notify_queues_ok:
  assumes "a = HPD_YES \<or> a = HPD_NO" and "set as \<subseteq> dom (queues m)"
  shows "\<exists>m'. notify_queues u a as m = Some m' \<and> queue_list m' = queue_list m \<and> global_queue m' = global_queue m \<and>
    dom (queues m') = dom (queues m)"
  using assms(2)
proof (induction as arbitrary: m)
  case (Cons b bs)
  then obtain q where q: "queues m b = Some q" by auto
  define r where "r = set_availability_of_service (Some u) (Some q) a"
  have r: "\<exists>q'. snd r = Some q'" using assms(1)
    by (auto simp: r_def set_availability_of_service_def split: option.split)
  then obtain q' where q': "snd r = Some q'" by blast
  define e where "e = \<lparr>eid = Some u, edata = Some (if a = HPD_YES then ''available'' else ''unavailable'')\<rparr>"
  have "complete e" by (simp add: e_def complete_def)
  then have "queue_event_at (Some b) (Some e) HPD_NO (put_queue b (Some q') m) =
      Some (0, signal (accepts q' e \<and> is_waiting q' = HPD_YES \<and> connection_id q' \<noteq> None) b
        (put_queue b (Some (taken e q')) (put_queue b (Some q') m)))" (is "_ = Some (0, ?m1)")
    using queue_event_session [of e q'] by (simp add: queue_event_at_def taken_def)
  then obtain m1 where m1: "(if fst r = HPD_YES then map_option snd (queue_event_at (Some b) (Some e) HPD_NO (put_queue b (Some q') m))
      else Some (put_queue b (Some q') m)) = Some m1" "queue_list m1 = queue_list m" "global_queue m1 = global_queue m"
    "dom (queues m1) = dom (queues m)"
    using q by (cases "fst r = HPD_YES") auto
  have "notify_queues u a (b # bs) m = notify_queues u a bs m1"
    using q q' m1(1) by (cases r) (auto simp: r_def [symmetric] e_def split: if_splits)
  with m1 Cons show ?case by (metis insert_subset list.simps(15))
qed simp

text \<open>\<open>E\<close> are the services that the description has from elsewhere.\<close>

definition server_ok_with :: "service_key set \<Rightarrow> server \<Rightarrow> bool" where
  "server_ok_with E st \<longleftrightarrow> http_wf (mem st) (service_head (mem st)) \<and> xml_wf (xml st) \<and>
     xml_keys (xml st) = http_keys (mem st) (service_head (mem st)) \<union> E \<and>
     events_ok (events st)"

definition server_ok :: "server \<Rightarrow> bool" where
  "server_ok st \<longleftrightarrow> http_wf (mem st) (service_head (mem st)) \<and> xml_wf (xml st) \<and>
     xml_keys (xml st) = http_keys (mem st) (service_head (mem st)) \<and>
     events_ok (events st)"

lemma server_ok_with_empty: "server_ok_with {} st \<longleftrightarrow> server_ok st"
  by (simp add: server_ok_with_def server_ok_def)

definition registered :: "server \<Rightarrow> service_key set" where
  "registered st = http_keys (mem st) (service_head (mem st))"

lemma notify_ok:
  assumes "a = HPD_YES \<or> a = HPD_NO" and "events_ok m"
  shows "\<exists>m'. notify_service_availability (Some sv) a m = Some (0, m') \<and> events_ok m'"
  using notify_queues_ok [OF assms(1), of "queue_list m" m "value_url sv"] assms(2)
  by (auto simp: notify_service_availability_def events_ok_def)

lemma register_with_eq:
  assumes "server_ok_with E st" and "entry_ok (mem st) s" and "the_key (mem st) s \<notin> E"
  shows "\<exists>rc st'. register_service_in_server avahi s st = Some (rc, st') \<and> server_ok_with E st' \<and>
    mem st' = (mem st)\<lparr>service_head := service_head (mem st')\<rparr> \<and>
    registered st' = insert (the_key (mem st) s) (registered st) \<and>
    rc = (if the_key (mem st) s \<in> registered st then -11 else min avahi 0)"
proof -
  let ?m = "mem st" and ?l = "service_head (mem st)" and ?k = "the_key (mem st) s"
  have wf: "http_wf ?m ?l" "xml_wf (xml st)" "xml_keys (xml st) = http_keys ?m ?l \<union> E"
    and ev: "events_ok (events st)"
    using assms(1) by (auto simp: server_ok_with_def)
  obtain sv d dv ty where s: "services ?m s = Some sv" "sdevice sv = Some d" "devices ?m d = Some dv" "secure_device dv = 0"
    "the_device ?m s = Some (sv, dv, ty)" "?k = (dtype dv, dID dv, ty, sID sv)" using entry_okD [OF assms(2)] by blast
  have reg: "is_unsecure_service_registered s ?m = Some (?k \<in> registered st)"
    using is_registered_eq [OF wf(1) assms(2)] by (simp add: registered_def)
  show ?thesis
  proof (cases "?k \<in> registered st")
    case True
    then have "register_service_in_server avahi s st = Some (-11, st)"
      using s reg by (simp add: register_service_in_server_def)
    then show ?thesis using True assms(1) by (auto simp: insert_absorb)
  next
    case False
    have mem: "\<not> http_mem ?m s ?l" using http.mem_iff [OF wf(1) assms(2)] False by (simp add: registered_def)
    have add: "http_add ?m s ?l = ?l @ [s]"
      using wf(1) by (simp add: http_add_def register_service_in_unsecure_server_def http_wf_def)
    have wf': "http_wf ?m (?l @ [s])" "http_keys ?m (?l @ [s]) = insert ?k (http_keys ?m ?l)"
      using http.add_wf [OF wf(1) assms(2) mem] http.add_keys [OF wf(1) assms(2) mem] add by simp_all
    have "set (parameter_list sv) \<subseteq> dom (parameters ?m)" using assms(2) s(5) by (auto simp: entry_ok_def describable_def)
    from add_service_to_xml_eq [OF wf(2) s(5) this] False obtain x' where x: "add_service_to_xml ?m s (xml st) = Some (0, x')"
      "xml_wf x'" "xml_keys x' = insert ?k (xml_keys (xml st))" using wf(3) s(6) assms(3) by (auto simp: registered_def)
    obtain e' where e: "notify_service_availability (Some sv) HPD_YES (events st) = Some (0, e')"
      "events_ok e'" using notify_ok [OF _ ev, of HPD_YES sv] by auto
    let ?st = "st\<lparr>mem := ?m\<lparr>service_head := ?l @ [s]\<rparr>, xml := x', events := if avahi < 0 then events st else e'\<rparr>"
    have "register_service_in_server avahi s st = Some (min avahi 0, ?st)"
      using s reg False x(1) e(1) wf(1)
      by (simp add: register_service_in_server_def register_service_in_unsecure_server_def http_wf_def Let_def)
    moreover have "server_ok_with E ?st" using wf' x(2,3) wf(3) ev e(2) assms(3) by (auto simp: server_ok_with_def)
    ultimately show ?thesis using False wf'(2) by (simp add: registered_def)
  qed
qed

lemma unregister_with_eq:
  assumes "server_ok_with E st" and "entry_ok (mem st) s" and "the_key (mem st) s \<notin> E"
  shows "\<exists>rc st'. unregister_service_in_server avahi s st = Some (rc, st') \<and> server_ok_with E st' \<and>
    mem st' = (mem st)\<lparr>service_head := service_head (mem st')\<rparr> \<and>
    registered st' = registered st - {the_key (mem st) s} \<and>
    rc = (if the_key (mem st) s \<in> registered st then min avahi 0 else -12)"
proof -
  let ?m = "mem st" and ?l = "service_head (mem st)" and ?k = "the_key (mem st) s"
  have wf: "http_wf ?m ?l" "xml_wf (xml st)" "xml_keys (xml st) = http_keys ?m ?l \<union> E"
    and ev: "events_ok (events st)"
    using assms(1) by (auto simp: server_ok_with_def)
  obtain sv d dv ty where s: "services ?m s = Some sv" "sdevice sv = Some d" "devices ?m d = Some dv" "secure_device dv = 0"
    "the_device ?m s = Some (sv, dv, ty)" "?k = (dtype dv, dID dv, ty, sID sv)" using entry_okD [OF assms(2)] by blast
  have "is_unsecure_service_registered s ?m = Some (?k \<in> registered st)"
    using is_registered_eq [OF wf(1) assms(2)] by (simp add: registered_def)
  then have reg: "is_service_registered (Some s) ?m = Some (if ?k \<in> registered st then 1 else 0)"
    using s by (simp add: is_service_registered_def)
  show ?thesis
  proof (cases "?k \<in> registered st")
    case False
    then have "unregister_service_in_server avahi s st = Some (-12, st)"
      using reg by (simp add: unregister_service_in_server_def)
    then show ?thesis using False assms(1) by auto
  next
    case True
    let ?l' = "filter (\<lambda>e. the_key ?m e \<noteq> ?k) ?l"
    have un: "unregister_service_in_unsecure_server s ?m = Some (0, ?m\<lparr>service_head := ?l'\<rparr>)"
      using unregister_eq [OF wf(1) assms(2)] by simp
    have wf': "http_wf ?m ?l'" "http_keys ?m ?l' = http_keys ?m ?l - {?k}"
      using wf(1) by (auto simp: http_wf_def list_all_iff distinct_map_filter http_keys_def)
    from remove_service_from_XML_eq [OF wf(2) s(5)] True obtain x' where x: "remove_service_from_XML ?m s (xml st) = Some (1, x')"
      "xml_wf x'" "xml_keys x' = xml_keys (xml st) - {?k}" using wf(3) s(6) assms(3) by (auto simp: registered_def)
    obtain e' where e: "notify_service_availability (Some sv) HPD_NO (events st) = Some (0, e')"
      "events_ok e'" using notify_ok [OF _ ev, of HPD_NO sv] by auto
    let ?st = "st\<lparr>mem := ?m\<lparr>service_head := ?l'\<rparr>, xml := x', events := if avahi < 0 then events st else e'\<rparr>"
    have "unregister_service_in_server avahi s st = Some (min avahi 0, ?st)"
      using s reg True x(1) e(1) un
      by (simp add: unregister_service_in_server_def Let_def)
    moreover have "server_ok_with E ?st" using wf' x(2,3) wf(3) ev e(2) assms(3) by (auto simp: server_ok_with_def)
    ultimately show ?thesis using True wf'(2) by (simp add: registered_def)
  qed
qed

lemmas register_eq = register_with_eq [where E = "{}", unfolded server_ok_with_empty, simplified]
lemmas unregister_server_eq = unregister_with_eq [where E = "{}", unfolded server_ok_with_empty, simplified]

section \<open>The end of the server\<close>

lemma hpd_wf_head [simp]: "hpd_wf (m\<lparr>service_head := l\<rparr>) = hpd_wf m"
  by (simp add: hpd_wf_def service_ok_def device_ok_def)

text \<open>Destroying a service leaves the others in the form that the server needs.\<close>

lemma destroyed_keeps:
  assumes "hpd_wf m" and "services m s = Some sv" and "sdevice sv = Some d" and "devices m d = Some dv"
    and "services m e = Some x" and "sdevice x = Some d'" and "devices m d' = Some dv'" and "e \<noteq> s"
  shows "services (destroyed s sv d dv m) e = Some x"
    and "\<exists>l. devices (destroyed s sv d dv m) d' = Some (dv'\<lparr>service_list := l\<rparr>)"
    and "strs (destroyed s sv d dv m) (stype x) = strs m (stype x)"
    and "set (parameter_list x) \<inter> dom (parameters (destroyed s sv d dv m)) = set (parameter_list x) \<inter> dom (parameters m)"
proof -
  have apart: "stype x \<noteq> stype sv" "set (parameter_list x) \<inter> set (parameter_list sv) = {}"
    using hpd_wfD(3) [OF assms(1,5,2,8)] by simp_all
  have "e \<in> set (service_list dv')" using hpd_wfD(1) [OF assms(1,5)] assms(6,7) by (auto simp: service_ok_def)
  then have "d' = d \<Longrightarrow> remove1 s (service_list dv) \<noteq> []"
    using assms(4,7,8) by (metis in_set_remove1 list.set_cases list.simps(3) option.inject)
  moreover have "\<exists>l. dv' = dv'\<lparr>service_list := l\<rparr>" by (rule exI [of _ "service_list dv'"]) simp
  ultimately show "\<exists>l. devices (destroyed s sv d dv m) d' = Some (dv'\<lparr>service_list := l\<rparr>)"
    using assms(4,7) by (cases "d' = d") (auto simp: destroyed_def removed_def without_device_def)
  show "services (destroyed s sv d dv m) e = Some x" "strs (destroyed s sv d dv m) (stype x) = strs m (stype x)"
    using assms(5,8) apart by (simp_all add: destroyed_def removed_def without_device_def)
  show "set (parameter_list x) \<inter> dom (parameters (destroyed s sv d dv m)) = set (parameter_list x) \<inter> dom (parameters m)"
    using apart by (auto simp: destroyed_def removed_def without_device_def)
qed

lemma entry_ok_destroyed:
  assumes "hpd_wf m" and "services m s = Some sv" and "sdevice sv = Some d" and "devices m d = Some dv"
    and "entry_ok m e" and "e \<noteq> s"
  shows "entry_ok (destroyed s sv d dv m) e" and "the_key (destroyed s sv d dv m) e = the_key m e"
proof -
  let ?m = "destroyed s sv d dv m"
  obtain x d' dv' ty where e: "services m e = Some x" "sdevice x = Some d'" "devices m d' = Some dv'"
    "str_at m (stype x) = Some ty" "secure_device dv' = 0" "value_url x = value_url_of dv' ty (sID x)"
    "set (parameter_list x) \<subseteq> dom (parameters m)"
    using assms(5) unfolding entry_ok_def describable_def by (auto simp: the_device_def)
  note keep = destroyed_keeps [OF assms(1-4) e(1-3) assms(6)]
  obtain l where l: "devices ?m d' = Some (dv'\<lparr>service_list := l\<rparr>)" using keep(2) by blast
  have ty: "str_at ?m (stype x) = Some ty" using keep(3) e(4) by (simp add: str_at_def)
  show key: "the_key ?m e = the_key m e" using keep(1) l ty e by (simp add: the_key_def four_tuple_def)
  have "set (parameter_list x) \<subseteq> dom (parameters ?m)" using keep(4) e(7) by blast
  then have "describable ?m e" using keep(1) l ty e(2) by (simp add: describable_def the_device_def)
  then show "entry_ok ?m e"
    using assms(5) key keep(1) l ty e by (simp add: entry_ok_def value_url_of_def)
qed

lemma free_services_eq:
  assumes "hpd_wf m" and "http_wf m l" and "service_head m = l"
  shows "\<exists>m'. free_services l m = Some m' \<and> hpd_wf m' \<and> service_head m' = [] \<and> services m' = services m |` (- set l)"
  using assms
proof (induction l arbitrary: m)
  case Nil
  then show ?case by (auto simp: restrict_map_def)
next
  case (Cons s ss)
  let ?m = "m\<lparr>service_head := ss\<rparr>"
  have wf: "http_wf m ss" "entry_ok m s" "the_key m s \<notin> http_keys m ss" "s \<notin> set ss"
    using Cons.prems(2) by (auto simp: http_wf_def http_keys_def)
  obtain sv d dv where s: "services m s = Some sv" "sdevice sv = Some d" "devices m d = Some dv" "secure_device dv = 0"
    using entry_okD [OF wf(2)] by blast
  have "is_service_registered (Some s) ?m = Some 0"
    using is_registered_eq [OF wf(1,2)] wf(3) s by (simp add: is_service_registered_def)
  then have step: "free_services (s # ss) m = free_services ss (destroyed s sv d dv ?m)"
    using destroy_service_eq [of ?m s sv d dv] Cons.prems(1,3) s by simp
  let ?m' = "destroyed s sv d dv ?m"
  have keep: "entry_ok ?m' e" "the_key ?m' e = the_key m e" if "e \<in> set ss" for e
  proof -
    have "entry_ok m e" "e \<noteq> s" using that wf(1,4) by (auto simp: http_wf_def list_all_iff)
    then show "entry_ok ?m' e" "the_key ?m' e = the_key m e"
      using entry_ok_destroyed [of ?m s sv d dv e] Cons.prems(1) s by simp_all
  qed
  have "map (the_key ?m') ss = map (the_key m) ss" using keep(2) by simp
  then have "distinct (map (the_key ?m') ss)" using wf(1) by (simp only: http_wf_def)
  moreover have "daemon ?m' = daemon m" by (simp add: destroyed_def removed_def without_device_def)
  ultimately have "http_wf ?m' ss" using wf(1) keep(1) by (simp add: http_wf_def list_all_iff)
  moreover have "hpd_wf ?m'" using hpd_wf_destroyed [of ?m s sv d dv] Cons.prems(1) s by simp
  moreover have "service_head ?m' = ss" by (simp add: destroyed_def removed_def without_device_def)
  ultimately obtain m' where m': "free_services ss ?m' = Some m'" "hpd_wf m'" "service_head m' = []"
    "services m' = services ?m' |` (- set ss)" using Cons.IH [of ?m'] by blast
  have "services ?m' |` (- set ss) = services m |` (- set (s # ss))"
    by (auto simp: restrict_map_def destroyed_def removed_def without_device_def)
  with m' show ?case using step by simp
qed

lemma stop_server_eq:
  assumes "server_ok st" and "hpd_wf (mem st)"
  shows "\<exists>st'. stop_server st = Some (0, st') \<and> hpd_wf (mem st') \<and> service_head (mem st') = [] \<and>
    services (mem st') = services (mem st) |` (- set (service_head (mem st))) \<and> xml_tree (xml st') = [] \<and>
    queue_list (events st') = [] \<and> hlog st' = hlog st"
proof -
  obtain e where "free_server_sent_events_ressources (events st) = Some e" "queue_list e = []"
    using free_ressources_ok assms(1) by (auto simp: server_ok_def)
  moreover obtain m where "free_services (service_head (mem st)) (mem st) = Some m" "hpd_wf m" "service_head m = []"
    "services m = services (mem st) |` (- set (service_head (mem st)))"
    using free_services_eq [OF assms(2) _ refl] assms(1) by (auto simp: server_ok_def)
  moreover have "daemon (mem st)" using assms(1) by (simp add: server_ok_def http_wf_def)
  ultimately show ?thesis
    using assms(2) by (cases "service_head (mem st)")
      (auto simp: stop_server_def stop_unsecure_server_def free_unsecure_server_services_def)
qed

section \<open>Properties\<close>

fun run_server :: "(bool \<times> int \<times> addr) list \<Rightarrow> server \<Rightarrow> server option" where
  "run_server [] st = Some st"
| "run_server ((b, avahi, s) # ops) st = do {
     (rc, st1) \<leftarrow> (if b then register_service_in_server avahi s st else unregister_service_in_server avahi s st);
     run_server ops st1
   }"

lemma run_server_ok:
  assumes "server_ok st" and "list_all (\<lambda>(b, avahi, s). entry_ok (mem st) s) ops"
  shows "\<exists>st'. run_server ops st = Some st' \<and> server_ok st' \<and> xml_keys (xml st') = registered st' \<and>
    registered st' = fold (\<lambda>(b, avahi, s). track (the_key (mem st)) (b, s)) ops (registered st) \<and>
    mem st' = (mem st)\<lparr>service_head := service_head (mem st')\<rparr>"
  using assms
proof (induction ops arbitrary: st)
  case Nil
  then show ?case by (auto simp: server_ok_def registered_def)
next
  case (Cons op ops)
  obtain b avahi s where op: "op = (b, avahi, s)" by (cases op)
  have s: "entry_ok (mem st) s" using Cons.prems(2) by (simp add: op)
  obtain rc st1 where st1: "(if b then register_service_in_server avahi s st else unregister_service_in_server avahi s st) = Some (rc, st1)"
    "server_ok st1" "mem st1 = (mem st)\<lparr>service_head := service_head (mem st1)\<rparr>"
    "registered st1 = track (the_key (mem st)) (b, s) (registered st)"
    using register_eq [OF Cons.prems(1) s, of avahi] unregister_server_eq [OF Cons.prems(1) s, of avahi]
    by (cases b) (auto simp: track_def)
  have "the_key (mem st1) = the_key (mem st)" "\<And>s. entry_ok (mem st1) s = entry_ok (mem st) s"
    "\<And>l. (mem st1)\<lparr>service_head := l\<rparr> = (mem st)\<lparr>service_head := l\<rparr>"
    by (subst st1(3); simp)+
  with Cons.IH [OF st1(2)] Cons.prems(2) st1(1,4) show ?case by (simp add: op)
qed

text \<open>
  C6. Whatever sequence of services is registered and unregistered, with repetitions and with failures of
  Avahi: nothing crashes, the web server serves exactly the services that were registered and not
  unregistered since, and the XML description lists exactly these. (Names without a slash; an operation
  that fails in Avahi has happened all the same.)
\<close>

theorem server_and_xml_agree:
  assumes "server_ok st" and "list_all (\<lambda>(b, avahi, s). entry_ok (mem st) s) ops"
  shows "\<exists>st'. run_server ops st = Some st' \<and> server_ok st' \<and> xml_keys (xml st') = registered st' \<and>
    registered st' = fold (\<lambda>(b, avahi, s). track (the_key (mem st)) (b, s)) ops (registered st)"
  using run_server_ok [OF assms] by blast

definition demo_server :: server where
  "demo_server = \<lparr>mem = one_service 0 0, xml = snd (init_xml_file ''services.xml'' ''12345'' True), events = two_sessions,
     hlog = None\<rparr>"

lemma one_service_entry: "entry_ok (one_service 0 0) 1"
proof -
  have "\<exists>sv d dv ty. services (one_service 0 0) 1 = Some sv \<and> sdevice sv = Some d \<and>
     devices (one_service 0 0) d = Some dv \<and> str_at (one_service 0 0) (stype sv) = Some ty \<and> secure_device dv = 0 \<and>
     value_url sv = value_url_of dv ty (sID sv)"
    by (simp add: one_service_eq created_def new_service_def one_device_def create_device_struct_def str_at_def value_url_of_def)
      (rule exI [of _ True], rule TrueI)
  then show ?thesis unfolding entry_ok_def one_service_key using one_service_describable by simp
qed

lemma demo_server_ok: "server_ok demo_server"
  by (simp add: server_ok_def demo_server_def http_wf_def http_keys_def init_xml_file_def xml_wf_def tree_wf_def xml_keys_def
      one_service_eq created_def one_device_def create_device_struct_def two_sessions_def events_ok_def)

theorem server_and_xml_agree_witness:
  "\<exists>st'. run_server [(True, 0, 1), (True, 0, 1), (False, -21, 1), (True, 0, 1)] demo_server = Some st' \<and>
    xml_keys (xml st') = {(''Lamp'', ''1'', ''Switch'', ''0'')}"
proof -
  have "list_all (\<lambda>(b, avahi, s). entry_ok (mem demo_server) s) [(True, 0, 1), (True, 0, 1), (False, -21, 1), (True, 0, 1)]"
    using one_service_entry by (simp add: demo_server_def)
  from server_and_xml_agree [OF demo_server_ok this] obtain st' where
    "run_server [(True, 0, 1), (True, 0, 1), (False, -21, 1), (True, 0, 1)] demo_server = Some st'"
    "xml_keys (xml st') = registered st'"
    "registered st' = fold (\<lambda>(b, avahi :: int, s). track (the_key (mem demo_server)) (b, s))
       [(True, 0, 1), (True, 0, 1), (False, -21, 1), (True, 0, 1)] (registered demo_server)" by blast
  moreover have "the_key (mem demo_server) 1 = (''Lamp'', ''1'', ''Switch'', ''0'')" "registered demo_server = {}"
    using one_service_key by (simp_all add: demo_server_def registered_def http_keys_def one_service_eq created_def
        one_device_def create_device_struct_def)
  ultimately show ?thesis by (auto simp: track_def)
qed

text \<open>
  Without the restriction on names: of two registered services with different names and the same URL,
  unregistering the second removes the first; the second is still registered, and the URL is still served.
\<close>

theorem url_collision:
  assumes "daemon m" and "service_head m = [s, t]" and "s \<noteq> t"
    and "services m s = Some sv" and "services m t = Some tv" and "value_url sv = value_url tv"
    and "four_tuple m s = Some k" and "four_tuple m t = Some l" and "k \<noteq> l"
  shows "\<exists>m'. is_unsecure_service_registered t m = Some True \<and>
    unregister_service_in_unsecure_server t m = Some (0, m') \<and>
    is_unsecure_service_registered t m' = Some True \<and> is_unsecure_service_registered s m' = Some False \<and>
    matching_service m (service_head m) (value_url tv) = Some (Some s) \<and>
    matching_service m' (service_head m') (value_url tv) = Some (Some t)"
  using assms by (simp add: is_unsecure_service_registered_def unregister_service_in_unsecure_server_def
      cmp_ServiceElement_def matching_service_def)

definition slashes :: hpd where
  "slashes = (let m = (one_service 0 0)\<lparr>strs := [0 \<mapsto> (True, ''Switch''), 1 \<mapsto> (True, ''0/Switch'')]\<rparr> in
     m\<lparr>services := [1 \<mapsto> lamp\<lparr>value_url := ''/Lamp/1/0/Switch/0'', stype := 0, sdevice := Some 0\<rparr>,
                   2 \<mapsto> lamp\<lparr>value_url := ''/Lamp/1/0/Switch/0'', stype := 1, sdevice := Some 1\<rparr>],
       devices := (case devices m 0 of Some dv \<Rightarrow> [0 \<mapsto> dv\<lparr>dID := ''1/0''\<rparr>, 1 \<mapsto> dv] | None \<Rightarrow> Map.empty),
       service_head := [1, 2]\<rparr>)"

theorem url_collision_witness:
  "\<exists>m'. unregister_service_in_unsecure_server 2 slashes = Some (0, m') \<and> is_unsecure_service_registered 2 m' = Some True"
proof -
  note defs = slashes_def one_service_eq created_def one_device_def create_device_struct_def Let_def lamp_def
  have daemon: "daemon slashes" and head: "service_head slashes = [1, 2]" by (simp_all add: defs)
  have sv: "services slashes 1 = Some (lamp\<lparr>value_url := ''/Lamp/1/0/Switch/0'', stype := 0, sdevice := Some 0\<rparr>)"
    "services slashes 2 = Some (lamp\<lparr>value_url := ''/Lamp/1/0/Switch/0'', stype := 1, sdevice := Some 1\<rparr>)"
    by (simp_all add: slashes_def Let_def)
  have k: "four_tuple slashes 1 = Some (''Lamp'', ''1/0'', ''Switch'', ''0'')"
    "four_tuple slashes 2 = Some (''Lamp'', ''1'', ''0/Switch'', ''0'')"
    by (simp_all add: defs four_tuple_def str_at_def)
  show ?thesis using url_collision [OF daemon head _ sv _ k] by auto
qed


lemma matching_eq:
  assumes "set l \<subseteq> dom (services m)"
  shows "matching_service m l u = Some (find (\<lambda>s. map_option value_url (services m s) = Some u) l)"
  using assms unfolding matching_service_def by (intro search_find) auto

definition global_ok :: "sse \<Rightarrow> bool" where
  "global_ok m \<longleftrightarrow> (\<exists>g. global_queue m = Some g \<and> queues m g \<noteq> None)"

lemma send_log_ok:
  assumes "global_queue m = Some g" and "queues m g = Some q"
  shows "\<exists>m' q' es. send_log_event (Some msg) m = Some (0, m') \<and> global_queue m' = Some g \<and> queues m' g = Some q' \<and>
    event_queue_head q' = event_queue_head q @ es"
  using assms queue_event_global [of "\<lparr>eid = Some ''Log'', edata = Some msg\<rparr>" "''Log''" q]
  by (auto simp: send_log_event_def queue_event_at_def)

lemma log_request_ok:
  assumes "tm_ok (now v)" and "global_queue (events st) = Some g" and "queues (events st) g = Some q"
  shows "\<exists>st' q' es. log_request v r query st = Some st' \<and> mem st' = mem st \<and> xml st' = xml st \<and>
    global_queue (events st') = Some g \<and> queues (events st') g = Some q' \<and>
    event_queue_head q' = event_queue_head q @ es"
proof -
  obtain msg where msg: "get_allocated_log_message (now v) None (Some (client_ip v)) (Some (http_method r)) (Some (url r)) query = Some msg"
    using message_fits [OF assms(1)] by blast
  obtain m' q' es where "send_log_event (Some msg) (events st) = Some (0, m')" "global_queue m' = Some g"
    "queues m' g = Some q'" "event_queue_head q' = event_queue_head q @ es"
    using send_log_ok [OF assms(2,3)] by blast
  then show ?thesis
    using msg assms(2,3) by (cases "hlog st") (auto simp: log_request_def Log_def Let_def)
qed

lemma answered_ok:
  assumes "tm_ok (now v)" and "global_queue (events st) = Some g" and "queues (events st) g = Some q"
  shows "\<exists>st' q' es. answered v r query c st a = Some (fst a, snd a, c, st') \<and> mem st' = mem st \<and> xml st' = xml st \<and>
    global_queue (events st') = Some g \<and> queues (events st') g = Some q' \<and>
    event_queue_head q' = event_queue_head q @ es"
  using log_request_ok [OF assms, of r query] by (auto simp: answered_def)

lemma get_request_answered:
  assumes "http_method r = ''GET''" and "url r \<notin> {''/log'', ''/events'', ''/devices''}"
    and "arg_x r \<noteq> Some ''1''" and "arg_p r \<noteq> Some ''1''" and "made v" and "tm_ok (now v)" and "global_ok (events st)"
    and "set (service_head (mem st)) \<subseteq> dom (services (mem st))"
    and "\<And>f. 0 \<le> fst (read_device v f) \<and> fst (read_device v f) < 255"
  shows "answer_to_connection v r Null st = Some (MHD_YES, None, Aptr, st) \<and>
    (\<exists>st' a. answer_to_connection v r Aptr st = Some (fst a, snd a, Null, st') \<and> mem st' = mem st \<and> xml st' = xml st \<and>
      a = (case find (\<lambda>s. map_option value_url (services (mem st) s) = Some (url r)) (service_head (mem st)) of
         None \<Rightarrow> (queued v, Some (Response 404 ''Not Found'' None))
       | Some s \<Rightarrow> (case read_device v (get_function (the (services (mem st) s))) of (n, buf) \<Rightarrow>
           if n = 0 then (queued v, Some (Response 500 ''Internal Server Error'' None))
           else send_xml v (print_value v (takeWhile (\<lambda>c. c \<noteq> CHR 0x00) (take (nat n) buf))))))"
proof -
  obtain g q where g: "global_queue (events st) = Some g" "queues (events st) g = Some q"
    using assms(7) by (auto simp: global_ok_def)
  have ans: "\<exists>st'. answered v r None Null st a = Some (fst a, snd a, Null, st') \<and> mem st' = mem st \<and> xml st' = xml st" for a
    using answered_ok [OF assms(6) g] by blast
  have pair: "\<exists>st'. answered v r None Null st (rc, p) = Some (rc, p, Null, st') \<and> mem st' = mem st \<and> xml st' = xml st" for rc p
    using ans [of "(rc, p)"] by simp
  let ?f = "find (\<lambda>s. map_option value_url (services (mem st) s) = Some (url r)) (service_head (mem st))"
  have m: "matching_service (mem st) (service_head (mem st)) (url r) = Some ?f" using matching_eq [OF assms(8)] .
  show ?thesis
  proof (cases ?f)
    case None
    then show ?thesis
      using assms(1,2,5) m pair by (simp add: answer_to_connection_def answer_get_def send_error_def error_text_def)
  next
    case (Some s)
    then have "s \<in> set (service_head (mem st))" by (auto simp: find_Some_iff)
    then obtain sv where sv: "services (mem st) s = Some sv" using assms(8) by auto
    obtain n buf where n: "read_device v (get_function sv) = (n, buf)" "0 \<le> n" "n < 255"
      using assms(9) [of "get_function sv"] by (cases "read_device v (get_function sv)") auto
    let ?a = "send_xml v (print_value v (takeWhile (\<lambda>c. c \<noteq> CHR 0x00) (take (nat n) buf)))"
    show ?thesis
    proof (cases "n = 0")
      case True
      then show ?thesis
        using assms(1-5) m pair Some sv n
        by (simp add: answer_to_connection_def answer_get_def get_service_value_def send_error_def error_text_def)
    next
      case False
      obtain st' where "answered v r None Null st ?a = Some (fst ?a, snd ?a, Null, st')" "mem st' = mem st" "xml st' = xml st"
        using ans by blast
      moreover have "answer_to_connection v r Aptr st = answered v r None Null st ?a"
        using assms(1-4) m Some sv n False
        by (simp add: answer_to_connection_def answer_get_def get_service_value_def terminated_def)
      ultimately show ?thesis
        using assms(1) Some sv n False
        by (intro conjI exI [of _ st'] exI [of _ ?a]) (simp_all add: answer_to_connection_def answer_get_def)
    qed
  qed
qed


definition demo_env :: env where
  "demo_env = \<lparr>made = True, queued = 1, now = \<lparr>tm_year = 112, tm_mon = 0, tm_mday = 5, tm_hour = 9, tm_min = 7, tm_sec = 3\<rparr>,
     client_ip = ''10.0.0.1'', new_id = ''u'', print_value = Some, print_subscription = (\<lambda>v u. Some v),
     print_service = (\<lambda>t. None), print_list = (\<lambda>t. None), parse_value = Some,
     read_device = (\<lambda>f. (2, ''onx'')), write_device = (\<lambda>f x. (int (length x), x))\<rparr>"

definition served :: server where
  "served = demo_server\<lparr>mem := (one_service 0 0)\<lparr>services := [1 \<mapsto> lamp\<lparr>put_function := Some 8\<rparr>], service_head := [1]\<rparr>\<rparr>"

lemma served_sel [simp]:
  "service_head (mem served) = [1]" "services (mem served) = [1 \<mapsto> lamp\<lparr>put_function := Some 8\<rparr>]"
  "events served = two_sessions" "hlog served = None" "value_url lamp = ''/Lamp/1/Switch/0''" "get_function lamp = 0"
  by (simp_all add: served_def demo_server_def lamp_def)

lemma demo_env_sel [simp]:
  "made demo_env" "queued demo_env = 1" "tm_ok (now demo_env)" "print_value demo_env = Some" "parse_value demo_env = Some"
  "read_device demo_env = (\<lambda>f. (2, ''onx''))" "write_device demo_env = (\<lambda>f x. (int (length x), x))"
  by (simp_all add: demo_env_def tm_ok_def)

lemma global_ok_demo: "global_ok two_sessions"
  by (simp add: global_ok_def two_sessions_def)


lemma put_request_answered:
  assumes "http_method r = ''PUT''" and "upload r \<noteq> []" and "made v" and "tm_ok (now v)"
    and "global_queue (events st) = Some g" and "queues (events st) g = Some q"
    and "set (service_head (mem st)) \<subseteq> dom (services (mem st))"
    and "find (\<lambda>s. map_option value_url (services (mem st) s) = Some (url r)) (service_head (mem st)) = Some s"
    and "services (mem st) s = Some sv" and "put_function sv = Some f" and "url r \<noteq> ''Log''"
    and "parse_value v (takeWhile (\<lambda>c. c \<noteq> CHR 0x00) (upload r)) = Some x"
    and "write_device v f x = (n, buf)" and "0 < n" and "n < 255"
  shows "answer_to_connection v r Null st = Some (MHD_YES, None, Data (upload r), st) \<and>
    (\<exists>st' a q' es. answer_to_connection v r (Data (upload r)) st = Some (fst a, snd a, Dangling, st') \<and>
      a = send_xml v (print_value v (takeWhile (\<lambda>c. c \<noteq> CHR 0x00) (take (nat n) buf))) \<and>
      mem st' = mem st \<and> queues (events st') g = Some q' \<and>
      event_queue_head q' = event_queue_head q @ \<lparr>eid = Some (url r),
        edata = Some (takeWhile (\<lambda>c. c \<noteq> CHR 0x00) (take (nat n) buf))\<rparr> # es)"
proof -
  let ?x = "takeWhile (\<lambda>c. c \<noteq> CHR 0x00) (take (nat n) buf)"
  let ?e = "\<lparr>eid = Some (url r), edata = Some ?x\<rparr>"
  have sv: "value_url sv = url r" using assms(8,9) by (auto simp: find_Some_iff)
  obtain m1 where m1: "send_event_of_value_change (Some sv) (Some ?x) (events st) = Some (0, m1)"
    "global_queue m1 = Some g" "queues m1 g = Some (q\<lparr>event_queue_head := event_queue_head q @ [?e]\<rparr>)"
    using assms(5,6,11) sv queue_event_global [of ?e "url r" q]
    by (simp add: send_event_of_value_change_def queue_event_at_def)
  from answered_ok [OF assms(4), of "st\<lparr>events := m1\<rparr>" g _ r None Dangling "send_xml v (print_value v ?x)"] m1(2,3)
  obtain st' q' es where a: "answered v r None Dangling (st\<lparr>events := m1\<rparr>) (send_xml v (print_value v ?x)) =
      Some (fst (send_xml v (print_value v ?x)), snd (send_xml v (print_value v ?x)), Dangling, st')"
    "mem st' = mem st" "queues (events st') g = Some q'"
    "event_queue_head q' = (event_queue_head q @ [?e]) @ es" by auto
  have "answer_to_connection v r (Data (upload r)) st = answered v r None Dangling (st\<lparr>events := m1\<rparr>) (send_xml v (print_value v ?x))"
    using assms(1,8-10,12-15) matching_eq [OF assms(7), of "url r"] m1(1)
    by (simp add: answer_to_connection_def answer_put_def put_service_value_def terminated_def)
  then show ?thesis using a assms(1,2) by (auto simp: answer_to_connection_def answer_put_def)
qed

text \<open>
  C24. A PUT request: the first call with data stores them, the second sets the device, tells the global
  event queue the new value under the URL of the service, and answers with the value.
\<close>

theorem put_request:
  assumes "http_method r = ''PUT''" and "upload r \<noteq> []" and "made v" and "tm_ok (now v)"
    and "global_queue (events st) = Some g" and "queues (events st) g = Some q"
    and "set (service_head (mem st)) \<subseteq> dom (services (mem st))"
    and "find (\<lambda>s. map_option value_url (services (mem st) s) = Some (url r)) (service_head (mem st)) = Some s"
    and "services (mem st) s = Some sv" and "put_function sv = Some f" and "url r \<noteq> ''Log''"
    and "parse_value v (takeWhile (\<lambda>c. c \<noteq> CHR 0x00) (upload r)) = Some x"
    and "write_device v f x = (n, buf)" and "0 < n" and "n < 255"
  shows "answer_to_connection v r Null st = Some (MHD_YES, None, Data (upload r), st) \<and>
    (\<exists>st' a q' es. answer_to_connection v r (Data (upload r)) st = Some (fst a, snd a, Dangling, st') \<and>
      a = send_xml v (print_value v (takeWhile (\<lambda>c. c \<noteq> CHR 0x00) (take (nat n) buf))) \<and>
      mem st' = mem st \<and> queues (events st') g = Some q' \<and>
      event_queue_head q' = event_queue_head q @ \<lparr>eid = Some (url r),
        edata = Some (takeWhile (\<lambda>c. c \<noteq> CHR 0x00) (take (nat n) buf))\<rparr> # es)"
  using put_request_answered [OF assms] .

theorem put_request_witness:
  "\<exists>st'. answer_to_connection demo_env \<lparr>url = ''/Lamp/1/Switch/0'', http_method = ''PUT'', arg_x = None, arg_p = None,
      cookie = None, upload = ''off''\<rparr> (Data ''off'') served = Some (1, Some (Response 200 ''off'' None), Dangling, st')"
  using put_request [of "\<lparr>url = ''/Lamp/1/Switch/0'', http_method = ''PUT'', arg_x = None, arg_p = None,
      cookie = None, upload = ''off''\<rparr>" demo_env served 0 "(create_event_queue ''g'')\<lparr>send_log_events := HPD_YES\<rparr>"
      1 "lamp\<lparr>put_function := Some 8\<rparr>" 8 "''off''" 3 "''off''"]
  by (simp add: send_xml_def two_sessions_def numeral_3_eq_3) blast

text \<open>
  An adapter that fills the buffer it was given, as it may from the size passed to it, makes the server
  write the terminator one byte behind the 255 bytes.
\<close>

theorem full_buffer_overflows:
  assumes "read_device v (get_function sv) = (255, buf)" and "services (mem st) s = Some sv"
    and "matching_service (mem st) (service_head (mem st)) (url r) = Some (Some s)"
    and "http_method r = ''GET''" and "url r \<notin> {''/log'', ''/events'', ''/devices''}"
    and "arg_x r \<noteq> Some ''1''" and "arg_p r \<noteq> Some ''1''"
  shows "answer_to_connection v r Aptr st = None"
  using assms by (simp add: answer_to_connection_def answer_get_def get_service_value_def terminated_def)

theorem full_buffer_overflows_witness:
  "answer_to_connection (demo_env\<lparr>read_device := (\<lambda>f. (255, []))\<rparr>) \<lparr>url = ''/Lamp/1/Switch/0'', http_method = ''GET'',
     arg_x = None, arg_p = None, cookie = None, upload = []\<rparr> Aptr served = None"
  by (rule full_buffer_overflows [where s = 1 and sv = "lamp\<lparr>put_function := Some 8\<rparr>" and buf = "[]"])
    (simp_all add: matching_service_def)

section \<open>The list has no lock\<close>



end
