(* ===== verification/HpdConfig.thy ===== *)
theory HpdConfig
  imports HpdServer
begin

text \<open>
  The configuration of the HomePort daemon (\<open>hpdaemon/hpd_configure.c\<close>) and its interface
  (\<open>hpdaemon/homeport.c\<close>), built with HTTP, without HTTPS and without the Avahi client.

  Three global pointers live as long as the daemon: \<open>hpd_daemon\<close>, \<open>cfg\<close> and \<open>hpd_log\<close>. A pointer is unset,
  points to an object, or is left with the address of an object that was freed; every use of the latter is
  a crash. What \<open>hpd_log\<close> points to is \<open>hlog\<close> of the server, and \<open>log_freed\<close> says that it dangles.

  libconfig is the function \<open>config_file\<close>: for a path the integers of the file by their names, or \<open>None\<close> for
  a file that cannot be read. The other fields of \<open>boot\<close> are what the start finds outside: memory, an old
  log file, the clock, a writable directory, libmicrohttpd and Avahi.
\<close>

abbreviation (input) HPD_E_CFG_NOT_INIT :: int where "HPD_E_CFG_NOT_INIT \<equiv> -2"
abbreviation (input) HPD_E_CFG_FILE_ERROR :: int where "HPD_E_CFG_FILE_ERROR \<equiv> -4"
abbreviation (input) HPD_E_MALLOC_ERROR :: int where "HPD_E_MALLOC_ERROR \<equiv> -5"
abbreviation (input) HPD_E_NO_HTTP :: int where "HPD_E_NO_HTTP \<equiv> -9"

datatype 'a pointer = Unset | Live 'a | Freed

record HPD_Daemon =
  hostname :: "string option"
  http_port :: int

record home =
  hpd_daemon :: "HPD_Daemon pointer"
  cfg :: "unit pointer"
  log_freed :: bool
  srv :: server

record boot =
  alloc :: bool
  config_file :: "string \<Rightarrow> (string \<Rightarrow> int option) option"
  old_log :: "string option"
  clock :: tm
  dir_writable :: bool
  mhd_started :: bool
  avahi_result :: int
  uuid :: string

section \<open>The configuration\<close>

definition HPD_init_daemon :: "boot \<Rightarrow> home \<Rightarrow> int \<times> home" where
  "HPD_init_daemon b h =
     (if alloc b then (HPD_E_SUCCESS, h\<lparr>hpd_daemon := Live \<lparr>hostname = None, http_port = 0\<rparr>\<rparr>)
      else (HPD_E_MALLOC_ERROR, h\<lparr>hpd_daemon := Unset\<rparr>))"

text \<open>A write through \<open>hpd_daemon\<close>.\<close>

definition with_daemon :: "(HPD_Daemon \<Rightarrow> HPD_Daemon) \<Rightarrow> home \<Rightarrow> home option" where
  "with_daemon f h = (case hpd_daemon h of Live d \<Rightarrow> Some (h\<lparr>hpd_daemon := Live (f d)\<rparr>) | _ \<Rightarrow> None)"

definition free_daemon :: "home \<Rightarrow> home option" where
  "free_daemon h = (case hpd_daemon h of Freed \<Rightarrow> None | Unset \<Rightarrow> Some h | Live _ \<Rightarrow> Some (h\<lparr>hpd_daemon := Freed\<rparr>))"

text \<open>
  The log: a size below 0 becomes a large one, as it is compared with a \<open>size_t\<close> of 32 bits. The result of
  \<open>init_hpd_log\<close> is ignored by its callers.
\<close>

definition init_log :: "boot \<Rightarrow> int \<Rightarrow> int \<Rightarrow> home \<Rightarrow> home" where
  "init_log b msize level h =
     (if log_freed h then h
      else h\<lparr>srv := (srv h)\<lparr>hlog := snd (init_hpd_log (unat (word_of_int msize :: 32 word)) level (old_log b) (clock b)
        (hlog (srv h)))\<rparr>\<rparr>)"

definition destroy_hpd_log :: "home \<Rightarrow> home option" where
  "destroy_hpd_log h =
     (if log_freed h then None
      else Some (h\<lparr>log_freed := hlog (srv h) \<noteq> None, srv := (srv h)\<lparr>hlog := None\<rparr>\<rparr>))"

text \<open>Each failure of the configuration file frees the daemon and the configuration; the pointers stay.\<close>

definition config_failed :: "home \<Rightarrow> (int \<times> home) option" where
  "config_failed h = do { h1 \<leftarrow> free_daemon h; Some (HPD_E_CFG_FILE_ERROR, h1\<lparr>cfg := Freed\<rparr>) }"

definition HPD_config_file_init :: "boot \<Rightarrow> string option \<Rightarrow> home \<Rightarrow> (int \<times> home) option" where
  "HPD_config_file_init b path h = (case path of
     None \<Rightarrow> Some (HPD_E_NULL_POINTER, h)
   | Some p \<Rightarrow>
       if hpd_daemon h = Unset then Some (HPD_E_CFG_NOT_INIT, h)
       else if \<not> alloc b then do { h1 \<leftarrow> free_daemon (h\<lparr>cfg := Unset\<rparr>); Some (HPD_E_MALLOC_ERROR, h1) }
       else
         let h1 = h\<lparr>cfg := Live ()\<rparr> in
         (case config_file b p of
            None \<Rightarrow> config_failed h1
          | Some look \<Rightarrow> (case look ''hpdaemon.http_port'' of
              None \<Rightarrow> config_failed h1
            | Some port \<Rightarrow> do {
                h2 \<leftarrow> with_daemon (http_port_update (\<lambda>_. port)) h1;
                (case look ''hpdlog.max_log_size'' of
                   None \<Rightarrow> config_failed h2
                 | Some msize \<Rightarrow> (case look ''hpdlog.log_level'' of
                     None \<Rightarrow> config_failed h2
                   | Some level \<Rightarrow> Some (HPD_E_SUCCESS, init_log b msize level h2)))
              })))"

definition HPD_config_default_init :: "boot \<Rightarrow> home \<Rightarrow> (int \<times> home) option" where
  "HPD_config_default_init b h =
     (if hpd_daemon h = Unset then Some (HPD_E_CFG_NOT_INIT, h)
      else do { h1 \<leftarrow> with_daemon (http_port_update (\<lambda>_. 80)) h; Some (HPD_E_SUCCESS, init_log b 2048 1 h1) })"

text \<open>The log is destroyed first, whether there is a daemon or not. The configuration is freed and kept.\<close>

definition HPD_config_deinit :: "home \<Rightarrow> (int \<times> home) option" where
  "HPD_config_deinit h = do {
     h1 \<leftarrow> destroy_hpd_log h;
     (if hpd_daemon h1 = Unset then Some (HPD_E_CFG_NOT_INIT, h1)
      else do {
        h2 \<leftarrow> free_daemon h1;
        let h3 = h2\<lparr>hpd_daemon := Unset\<rparr>;
        (case cfg h3 of
           Unset \<Rightarrow> Some (HPD_E_SUCCESS, h3)
         | Live _ \<Rightarrow> Some (HPD_E_SUCCESS, h3\<lparr>cfg := Freed\<rparr>)
         | Freed \<Rightarrow> None)
      })
   }"

text \<open>Without HTTPS, the setters and getters of the paths and of the other port differ in nothing.\<close>

definition set_path :: "string option \<Rightarrow> home \<Rightarrow> int" where
  "set_path path h = (if path = None then HPD_E_NULL_POINTER else if hpd_daemon h = Unset then HPD_E_CFG_NOT_INIT
     else HPD_E_NO_HTTPS)"

definition HPD_config_set_root_ca_path :: "string option \<Rightarrow> home \<Rightarrow> int" where
  "HPD_config_set_root_ca_path path h = set_path path h"

definition HPD_config_set_server_key_path :: "string option \<Rightarrow> home \<Rightarrow> int" where
  "HPD_config_set_server_key_path path h = set_path path h"

definition HPD_config_set_server_cert_path :: "string option \<Rightarrow> home \<Rightarrow> int" where
  "HPD_config_set_server_cert_path path h = set_path path h"

definition HPD_config_set_ssl_port :: "int \<Rightarrow> home \<Rightarrow> int" where
  "HPD_config_set_ssl_port port h = (if port \<le> 0 then HPD_E_BAD_PARAMETER
     else if hpd_daemon h = Unset then HPD_E_CFG_NOT_INIT else HPD_E_NO_HTTPS)"

definition HPD_config_set_port :: "int \<Rightarrow> home \<Rightarrow> (int \<times> home) option" where
  "HPD_config_set_port port h =
     (if port \<le> 0 then Some (HPD_E_BAD_PARAMETER, h)
      else if hpd_daemon h = Unset then Some (HPD_E_CFG_NOT_INIT, h)
      else do { h1 \<leftarrow> with_daemon (http_port_update (\<lambda>_. port)) h; Some (HPD_E_NO_HTTP, h1) })"

text \<open>The getters; \<open>ok\<close> says that the pointer for the result is not \<open>NULL\<close>.\<close>

definition get_path :: "bool \<Rightarrow> home \<Rightarrow> int" where
  "get_path ok h = (if hpd_daemon h = Unset then HPD_E_CFG_NOT_INIT else if \<not> ok then HPD_E_NULL_POINTER
     else HPD_E_NO_HTTPS)"

definition HPD_config_get_root_ca_path :: "bool \<Rightarrow> home \<Rightarrow> int" where
  "HPD_config_get_root_ca_path ok h = get_path ok h"

definition HPD_config_get_server_key_path :: "bool \<Rightarrow> home \<Rightarrow> int" where
  "HPD_config_get_server_key_path ok h = get_path ok h"

definition HPD_config_get_server_cert_path :: "bool \<Rightarrow> home \<Rightarrow> int" where
  "HPD_config_get_server_cert_path ok h = get_path ok h"

definition HPD_config_get_ssl_port :: "bool \<Rightarrow> home \<Rightarrow> int" where
  "HPD_config_get_ssl_port ok h = (if \<not> ok then HPD_E_NULL_POINTER
     else if hpd_daemon h \<noteq> Unset then HPD_E_NO_HTTPS else HPD_E_CFG_NOT_INIT)"

definition HPD_config_get_port :: "bool \<Rightarrow> home \<Rightarrow> (int \<times> int option) option" where
  "HPD_config_get_port ok h =
     (if \<not> ok then Some (HPD_E_NULL_POINTER, None)
      else case hpd_daemon h of
        Unset \<Rightarrow> Some (HPD_E_CFG_NOT_INIT, None)
      | Live d \<Rightarrow> Some (HPD_E_SUCCESS, Some (http_port d))
      | Freed \<Rightarrow> None)"

section \<open>The interface\<close>

text \<open>
  The arguments behind the host name. Reading one that is missing or has another type is a crash. The
  values of the log option are checked and not used.
\<close>

datatype va_arg = ArgInt int | ArgStr "string option"

abbreviation (input) HPD_OPTION_END :: va_arg where "HPD_OPTION_END \<equiv> ArgInt 0"
abbreviation (input) HPD_OPTION_HTTP :: va_arg where "HPD_OPTION_HTTP \<equiv> ArgInt 1"
abbreviation (input) HPD_OPTION_LOG :: va_arg where "HPD_OPTION_LOG \<equiv> ArgInt 3"
abbreviation (input) HPD_OPTION_CFG_PATH :: va_arg where "HPD_OPTION_CFG_PATH \<equiv> ArgInt 4"
abbreviation (input) HPD_USE_CFG_FILE :: nat where "HPD_USE_CFG_FILE \<equiv> 2"

fun parse_option_va :: "va_arg list \<Rightarrow> home \<Rightarrow> (int \<times> home) option" where
  "parse_option_va (ArgInt opt # ap) h =
     (if opt = 0 then Some (HPD_E_SUCCESS, h)
      else if opt = 1 then (case ap of
          ArgInt port # ap1 \<Rightarrow> do { h1 \<leftarrow> with_daemon (http_port_update (\<lambda>_. port)) h; parse_option_va ap1 h1 }
        | _ \<Rightarrow> None)
      else if opt = 2 then Some (HPD_E_NO_HTTPS, h)
      else if opt = 3 then (case ap of
          ArgInt level # ap1 \<Rightarrow>
            (if level < 0 \<or> level > 2 then Some (HPD_E_BAD_PARAMETER, h)
             else case ap1 of
               ArgInt msize # ap2 \<Rightarrow> (if msize < 0 then Some (HPD_E_BAD_PARAMETER, h) else parse_option_va ap2 h)
             | _ \<Rightarrow> None)
        | _ \<Rightarrow> None)
      else Some (HPD_E_BAD_PARAMETER, h))"
| "parse_option_va _ h = None"

text \<open>Before the servers are started; the options are read from a file or from the arguments.\<close>

definition read_options :: "boot \<Rightarrow> nat \<Rightarrow> va_arg list \<Rightarrow> home \<Rightarrow> (int \<times> home) option" where
  "read_options b option ap h =
     (if odd (option div HPD_USE_CFG_FILE) then (case ap of
          ArgInt opt # ap1 \<Rightarrow>
            (if opt \<noteq> 4 then Some (HPD_E_BAD_PARAMETER, h)
             else case ap1 of ArgStr path # _ \<Rightarrow> HPD_config_file_init b path h | _ \<Rightarrow> None)
        | _ \<Rightarrow> None)
      else parse_option_va ap h)"

definition HPD_start :: "boot \<Rightarrow> nat \<Rightarrow> string option \<Rightarrow> va_arg list \<Rightarrow> home \<Rightarrow> (int \<times> home) option" where
  "HPD_start b option name ap h =
     (let (rc, h1) = HPD_init_daemon b h in
      if rc \<noteq> 0 then Some (rc, h1)
      else if name = None then Some (HPD_E_NULL_POINTER, h1)
      else do {
        h2 \<leftarrow> with_daemon (hostname_update (\<lambda>_. name)) h1;
        (rc, h3) \<leftarrow> read_options b option ap h2;
        (if rc \<noteq> 0 then Some (rc, h3)
         else
           let (rc, st) = start_server (dir_writable b) (uuid b) (mhd_started b) (avahi_result b) (srv h3)
           in Some (rc, h3\<lparr>srv := st\<rparr>))
      })"

definition HPD_stop :: "home \<Rightarrow> (int \<times> home) option" where
  "HPD_stop h = do {
     (_, h1) \<leftarrow> HPD_config_deinit h;
     (rc, st) \<leftarrow> stop_server (srv h1);
     Some (rc, h1\<lparr>srv := st\<rparr>)
   }"

text \<open>An operation of the server behind the test for \<open>NULL\<close>.\<close>

definition guarded_call :: "(addr \<Rightarrow> server \<Rightarrow> (int \<times> server) option) \<Rightarrow> addr option \<Rightarrow> home \<Rightarrow> (int \<times> home) option" where
  "guarded_call f a h = (case a of
     None \<Rightarrow> Some (HPD_E_NULL_POINTER, h)
   | Some x \<Rightarrow> do { (rc, st) \<leftarrow> f x (srv h); Some (rc, h\<lparr>srv := st\<rparr>) })"

definition HPD_register_service :: "int \<Rightarrow> addr option \<Rightarrow> home \<Rightarrow> (int \<times> home) option" where
  "HPD_register_service avahi s h = guarded_call (register_service_in_server avahi) s h"

definition HPD_unregister_service :: "int \<Rightarrow> addr option \<Rightarrow> home \<Rightarrow> (int \<times> home) option" where
  "HPD_unregister_service avahi s h = guarded_call (unregister_service_in_server avahi) s h"

definition HPD_register_device_services :: "int \<Rightarrow> addr option \<Rightarrow> home \<Rightarrow> (int \<times> home) option" where
  "HPD_register_device_services avahi d h = guarded_call (register_device_services avahi) d h"

definition HPD_unregister_device_services :: "int \<Rightarrow> addr option \<Rightarrow> home \<Rightarrow> (int \<times> home) option" where
  "HPD_unregister_device_services avahi d h = guarded_call (unregister_device_services avahi) d h"

definition HPD_get_service :: "string option \<Rightarrow> string option \<Rightarrow> string option \<Rightarrow> string option \<Rightarrow> home \<Rightarrow> addr option option" where
  "HPD_get_service dt di st si h = (case (dt, di, st, si) of
     (Some a, Some b, Some c, Some d) \<Rightarrow> get_service_from_server a b c d (mem (srv h))
   | _ \<Rightarrow> Some None)"

definition HPD_get_device :: "string option \<Rightarrow> string option \<Rightarrow> home \<Rightarrow> addr option option" where
  "HPD_get_device dt di h = (case (dt, di) of
     (Some a, Some b) \<Rightarrow> get_device_from_server a b (mem (srv h))
   | _ \<Rightarrow> Some None)"

section \<open>Starting\<close>

fun encode :: "int option \<times> int \<times> int \<Rightarrow> va_arg list" where
  "encode (Some p, l, n) = [HPD_OPTION_HTTP, ArgInt p]"
| "encode (None, l, n) = [HPD_OPTION_LOG, ArgInt l, ArgInt n]"

fun last_port :: "(int option \<times> int \<times> int) list \<Rightarrow> int \<Rightarrow> int" where
  "last_port [] p = p"
| "last_port ((q, l, n) # os) p = last_port os (case q of None \<Rightarrow> p | Some x \<Rightarrow> x)"

lemma parse_options_eq:
  assumes "hpd_daemon h = Live d" and "list_all (\<lambda>(q, l, n). q = None \<longrightarrow> 0 \<le> l \<and> l \<le> 2 \<and> 0 \<le> n) os"
  shows "parse_option_va (concat (map encode os) @ HPD_OPTION_END # rest) h =
    Some (0, h\<lparr>hpd_daemon := Live (d\<lparr>http_port := last_port os (http_port d)\<rparr>)\<rparr>)"
  using assms
proof (induction os "http_port d" arbitrary: d h rule: last_port.induct)
  case (2 q l n os)
  show ?case
  proof (cases q)
    case (Some x)
    let ?d = "d\<lparr>http_port := x\<rparr>" and ?h = "h\<lparr>hpd_daemon := Live (d\<lparr>http_port := x\<rparr>)\<rparr>"
    have "parse_option_va (concat (map encode os) @ HPD_OPTION_END # rest) ?h =
      Some (0, ?h\<lparr>hpd_daemon := Live (?d\<lparr>http_port := last_port os (http_port ?d)\<rparr>)\<rparr>)"
      using 2(1) [of ?d ?h] 2(3) Some by simp
    then show ?thesis using 2(2) Some by (simp add: with_daemon_def)
  next
    case None
    then show ?thesis using 2(1) [of d h] 2(2,3) by simp
  qed
qed simp

text \<open>What the memory of the server says of services does not depend on the pointer to the daemon.\<close>

lemma daemon_irrelevant [simp]:
  "hpd_wf (m\<lparr>daemon := b\<rparr>) = hpd_wf m" "entry_ok (m\<lparr>daemon := b\<rparr>) = entry_ok m" "the_key (m\<lparr>daemon := b\<rparr>) = the_key m"
  by (simp_all add: hpd_wf_def service_ok_def device_ok_def the_key_def the_device_def describable_def entry_ok_def str_at_def
      four_tuple_def fun_eq_iff)

lemma start_server_ok:
  assumes "service_head (mem st) = []" and "queue_list (events st) = []"
  shows "\<exists>st'. start_server w u True a st = (a, st') \<and> server_ok st' \<and> registered st' = {} \<and>
    mem st' = (mem st)\<lparr>daemon := True\<rparr> \<and> hlog st' = hlog st"
  using assms
  by (auto simp: start_server_def init_xml_file_def initiate_global_event_queue_def start_unsecure_server_def Let_def
      server_ok_def http_wf_def http_keys_def xml_wf_def tree_wf_def xml_keys_def events_ok_def registered_def)

lemma deinit_eq:
  assumes "log_freed h = False" and "hpd_daemon h = Live d" and "cfg h \<noteq> Freed"
  shows "HPD_config_deinit h = Some (0, h\<lparr>hpd_daemon := Unset, cfg := (if cfg h = Unset then Unset else Freed),
    log_freed := hlog (srv h) \<noteq> None, srv := (srv h)\<lparr>hlog := None\<rparr>\<rparr>)"
  using assms by (cases h; cases "cfg h") (auto simp: HPD_config_deinit_def destroy_hpd_log_def free_daemon_def Let_def)

text \<open>A sequence of calls of the interface; a call with \<open>NULL\<close> does nothing.\<close>

fun run_api :: "(bool \<times> int \<times> addr option) list \<Rightarrow> home \<Rightarrow> home option" where
  "run_api [] h = Some h"
| "run_api ((b, avahi, s) # ops) h = do {
     (rc, h1) \<leftarrow> (if b then HPD_register_service avahi s h else HPD_unregister_service avahi s h);
     run_api ops h1
   }"

fun calls :: "(bool \<times> int \<times> addr option) list \<Rightarrow> (bool \<times> int \<times> addr) list" where
  "calls [] = []"
| "calls ((b, avahi, None) # ops) = calls ops"
| "calls ((b, avahi, Some s) # ops) = (b, avahi, s) # calls ops"

lemma run_api_eq: "run_api ops h = map_option (\<lambda>st. h\<lparr>srv := st\<rparr>) (run_server (calls ops) (srv h))"
proof (induction ops arbitrary: h rule: calls.induct)
  case (3 b avahi s ops)
  then show ?case
    by (auto simp: HPD_register_service_def HPD_unregister_service_def guarded_call_def split: bind_splits)
qed (simp_all add: HPD_register_service_def HPD_unregister_service_def guarded_call_def)

lemma calls_ok: "list_all (\<lambda>(b, avahi, s). \<forall>x. s = Some x \<longrightarrow> P x) ops \<Longrightarrow> list_all (\<lambda>(b, avahi, s). P s) (calls ops)"
  by (induction ops rule: calls.induct) auto

lemma HPD_start_eq:
  assumes "alloc b" and "mhd_started b" and "service_head (mem (srv h)) = []" and "queue_list (events (srv h)) = []"
    and "list_all (\<lambda>(q, l, n). q = None \<longrightarrow> 0 \<le> l \<and> l \<le> 2 \<and> 0 \<le> n) os" and "even (option div HPD_USE_CFG_FILE)"
  shows "\<exists>st. HPD_start b option (Some name) (concat (map encode os) @ [HPD_OPTION_END]) h = Some (avahi_result b,
      h\<lparr>hpd_daemon := Live \<lparr>hostname = Some name, http_port = last_port os 0\<rparr>, srv := st\<rparr>) \<and>
    server_ok st \<and> registered st = {} \<and> mem st = (mem (srv h))\<lparr>daemon := True\<rparr> \<and> hlog st = hlog (srv h)"
proof -
  let ?d = "\<lparr>hostname = Some name, http_port = 0\<rparr>"
  obtain st where st: "start_server (dir_writable b) (uuid b) True (avahi_result b) (srv h) = (avahi_result b, st)"
    "server_ok st" "registered st = {}" "mem st = (mem (srv h))\<lparr>daemon := True\<rparr>" "hlog st = hlog (srv h)"
    using start_server_ok [OF assms(3,4)] by blast
  have "parse_option_va (concat (map encode os) @ [HPD_OPTION_END]) (h\<lparr>hpd_daemon := Live ?d\<rparr>) =
    Some (0, h\<lparr>hpd_daemon := Live (?d\<lparr>http_port := last_port os 0\<rparr>)\<rparr>)"
    using parse_options_eq [of "h\<lparr>hpd_daemon := Live ?d\<rparr>" ?d os "[]"] assms(5) by simp
  then show ?thesis
    using assms(1,2,6) st by (intro exI [of _ st]) (simp add: HPD_start_def HPD_init_daemon_def with_daemon_def read_options_def Let_def)
qed


definition demo_boot :: boot where
  "demo_boot = \<lparr>alloc = True,
     config_file = (\<lambda>p. Some [''hpdaemon.http_port'' \<mapsto> 8890, ''hpdlog.max_log_size'' \<mapsto> 2048, ''hpdlog.log_level'' \<mapsto> 2]),
     old_log = None, clock = \<lparr>tm_year = 112, tm_mon = 2, tm_mday = 1, tm_hour = 12, tm_min = 0, tm_sec = 0\<rparr>,
     dir_writable = True, mhd_started = True, avahi_result = 0, uuid = ''g''\<rparr>"

definition demo_home :: home where
  "demo_home = \<lparr>hpd_daemon = Unset, cfg = Unset, log_freed = False,
     srv = demo_server\<lparr>events := two_sessions\<lparr>queue_list := []\<rparr>\<rparr>\<rparr>"


text \<open>
  The port of the configuration: a port above 0 that is set is the one that is read, and nothing else
  changes; a port below 0 is refused. The result code of the setter says that there is no HTTP all the same.
\<close>

theorem config_port_roundtrip:
  assumes "hpd_daemon h = Live d" and "0 < p"
  shows "\<exists>h1. HPD_config_set_port p h = Some (HPD_E_NO_HTTP, h1) \<and> HPD_config_get_port True h1 = Some (HPD_E_SUCCESS, Some p) \<and>
    h1\<lparr>hpd_daemon := Live (d\<lparr>http_port := p\<rparr>)\<rparr> = h1 \<and> h1\<lparr>hpd_daemon := hpd_daemon h\<rparr> = h \<and>
    HPD_config_set_port (- p) h1 = Some (HPD_E_BAD_PARAMETER, h1)"
  using assms by (simp add: HPD_config_set_port_def HPD_config_get_port_def with_daemon_def)

theorem config_port_roundtrip_witness:
  "\<exists>h1. HPD_config_set_port 8890 (demo_home\<lparr>hpd_daemon := Live \<lparr>hostname = None, http_port = 80\<rparr>\<rparr>) = Some (HPD_E_NO_HTTP, h1) \<and>
    HPD_config_get_port True h1 = Some (HPD_E_SUCCESS, Some 8890)"
proof -
  have "hpd_daemon (demo_home\<lparr>hpd_daemon := Live \<lparr>hostname = None, http_port = 80\<rparr>\<rparr>) = Live \<lparr>hostname = None, http_port = 80\<rparr>"
    by simp
  from config_port_roundtrip [OF this, of 8890] show ?thesis by auto
qed

text \<open>
  A configuration file that cannot be read or lacks one of its three entries: the start is refused, and
  the daemon is left with a pointer to the configuration that was freed, so that stopping it, as the program
  must to release the rest, and asking for the port are errors of the memory.
\<close>

theorem config_failure_dangles:
  assumes "alloc b" and "odd (option div HPD_USE_CFG_FILE)"
    and "config_file b path = None \<or> (\<exists>look. config_file b path = Some look \<and>
      (look ''hpdaemon.http_port'' = None \<or> look ''hpdlog.max_log_size'' = None \<or> look ''hpdlog.log_level'' = None))"
  shows "\<exists>h1. HPD_start b option (Some name) (HPD_OPTION_CFG_PATH # ArgStr (Some path) # ap) h = Some (HPD_E_CFG_FILE_ERROR, h1) \<and>
    HPD_stop h1 = None \<and> HPD_config_get_port True h1 = None"
proof -
  let ?h = "h\<lparr>hpd_daemon := Freed, cfg := Freed\<rparr>"
  have "HPD_start b option (Some name) (HPD_OPTION_CFG_PATH # ArgStr (Some path) # ap) h = Some (HPD_E_CFG_FILE_ERROR, ?h)"
    using assms by (auto simp: HPD_start_def HPD_init_daemon_def with_daemon_def read_options_def Let_def HPD_config_file_init_def
        config_failed_def free_daemon_def split: option.splits)
  moreover have "HPD_stop ?h = None"
    by (simp add: HPD_stop_def HPD_config_deinit_def destroy_hpd_log_def free_daemon_def)
  moreover have "HPD_config_get_port True ?h = None" by (simp add: HPD_config_get_port_def)
  ultimately show ?thesis by blast
qed

theorem config_failure_dangles_witness:
  "\<exists>h1. HPD_start (demo_boot\<lparr>config_file := (\<lambda>p. Some [''hpdaemon.http_port'' \<mapsto> 8890])\<rparr>) 2 (Some ''board'')
      [HPD_OPTION_CFG_PATH, ArgStr (Some ''hpd.cfg'')] demo_home = Some (HPD_E_CFG_FILE_ERROR, h1) \<and> HPD_stop h1 = None"
  using config_failure_dangles [of "demo_boot\<lparr>config_file := (\<lambda>p. Some [''hpdaemon.http_port'' \<mapsto> 8890])\<rparr>" 2 "''hpd.cfg''" "''board''" "[]" demo_home]
  by (auto simp: demo_boot_def)

text \<open>
  The log of a daemon that was stopped is freed, its pointer is not reset, and no start does that either.
\<close>

lemma with_daemon_log: "with_daemon f h = Some h' \<Longrightarrow> log_freed h' = log_freed h"
  by (auto simp: with_daemon_def split: pointer.splits)

lemma free_daemon_log: "free_daemon h = Some h' \<Longrightarrow> log_freed h' = log_freed h"
  by (auto simp: free_daemon_def split: pointer.splits)

lemma parse_options_log: "parse_option_va ap h = Some (rc, h') \<Longrightarrow> log_freed h' = log_freed h"
  by (induction ap h arbitrary: rule: parse_option_va.induct)
    (auto split: if_splits list.splits va_arg.splits bind_splits dest: with_daemon_log)

lemma config_file_log: "HPD_config_file_init b path h = Some (rc, h') \<Longrightarrow> log_freed h' = log_freed h"
  by (auto simp: HPD_config_file_init_def config_failed_def Let_def init_log_def
      split: option.splits if_splits bind_splits dest!: with_daemon_log free_daemon_log)

lemma read_options_log: "read_options b option ap h = Some (rc, h') \<Longrightarrow> log_freed h' = log_freed h"
  by (auto simp: read_options_def split: if_splits list.splits va_arg.splits dest: config_file_log parse_options_log)

lemma HPD_start_log: "HPD_start b option name ap h = Some (rc, h') \<Longrightarrow> log_freed h' = log_freed h"
  by (auto simp: HPD_start_def HPD_init_daemon_def Let_def split: if_splits bind_splits prod.splits
      dest!: with_daemon_log read_options_log)

text \<open>
  A daemon whose log was set up, as every configuration file does, cannot be used a second time: when it
  was stopped and started again, in whatever way, the next stop frees the log again.
\<close>

theorem restart_crashes:
  assumes "hlog (srv h) \<noteq> None" and "HPD_stop h = Some (rc, h1)" and "HPD_start b option name ap h1 = Some (rc', h2)"
  shows "HPD_stop h2 = None"
proof -
  have "log_freed h1" using assms(1,2)
    by (auto simp: HPD_stop_def HPD_config_deinit_def destroy_hpd_log_def free_daemon_def Let_def
        split: if_splits bind_splits pointer.splits)
  then have "log_freed h2" using HPD_start_log [OF assms(3)] by simp
  then show ?thesis by (simp add: HPD_stop_def HPD_config_deinit_def destroy_hpd_log_def)
qed

theorem restart_crashes_witness:
  "\<exists>h h1 h2. hlog (srv h) \<noteq> None \<and> HPD_stop h = Some (0, h1) \<and>
    HPD_start demo_boot 1 (Some ''board'') [HPD_OPTION_HTTP, ArgInt 8890, HPD_OPTION_END] h1 = Some (0, h2) \<and> HPD_stop h2 = None"
proof -
  let ?l = "create_hpd_log 2048 1 None (clock demo_boot)"
  let ?h = "demo_home\<lparr>hpd_daemon := Live \<lparr>hostname = Some ''board'', http_port = 80\<rparr>, srv := demo_server\<lparr>hlog := Some ?l\<rparr>\<rparr>"
  have m: "mem demo_server = one_service 0 0" by (simp add: demo_server_def)
  have "server_ok (demo_server\<lparr>hlog := None\<rparr>)" using demo_server_ok by (simp add: server_ok_def)
  moreover have "hpd_wf (mem (demo_server\<lparr>hlog := None\<rparr>))" by (simp add: m one_service_wf)
  ultimately obtain st where st: "stop_server (demo_server\<lparr>hlog := None\<rparr>) = Some (0, st)" "service_head (mem st) = []"
    "queue_list (events st) = []" using stop_server_eq by blast
  have "HPD_config_deinit ?h = Some (0, ?h\<lparr>hpd_daemon := Unset, cfg := Unset, log_freed := True, srv := demo_server\<lparr>hlog := None\<rparr>\<rparr>)"
    by (subst deinit_eq) (simp_all add: demo_home_def)
  then have stop: "HPD_stop ?h = Some (0, ?h\<lparr>hpd_daemon := Unset, cfg := Unset, log_freed := True, srv := st\<rparr>)" (is "_ = Some (0, ?h1)")
    using st(1) by (simp add: HPD_stop_def)
  have "list_all (\<lambda>(q, l, n). q = None \<longrightarrow> 0 \<le> l \<and> l \<le> 2 \<and> 0 \<le> n) [(Some 8890, 0, 0)]" by simp
  from HPD_start_eq [where h = ?h1 and b = demo_boot and option = 1 and name = "''board''", OF _ _ _ _ this] st(2,3)
  obtain st' where "HPD_start demo_boot 1 (Some ''board'') [HPD_OPTION_HTTP, ArgInt 8890, HPD_OPTION_END] ?h1 = Some (0,
    ?h1\<lparr>hpd_daemon := Live \<lparr>hostname = Some ''board'', http_port = 8890\<rparr>, srv := st'\<rparr>)" (is "_ = Some (0, ?h2)")
    by (auto simp: demo_boot_def)
  moreover have "hlog (srv ?h) \<noteq> None" by simp
  ultimately show ?thesis using stop restart_crashes by blast
qed

end
