(* ===== verification/TcpClient.thy ===== *)
theory TcpClient
  imports HexCodec
begin

text \<open>
  The clients of the bridge: a line over TCP and its reply (\<open>ihaplite/tcpclient.c\<close>), and the wait for a
  datagram of the bridge (\<open>ihaplite/udpserver.c\<close>).

  What \<open>read\<close> returns is a list of results: some bytes or a failure; the end of the list is the end of the
  connection. A buffer is a block of bytes, and a write outside it is a fault.
\<close>

definition DATASIZE_CLIENT :: nat where "DATASIZE_CLIENT = 8192"
definition MAXBUFLEN :: nat where "MAXBUFLEN = 255"

datatype recv = Chunk "byte list" | Failure

text \<open>
  The socket, whether the name is resolved, the number of the port and whether the connection is made. The
  socket is not closed when a later step fails.
\<close>

definition net_connect :: "int \<Rightarrow> bool \<Rightarrow> int \<Rightarrow> bool \<Rightarrow> int" where
  "net_connect server resolved prt connected =
     (if server \<le> 0 then server
      else if \<not> resolved then 0
      else if prt = 0 then prt
      else if \<not> connected then -1
      else server)"

text \<open>
  The loop that waits for the reply. A \<open>read\<close> stores at most the bytes that \<open>DATASIZE\<close> leaves, the terminator
  not counted; when none are left, it returns 0 and the loop ends. A failure moves the offset one byte back,
  and in front of the buffer when there is nothing before it.
\<close>

fun read_reply :: "recv list \<Rightarrow> byte list \<Rightarrow> nat \<Rightarrow> (byte list \<times> nat) option" where
  "read_reply [] reply offset = Some (reply, offset)"
| "read_reply (Chunk bs # xs) reply offset =
     (let n = DATASIZE_CLIENT - 1 - offset in
      if bs = [] \<or> n = 0 then Some (reply, offset)
      else do {
        reply1 \<leftarrow> wrn reply offset (take n bs);
        (if n < length bs then Some (reply1, offset + n) else read_reply xs reply1 (offset + length bs))
      })"
| "read_reply (Failure # xs) reply offset = (if offset = 0 then None else read_reply xs reply (offset - 1))"

text \<open>
  The length is an \<open>unsigned char\<close>. The bytes sent, the result, and the buffer of the reply: the terminator
  goes one byte behind the byte after the reply.
\<close>

definition IP_send_String ::
  "int \<Rightarrow> byte list \<Rightarrow> byte \<Rightarrow> recv list \<Rightarrow> byte list \<Rightarrow> (byte list \<times> int \<times> byte list) option" where
  "IP_send_String server data len xs reply =
     (if server \<le> 0 then do { reply1 \<leftarrow> wrn reply 0 (bytes ''CONN_FAILED'' @ [0]); Some ([], -1, reply1) }
      else do {
        sent \<leftarrow> rdn data 0 (unat len);
        (reply1, offset) \<leftarrow> read_reply xs reply 0;
        reply2 \<leftarrow> wr reply1 (offset + 1) 0;
        Some (sent @ [0x0D, 0x0A], int offset + 1, reply2)
      })"

definition IP_send_String_no_ack :: "int \<Rightarrow> byte list \<Rightarrow> byte \<Rightarrow> byte list \<Rightarrow> (byte list \<times> int \<times> byte list) option" where
  "IP_send_String_no_ack server data len reply =
     (if server \<le> 0 then do { reply1 \<leftarrow> wrn reply 0 (bytes ''CONN_FAILED'' @ [0]); Some ([], -1, reply1) }
      else do { sent \<leftarrow> rdn data 0 (unat len); Some (sent @ [0x0D, 0x0A], 0, reply) })"

section \<open>Datagrams\<close>

text \<open>
  One datagram, cut to \<open>MAXBUFLEN - 1\<close> bytes, with a NUL behind it, from the address \<open>fst\<close>; then the loop
  that waits for one of the bridge. The result has the NUL counted.
\<close>

definition get_ip_UDP_listen :: "byte list \<Rightarrow> byte list \<Rightarrow> (nat \<times> byte list) option" where
  "get_ip_UDP_listen datagram buf =
     (let d = take (MAXBUFLEN - 1) datagram in
      do { buf1 \<leftarrow> wrn buf 0 (d @ [0]); Some (length d + 1, buf1) })"

text \<open>The outer option is a fault, the inner one the wait for a datagram that has not come.\<close>

fun EventListen_local :: "string \<Rightarrow> (string \<times> byte list) list \<Rightarrow> byte list \<Rightarrow> (nat \<times> byte list) option option" where
  "EventListen_local bridgeaddr [] buf = Some None"
| "EventListen_local bridgeaddr ((remote_ip, datagram) # ds) buf = do {
     (len, buf1) \<leftarrow> get_ip_UDP_listen datagram buf;
     (if remote_ip = bridgeaddr then Some (Some (len, buf1)) else EventListen_local bridgeaddr ds buf1)
   }"

section \<open>Properties\<close>

lemma wrn_prefix: "length p + length xs \<le> length b \<Longrightarrow> take (length p) b = p \<Longrightarrow>
    wrn b (length p) xs = Some (p @ xs @ drop (length p + length xs) b)"
  by (simp add: wrn_def)

text \<open>Replies that fit: the chunks one after the other.\<close>

lemma read_reply_ok:
  assumes "[] \<notin> set cs" and "length p + length (concat cs) < DATASIZE_CLIENT" and "length p + length (concat cs) \<le> length b"
    and "take (length p) b = p"
  shows "read_reply (map Chunk cs) b (length p) =
    Some (p @ concat cs @ drop (length p + length (concat cs)) b, length p + length (concat cs))"
  using assms
proof (induction cs arbitrary: p b)
  case Nil
  then show ?case by (metis append_Nil append_take_drop_id concat.simps(1) list.simps(8) list.size(3) add_0_right read_reply.simps(1))
next
  case (Cons c cs)
  let ?b = "p @ c @ drop (length p + length c) b"
  have w: "wrn b (length p) c = Some ?b" using Cons.prems by (intro wrn_prefix) auto
  have "read_reply (map Chunk cs) ?b (length (p @ c)) =
      Some ((p @ c) @ concat cs @ drop (length (p @ c) + length (concat cs)) ?b, length (p @ c) + length (concat cs))"
    using Cons.prems by (intro Cons.IH) auto
  moreover have "take (DATASIZE_CLIENT - 1 - length p) c = c" using Cons.prems(2) by simp
  ultimately show ?case
    using w Cons.prems(1,2) by (auto simp: Let_def ac_simps)
qed

lemma read_reply_offset:
  assumes "read_reply (map Chunk cs) b offset = Some (r, k)" and "[] \<notin> set cs" and "offset < DATASIZE_CLIENT"
  shows "length r = length b \<and> k = min (offset + length (concat cs)) (DATASIZE_CLIENT - 1)"
  using assms
proof (induction cs arbitrary: b offset)
  case (Cons c cs)
  show ?case
  proof (cases "DATASIZE_CLIENT - 1 - offset < length c \<or> offset = DATASIZE_CLIENT - 1")
    case True
    then show ?thesis using Cons.prems by (auto simp: Let_def dest: wrn_length split: if_splits bind_splits)
  next
    case False
    then obtain b' where "wrn b offset c = Some b'" "read_reply (map Chunk cs) b' (offset + length c) = Some (r, k)"
      using Cons.prems by (auto simp: Let_def split: if_splits bind_splits)
    then show ?thesis
      using False Cons.IH [of b' "offset + length c"] Cons.prems(2,3) by (auto simp: ac_simps dest: wrn_length)
  qed
qed auto

lemma IP_send_String_len:
  assumes "0 < server" and "unat len \<le> length data" and "[] \<notin> set cs" and "length reply \<le> DATASIZE_CLIENT"
  shows "IP_send_String server data len (map Chunk cs) reply =
    (if length (concat cs) + 2 \<le> length reply
     then Some (take (unat len) data @ [0x0D, 0x0A], int (length (concat cs)) + 1,
       concat cs @ reply ! length (concat cs) # 0 # drop (length (concat cs) + 2) reply)
     else None)"
proof (cases "length (concat cs) + 2 \<le> length reply")
  case True
  have "read_reply (map Chunk cs) reply (length ([] :: byte list)) = Some ([] @ concat cs @ drop (length ([] :: byte list) + length (concat cs)) reply,
      length ([] :: byte list) + length (concat cs))"
    using True assms(3,4) by (intro read_reply_ok) auto
  moreover have "(concat cs @ drop (length (concat cs)) reply)[length (concat cs) + 1 := 0] =
      concat cs @ reply ! length (concat cs) # 0 # drop (length (concat cs) + 2) reply"
  proof -
    have "drop (length (concat cs)) reply = reply ! length (concat cs) # reply ! (length (concat cs) + 1) # drop (length (concat cs) + 2) reply"
      using True by (simp add: Cons_nth_drop_Suc)
    then show ?thesis by (simp add: list_update_append)
  qed
  ultimately show ?thesis
    using True assms(1,2) by (simp add: IP_send_String_def rdn_def wr_def)
next
  case False
  have "wr r (k + 1) 0 = None" if "read_reply (map Chunk cs) reply 0 = Some (r, k)" for r k
    using read_reply_offset [OF that assms(3)] False assms(4) by (auto simp: wr_def DATASIZE_CLIENT_def)
  then have "do { (r, k) \<leftarrow> read_reply (map Chunk cs) reply 0; r2 \<leftarrow> wr r (k + 1) 0; Some (take (unat len) data @ [0x0D, 0x0A], int k + 1, r2) } = None"
    by (cases "read_reply (map Chunk cs) reply 0") auto
  then show ?thesis
    using False assms(1,2) by (simp add: IP_send_String_def rdn_def)
qed

lemma IP_send_String_eq:
  assumes "0 < server" and "length data < 256" and "[] \<notin> set cs" and "length reply \<le> DATASIZE_CLIENT"
  shows "IP_send_String server data (of_nat (length data)) (map Chunk cs) reply =
    (if length (concat cs) + 2 \<le> length reply
     then Some (data @ [0x0D, 0x0A], int (length (concat cs)) + 1,
       concat cs @ reply ! length (concat cs) # 0 # drop (length (concat cs) + 2) reply)
     else None)"
  using IP_send_String_len [OF assms(1) _ assms(3,4), of "of_nat (length data)" data] assms(2) by simp

text \<open>
  A line and its reply: the bytes of the line and a line end are sent; the reply, in whatever chunks it
  comes, stands at the start of the buffer, with the byte that was behind it still there and a NUL after that
  one. A reply that does not leave these two bytes is written outside the buffer.
\<close>

theorem IP_send_String_reply:
  assumes "0 < server" and "length data < 256" and "[] \<notin> set cs" and "length reply \<le> DATASIZE_CLIENT"
  shows "IP_send_String server data (of_nat (length data)) (map Chunk cs) reply =
    (if length (concat cs) + 2 \<le> length reply
     then Some (data @ [0x0D, 0x0A], int (length (concat cs)) + 1,
       concat cs @ reply ! length (concat cs) # 0 # drop (length (concat cs) + 2) reply)
     else None)"
  using IP_send_String_eq [OF assms] .

theorem IP_send_String_reply_witness:
  "IP_send_String 3 (bytes ''NETLIST_REQ'') 11 [Chunk (bytes ''6E65''), Chunk (bytes ''74'')] (replicate 512 0x41) =
    Some (bytes ''NETLIST_REQ'' @ [0x0D, 0x0A], 7, bytes ''6E6574'' @ 0x41 # 0 # replicate 504 0x41)"
proof -
  have "(0::int) < 3" "length (bytes ''NETLIST_REQ'') < 256" "[] \<notin> set [bytes ''6E65'', bytes ''74'']"
    "length (replicate 512 (0x41::byte)) \<le> DATASIZE_CLIENT"
    by (simp_all add: bytes_def DATASIZE_CLIENT_def)
  from IP_send_String_reply [OF this] show ?thesis by (simp add: bytes_def)
qed

text \<open>
  Every failure of \<open>read\<close> takes a byte of the reply back; with more failures in a row than bytes before
  them, the loop leaves the buffer at its front instead of ending.
\<close>

lemma read_failures: "read_reply (replicate k Failure) reply offset = (if k \<le> offset then Some (reply, offset - k) else None)"
proof (induction k arbitrary: offset)
  case (Suc k)
  then show ?case using Suc.IH [of "offset - 1"] by (cases offset) auto
qed simp

lemma get_ip_eq:
  assumes "MAXBUFLEN \<le> length buf"
  shows "get_ip_UDP_listen d buf =
    Some (length (take 254 d) + 1, take 254 d @ 0 # drop (length (take 254 d) + 1) buf)"
proof -
  have "length (take 254 d) + 1 \<le> length buf" using assms by (simp add: MAXBUFLEN_def)
  then show ?thesis by (simp add: get_ip_UDP_listen_def wrn_def Let_def MAXBUFLEN_def)
qed

text \<open>The first datagram of the bridge is the one that is returned, whatever else arrives before it.\<close>

lemma EventListen_first:
  assumes "bridgeaddr \<notin> fst ` set ds" and "MAXBUFLEN \<le> length buf"
  shows "\<exists>r. EventListen_local bridgeaddr (ds @ (bridgeaddr, d) # rest) buf =
    Some (Some (length (take 254 d) + 1, take 254 d @ 0 # r))"
  using assms
proof (induction ds arbitrary: buf)
  case Nil
  then show ?case by (simp add: get_ip_eq)
next
  case (Cons x ds)
  obtain a e where x: "x = (a, e)" "a \<noteq> bridgeaddr" using Cons.prems(1) by (cases x) auto
  have "MAXBUFLEN \<le> length (take 254 e @ 0 # drop (length (take 254 e) + 1) buf)" using Cons.prems(2) by simp
  from Cons.IH [OF _ this] show ?case using Cons.prems x by (simp add: get_ip_eq)
qed

end
