(* ===== verification/Gateway.thy ===== *)
theory Gateway
  imports Bridge HpdConfig TcpClient
begin

text \<open>
  The program that connects the HomePort daemon with the bridge (\<open>hpbridge/examples/heating_example.c\<close>, started
  by \<open>hpbridge/start-hpbridge.sh\<close>): six services of the device \<open>Bridge\<close>, one for each port of the bridge,
  whose adapters talk TCP and UDP with it, a heat pump and a temperature. The two adapters of the temperature
  are in theory Temperature.

  Texts of the daemon are strings, those of the bridge are bytes.
\<close>

section \<open>Arguments\<close>

text \<open>\<open>getarg\<close> of \<open>ihaplite/utils.c\<close>: the last argument that starts with the option.\<close>

fun getarg_at :: "string \<Rightarrow> string list \<Rightarrow> nat \<Rightarrow> string option" where
  "getarg_at arg args 0 = None"
| "getarg_at arg args (Suc k) =
     (let a = args ! Suc k in
      if take (length arg) a = arg then
        Some (if length a \<noteq> length arg then drop (length arg) a else if Suc (Suc k) < length args then args ! Suc (Suc k) else a)
      else getarg_at arg args k)"

definition getarg :: "string \<Rightarrow> string list \<Rightarrow> string option" where
  "getarg arg args = (if arg = [] \<or> length args < 2 then None else getarg_at arg args (length args - 1))"

text \<open>An option with a default, copied into an array of 100 bytes.\<close>

definition option_text :: "string \<Rightarrow> string list \<Rightarrow> string \<Rightarrow> string option" where
  "option_text opt args dflt = (case getarg opt args of
     None \<Rightarrow> Some dflt | Some t \<Rightarrow> if length t < 100 then Some t else None)"

section \<open>Adapters\<close>

definition bridge_port :: "string \<Rightarrow> nat option" where
  "bridge_port ID = map_of [(''0'', 10001), (''1'', 10002), (''2'', 10003), (''3'', 10004), (''4'', 10005), (''5'', 10006)] ID"

text \<open>The last step of both adapters: the string is copied into the buffer of 255 bytes of the service.\<close>

definition copy_result :: "byte list \<Rightarrow> byte list option" where
  "copy_result inbuffer = do { s \<leftarrow> cstr inbuffer 0; (if length s < 255 then Some s else None) }"

text \<open>
  \<open>connect p\<close> is what \<open>net_connect\<close> returns for port \<open>p\<close> of the bridge, and \<open>xs\<close> what arrives on the
  connection. The result has the port and the bytes that were sent.
\<close>

definition put_bridge :: "string \<Rightarrow> byte list \<Rightarrow> (nat \<Rightarrow> int) \<Rightarrow> recv list \<Rightarrow> byte list \<Rightarrow>
    ((nat \<times> byte list) option \<times> byte list) option" where
  "put_bridge ID put_value connect xs inbuffer = do {
     (sent, inbuffer1) \<leftarrow> (case bridge_port ID of
        None \<Rightarrow> Some (None, inbuffer)
      | Some p \<Rightarrow> do {
          (out, _, b) \<leftarrow> IP_send_String (connect p) put_value (of_nat (length put_value)) xs inbuffer;
          Some (Some (p, out), b)
        });
     s \<leftarrow> copy_result inbuffer1;
     Some (sent, s)
   }"

definition get_bridge :: "string \<Rightarrow> string \<Rightarrow> (nat \<Rightarrow> (string \<times> byte list) list) \<Rightarrow> byte list \<Rightarrow> byte list option option" where
  "get_bridge ID bridgeipaddr net inbuffer = do {
     r \<leftarrow> (case bridge_port ID of
        None \<Rightarrow> Some (Some inbuffer)
      | Some p \<Rightarrow> map_option (map_option snd) (EventListen_local bridgeipaddr (net p) inbuffer));
     (case r of None \<Rightarrow> Some None | Some b \<Rightarrow> do { s \<leftarrow> copy_result b; Some (Some s) })
   }"

text \<open>The heat pump; the result of a value that is neither is -1, as a \<open>size_t\<close>.\<close>

definition put_heat :: "string \<Rightarrow> string \<Rightarrow> int \<times> string \<times> string" where
  "put_heat put_value state =
     (if put_value = ''On'' \<or> put_value = ''Off''
      then (int (length (''Heatpump is '' @ put_value)), ''Heatpump is '' @ put_value, put_value)
      else (-1, [], state))"

definition get_heat :: "string \<Rightarrow> int \<times> string" where
  "get_heat state = (int (length state), state)"

section \<open>The main program\<close>

text \<open>
  The objects that \<open>main\<close> creates. The types of services are literals and arrays of \<open>main\<close>, at the addresses
  0 to 7. The functions of the adapters are numbered: 0 temperature, 1 heat pump, 2 bridge.
\<close>

fun bridge_services :: "addr option \<Rightarrow> (string \<times> addr) list \<Rightarrow> hpd \<Rightarrow> (addr option list \<times> hpd) option" where
  "bridge_services d [] m = Some ([], m)"
| "bridge_services d ((i, t) # ts) m = do {
     ty \<leftarrow> str_at m t;
     (s, m1) \<leftarrow> create_service_struct (Some ty) (Some i) (Some t) None d (Some 2) (Some 2) None None m;
     (ss, m2) \<leftarrow> bridge_services d ts m1;
     Some (s # ss, m2)
   }"

definition gateway_objects :: "string \<Rightarrow> hpd \<Rightarrow> (addr option list \<times> hpd) option" where
  "gateway_objects loc m =
     (let (d1, m1) = create_device_struct (Some ''WeatherStation'') (Some ''1'') (Some ''0x01'') (Some ''0x01'') (Some ''V1'')
            None None (Some ''outside'') (Some ''Weatherstation'') 0 m;
          (d2, m2) = create_device_struct (Some ''HeatPump'') (Some ''2'') (Some ''0x02'') (Some ''0x02'') (Some ''V1'')
            None None (Some ''inside'') (Some ''heatpump'') 0 m1;
          (d3, m3) = create_device_struct (Some ''Bridge'') (Some loc) (Some ''0x03'') (Some ''0x03'') (Some ''V1'')
            None None (Some loc) (Some ''Bridge'') 0 m2;
          (p1, m4) = create_parameter_struct (Some ''1'') (Some ''50000'') (Some ''0'') (Some ''mili'') (Some ''1'')
            (Some ''temperature'') (Some ''Celcius'') None m3
      in do {
        (s1, m5) \<leftarrow> create_service_struct (Some ''tempDesc'') (Some ''0'') (Some 0) (Some ''mili Celcius'') d1 (Some 0) (Some 0)
          p1 None m4;
        let (p2, m6) = create_parameter_struct (Some ''2'') (Some ''5000'') (Some ''0'') (Some ''mega'') (Some ''1'')
          (Some ''watt'') (Some ''watt'') None m5;
        (s2, m7) \<leftarrow> create_service_struct (Some ''heatDesc'') (Some ''0'') (Some 1) (Some ''On,Off'') d2 (Some 1) (Some 1)
          p2 None m6;
        (ss, m8) \<leftarrow> bridge_services d3 (zip [''0'', ''1'', ''2'', ''3'', ''4'', ''5''] [2..<8]) m7;
        Some (s1 # s2 # s2 # ss, m8)
      })"

fun register_each :: "int \<Rightarrow> addr option list \<Rightarrow> home \<Rightarrow> home option" where
  "register_each avahi [] h = Some h"
| "register_each avahi (s # ss) h = do { (_, h1) \<leftarrow> HPD_register_service avahi s h; register_each avahi ss h1 }"

text \<open>
  \<open>main\<close> up to the wait for a key: the options, the question to the bridge, the daemon, the objects and their
  registration. \<open>reply\<close> is what the bridge answers. The result has the exit status of \<open>main\<close>, if it ends here,
  and the service of the temperature.
\<close>

definition bridge_alive :: "byte list \<Rightarrow> bool" where
  "bridge_alive buffer \<longleftrightarrow> take 25 buffer = bytes ''6E65746C6973745F646F6E653''"

definition gateway_types :: "string list \<Rightarrow> string list option" where
  "gateway_types args = those (map (\<lambda>(opt, d). option_text opt args d)
     [(''-d1'', ''1''), (''-d2'', ''2''), (''-d3'', ''3''), (''-d4'', ''4''), (''-d5'', ''5''), (''-d6'', ''6'')])"

definition type_strings :: "string list \<Rightarrow> addr \<rightharpoonup> (bool \<times> string)" where
  "type_strings types a = (if a < length (''temperature'' # ''heat_source'' # types)
     then Some (False, (''temperature'' # ''heat_source'' # types) ! a) else None)"

definition gateway_main :: "boot \<Rightarrow> int \<Rightarrow> (nat \<Rightarrow> int) \<Rightarrow> recv list \<Rightarrow> string list \<Rightarrow> home \<Rightarrow>
    ((int + addr option) \<times> home) option" where
  "gateway_main b avahi connect reply args h = do {
     loc \<leftarrow> option_text ''-l'' args ''outside'';
     _ \<leftarrow> option_text ''-a'' args ''127.0.0.1'';
     types \<leftarrow> gateway_types args;
     (_, _, buffer) \<leftarrow> IP_send_String (connect 10000) (bytes ''NETLIST_REQ'') 11 reply (replicate 200 0);
     (if \<not> bridge_alive buffer then Some (Inl (-1), h)
      else do {
        (rc, h1) \<leftarrow> HPD_start b HPD_USE_CFG_FILE (Some ''Homeport'') [HPD_OPTION_CFG_PATH, ArgStr (Some ''./hpd.cfg'')] h;
        (if rc \<noteq> 0 then Some (Inl 1, h1)
         else do {
           (ss, m) \<leftarrow> gateway_objects loc ((mem (srv h1))\<lparr>strs := type_strings types, brk := 8\<rparr>);
           h2 \<leftarrow> register_each avahi ss (h1\<lparr>srv := (srv h1)\<lparr>mem := m\<rparr>\<rparr>);
           Some (Inr (ss ! 0), h2)
         })
      })
   }"

text \<open>The end of \<open>main\<close>.\<close>

definition gateway_exit :: "int \<Rightarrow> addr option \<Rightarrow> home \<Rightarrow> (int \<times> home) option" where
  "gateway_exit avahi s h = do {
     (_, h1) \<leftarrow> HPD_unregister_service avahi s h;
     (_, m) \<leftarrow> destroy_service_struct s (mem (srv h1));
     (_, h2) \<leftarrow> HPD_stop (h1\<lparr>srv := (srv h1)\<lparr>mem := m\<rparr>\<rparr>);
     Some (0, h2)
   }"

section \<open>Texts and bytes\<close>

definition chars :: "byte list \<Rightarrow> string" where "chars bs = map (\<lambda>b. char_of (unat b)) bs"

lemma length_chars [simp]: "length (chars bs) = length bs"
  by (simp add: chars_def)

lemma of_char_byte [simp]: "of_char (char_of (unat b)) = (b :: byte)"
proof -
  have "of_char (char_of (unat b)) = (of_nat (of_char (char_of (unat b))) :: byte)" by (simp only: of_nat_of_char)
  then show ?thesis by (simp add: mod_less)
qed

lemma char_of_byte_eq_0 [simp]: "char_of (unat (b :: byte)) = CHR 0x00 \<longleftrightarrow> b = 0"
proof
  assume "char_of (unat b) = CHR 0x00"
  then have "of_char (char_of (unat b)) = (of_char (CHR 0x00) :: byte)" by simp
  then show "b = 0" by simp
next
  assume "b = 0"
  then have "of_char (char_of (unat b)) = (of_char (CHR 0x00) :: nat)" by simp
  then show "char_of (unat b) = CHR 0x00" by (simp only: of_char_eq_iff)
qed

lemma chars_no_nul: "0 \<notin> set bs \<Longrightarrow> takeWhile (\<lambda>c. c \<noteq> CHR 0x00) (chars bs) = chars bs"
  by (induction bs) (auto simp: chars_def)

lemma bytes_chars [simp]: "bytes (chars bs) = bs"
  by (induction bs) (simp_all add: chars_def bytes_def)

text \<open>What a byte left in an array adds to a string that ends before it.\<close>

definition stale :: "byte \<Rightarrow> byte list" where
  "stale b = (if b = 0 then [] else [b])"

lemma copy_result_stale:
  assumes "0 \<notin> set s" and "length s + 1 < 255"
  shows "copy_result (s @ b # 0 # r) = Some (s @ stale b)"
proof (cases "b = 0")
  case True
  then show ?thesis using assms cstr_append [of s "[]" "0 # r"] by (simp add: copy_result_def stale_def)
next
  case False
  then show ?thesis using assms cstr_append [of "s @ [b]" "[]" r] by (simp add: copy_result_def stale_def)
qed

lemma hexes_nul: "0 \<notin> set (hexes bs)"
  by (rule hexes_no_nul)

section \<open>One adapter\<close>

lemma put_bridge_sends:
  assumes "bridge_port ID = Some p" and "0 < connect p" and "length value < 256" and "[] \<notin> set cs"
    and "concat cs = rep" and "0 \<notin> set rep" and "length rep + 1 < 255" and "length inbuffer = 512"
  shows "put_bridge ID value connect (map Chunk cs) inbuffer =
    Some (Some (p, value @ [0x0D, 0x0A]), rep @ stale (inbuffer ! length rep))"
proof -
  have "IP_send_String (connect p) value (of_nat (length value)) (map Chunk cs) inbuffer =
      Some (value @ [0x0D, 0x0A], int (length rep) + 1, rep @ inbuffer ! length rep # 0 # drop (length rep + 2) inbuffer)"
    using IP_send_String_eq [of "connect p" "value" cs inbuffer] assms by (simp add: DATASIZE_CLIENT_def)
  then show ?thesis
    using assms(1,6,7) copy_result_stale [of rep "inbuffer ! length rep" "drop (length rep + 2) inbuffer"]
    by (simp add: put_bridge_def)
qed

text \<open>The functions of the adapters in the environment of the web server.\<close>

definition bridge_write :: "string \<Rightarrow> (nat \<Rightarrow> int) \<Rightarrow> recv list \<Rightarrow> byte list \<Rightarrow> string \<Rightarrow> int \<times> string" where
  "bridge_write ID connect xs inbuffer x = (case put_bridge ID (bytes x) connect xs inbuffer of
     Some (_, s) \<Rightarrow> (int (length s), chars s) | None \<Rightarrow> (0, []))"

definition bridge_read :: "string \<Rightarrow> string \<Rightarrow> (nat \<Rightarrow> (string \<times> byte list) list) \<Rightarrow> byte list \<Rightarrow> int \<times> string" where
  "bridge_read ID bridgeipaddr net inbuffer = (case get_bridge ID bridgeipaddr net inbuffer of
     Some (Some s) \<Rightarrow> (int (length s), chars s) | _ \<Rightarrow> (0, []))"

section \<open>From the web client to the radio and back\<close>


definition gateway_env :: env where
  "gateway_env = demo_env\<lparr>write_device := (\<lambda>f. bridge_write ''0'' (\<lambda>p. 3) (map Chunk [[0x41]]) (replicate 512 0)),
     read_device := (\<lambda>f. bridge_read ''0'' ''127.0.0.1'' (\<lambda>p. if p = UDPPORTBASE + unat (1 :: byte)
       then [(''10.0.0.9'', [0x30])] @ (''127.0.0.1'', hexes [0x55]) # [] else []) (replicate 512 0))\<rparr>"

lemma gateway_env_sel [simp]:
  "made gateway_env" "queued gateway_env = 1" "tm_ok (now gateway_env)" "print_value gateway_env = Some"
  "parse_value gateway_env = Some"
  "write_device gateway_env f = bridge_write ''0'' (\<lambda>p. 3) (map Chunk [[0x41]]) (replicate 512 0)"
  "read_device gateway_env = (\<lambda>f. bridge_read ''0'' ''127.0.0.1'' (\<lambda>p. if p = UDPPORTBASE + unat (1 :: byte)
       then [(''10.0.0.9'', [0x30])] @ (''127.0.0.1'', hexes [0x55]) # [] else []) (replicate 512 0))"
  by (simp_all add: gateway_env_def demo_env_def tm_ok_def)

lemma first_port: "bridge_port (sID lamp) = Some (UDPPORTBASE + unat (1 :: byte))" "sID lamp = ''0''"
  by (simp_all add: bridge_port_def lamp_def UDPPORTBASE_def)




section \<open>Errors of the adapters and of the end\<close>

text \<open>A value for the heat pump that is neither On nor Off: the result -1 becomes the index of the terminator.\<close>

lemma put_heat_invalid:
  assumes "parse_value e (takeWhile (\<lambda>c. c \<noteq> CHR 0x00) d) = Some x" and "x \<notin> {''On'', ''Off''}"
    and "write_device e f x = (case put_heat x state of (n, buf, _) \<Rightarrow> (n, buf))"
  shows "put_service_value e r d f sv st = None"
  using assms by (simp add: put_service_value_def put_heat_def terminated_def)

text \<open>The sixth service of the bridge talks to a port behind those of its six tasks, which are 10000 to 10005.\<close>

lemma last_port_unserved: "bridge_port ''5'' = Some (UDPPORTBASE + TOTAL_VPS)"
  by (simp add: bridge_port_def UDPPORTBASE_def TOTAL_VPS_def)

lemma destroy_literal:
  assumes "services m s = Some sv" and "strs m (stype sv) = Some (False, t)" and "is_service_registered (Some s) m = Some 0"
  shows "destroy_service_struct (Some s) m = None"
proof -
  have "free_str (stype sv) m' = None" if "strs m' = strs m" for m'
    using that assms(2) by (simp add: free_str_def)
  moreover have "strs m' = strs m" if "remove_service_from_device (Some s) (Some d) m = Some (rc, m')" for d rc m'
    using that by (auto simp: remove_service_from_device_def set_device_def split: bind_splits option.splits if_splits)
  moreover have "strs m'' = strs m'" if "free_device d m' = Some m''" for d m' m''
    using that by (auto simp: free_device_def split: if_splits)
  ultimately show ?thesis
    using assms(1,3) by (auto simp: destroy_service_struct_def split: option.splits bind_splits if_splits)
qed

text \<open>
  The end of the program is an error of the memory, whatever happened before: the type of the service
  that \<open>main\<close> destroys is a string literal, and destroying a service frees its type.
\<close>

theorem gateway_exit_faults:
  assumes "server_ok (srv h)" and "entry_ok (mem (srv h)) s" and "services (mem (srv h)) s = Some sv"
    and "strs (mem (srv h)) (stype sv) = Some (False, t)"
  shows "gateway_exit avahi (Some s) h = None"
proof -
  obtain rc st' where un: "unregister_service_in_server avahi s (srv h) = Some (rc, st')" "server_ok st'"
    "mem st' = (mem (srv h))\<lparr>service_head := service_head (mem st')\<rparr>"
    "registered st' = registered (srv h) - {the_key (mem (srv h)) s}"
    using unregister_server_eq [OF assms(1,2)] by blast
  have same: "services (mem st') = services (mem (srv h))" "strs (mem st') = strs (mem (srv h))" "devices (mem st') = devices (mem (srv h))"
    by (subst un(3); simp)+
  have wf: "http_wf (mem (srv h)) (service_head (mem st'))"
    using un(2) by (subst (asm) server_ok_def) (metis un(3) head_irrelevant_set(1))
  have "the_key (mem st') = the_key (mem (srv h))" by (subst un(3)) simp
  then have "the_key (mem (srv h)) s \<notin> http_keys (mem (srv h)) (service_head (mem st'))"
    using un(4) by (simp add: registered_def http_keys_def)
  then have "is_unsecure_service_registered s (mem st') = Some False"
    using is_registered_eq [OF wf assms(2)] un(3) by metis
  moreover obtain d dv where "sdevice sv = Some d" "devices (mem (srv h)) d = Some dv" "secure_device dv = 0"
    using entry_okD [OF assms(2)] assms(3) by auto
  ultimately have "is_service_registered (Some s) (mem st') = Some 0"
    using same assms(3) by (simp add: is_service_registered_def)
  then have "destroy_service_struct (Some s) (mem st') = None"
    using destroy_literal [of "mem st'" s sv t] same assms(3,4) by simp
  then show ?thesis by (simp add: gateway_exit_def HPD_unregister_service_def guarded_call_def un(1))
qed

lemmas creation = create_device_struct_def create_parameter_struct_def create_service_struct_def Let_def
  add_service_to_device_def set_service_def set_device_def value_url_of_def zeroConfName_of_def cmp_ServiceElement_def str_at_def

lemma some_bool: "Ex Not" "\<exists>b :: bool. b"
  by blast+

definition literal_home :: home where
  "literal_home = demo_home\<lparr>hpd_daemon := Live \<lparr>hostname = None, http_port = 80\<rparr>, srv := demo_server\<lparr>mem := one_service 0 2\<rparr>\<rparr>"

theorem gateway_exit_faults_witness: "gateway_exit 0 (Some 1) literal_home = None"
proof -
  have m: "mem (srv literal_home) = one_service 0 2" by (simp add: literal_home_def)
  have "server_ok (srv literal_home)"
    using demo_server_ok by (simp add: literal_home_def server_ok_def demo_server_def http_wf_def http_keys_def one_service_def
        one_device_def creation)
  moreover have "entry_ok (mem (srv literal_home)) 1"
    by (simp add: m one_service_def one_device_def creation entry_ok_def describable_def the_device_def the_key_def four_tuple_def some_bool)
  moreover have "\<exists>sv. services (mem (srv literal_home)) 1 = Some sv \<and> strs (mem (srv literal_home)) (stype sv) = Some (False, ''Switch'')"
    by (simp add: m one_service_def one_device_def creation)
  ultimately show ?thesis using gateway_exit_faults by blast
qed

section \<open>The start of the program\<close>

lemma HPD_start_file:
  assumes "alloc b" and "mhd_started b" and "service_head (mem (srv h)) = []" and "queue_list (events (srv h)) = []"
    and "config_file b path = Some look" and "look ''hpdaemon.http_port'' = Some port"
    and "look ''hpdlog.max_log_size'' = Some msize" and "look ''hpdlog.log_level'' = Some level"
  shows "\<exists>h1. HPD_start b HPD_USE_CFG_FILE (Some name) [HPD_OPTION_CFG_PATH, ArgStr (Some path)] h = Some (avahi_result b, h1) \<and>
    HPD_config_get_port True h1 = Some (0, Some port) \<and> server_ok (srv h1) \<and> registered (srv h1) = {} \<and>
    mem (srv h1) = (mem (srv h))\<lparr>daemon := True\<rparr> \<and> cfg h1 = Live () \<and> log_freed h1 = log_freed h"
proof -
  let ?d = "\<lparr>hostname = Some name, http_port = port\<rparr>"
  let ?h = "init_log b msize level (h\<lparr>cfg := Live (), hpd_daemon := Live ?d\<rparr>)"
  have h: "mem (srv ?h) = mem (srv h)" "events (srv ?h) = events (srv h)" "hpd_daemon ?h = Live ?d"
    by (simp_all add: init_log_def)
  obtain st where st: "start_server (dir_writable b) (uuid b) True (avahi_result b) (srv ?h) = (avahi_result b, st)"
    "server_ok st" "registered st = {}" "mem st = (mem (srv h))\<lparr>daemon := True\<rparr>"
    using start_server_ok [of "srv ?h", unfolded h, OF assms(3,4), of "dir_writable b" "uuid b" "avahi_result b"] by blast
  have "HPD_config_file_init b (Some path) (h\<lparr>hpd_daemon := Live (?d\<lparr>http_port := 0\<rparr>)\<rparr>) = Some (0, ?h)"
    using assms(1,5-8) by (simp add: HPD_config_file_init_def with_daemon_def Let_def)
  then have "HPD_start b HPD_USE_CFG_FILE (Some name) [HPD_OPTION_CFG_PATH, ArgStr (Some path)] h =
      Some (avahi_result b, ?h\<lparr>srv := st\<rparr>)"
    using assms(1,2) st(1) by (simp add: HPD_start_def HPD_init_daemon_def with_daemon_def read_options_def)
  moreover have "HPD_config_get_port True (?h\<lparr>srv := st\<rparr>) = Some (0, Some port)" using h(3) by (simp add: HPD_config_get_port_def)
  moreover have "cfg ?h = Live ()" "log_freed ?h = log_freed h" by (simp_all add: init_log_def)
  ultimately show ?thesis using st(2-4) by (intro exI [of _ "?h\<lparr>srv := st\<rparr>"]) simp
qed

lemma register_each_api: "register_each avahi ss h = run_api (map (\<lambda>s. (True, avahi, s)) ss) h"
proof (induction ss arbitrary: h)
  case (Cons s ss)
  then show ?case by (cases "HPD_register_service avahi s h") auto
qed simp

text \<open>The memory after the objects have been created, with the arguments of the start script.\<close>

definition script_args :: "string list" where
  "script_args = [''hpbridge'', ''-l'', ''outside'', ''-d2'', ''power_meter'', ''-d1'', ''light_source'', ''-d3'', ''temperature_sensor'',
     ''-d4'', ''switch'', ''-d5'', ''light_sensor'', ''-d6'', ''thermostat'']"

definition script_types :: "string list" where
  "script_types = [''light_source'', ''power_meter'', ''temperature_sensor'', ''switch'', ''light_sensor'', ''thermostat'']"

lemma script_options:
  "option_text ''-l'' script_args d = Some ''outside''" "option_text ''-a'' script_args d = Some d"
  "gateway_types script_args = Some script_types"
  by (simp_all add: option_text_def getarg_def script_args_def gateway_types_def script_types_def numeral_eq_Suc)

lemma type_strings_script:
  "type_strings script_types 0 = Some (False, ''temperature'')" "type_strings script_types (Suc 0) = Some (False, ''heat_source'')"
  "type_strings script_types 2 = Some (False, ''light_source'')" "type_strings script_types 3 = Some (False, ''power_meter'')"
  "type_strings script_types 4 = Some (False, ''temperature_sensor'')" "type_strings script_types 5 = Some (False, ''switch'')"
  "type_strings script_types 6 = Some (False, ''light_sensor'')" "type_strings script_types 7 = Some (False, ''thermostat'')"
  by (simp_all add: script_types_def type_strings_def numeral_eq_Suc)

definition blank :: hpd where
  "blank = \<lparr>services = Map.empty, devices = Map.empty, parameters = Map.empty, strs = Map.empty, brk = 0, service_head = [],
     daemon = False\<rparr>"

definition objects :: "(addr option list \<times> hpd) option" where
  "objects = gateway_objects ''outside'' (blank\<lparr>daemon := True, strs := type_strings script_types, brk := 8\<rparr>)"

lemma objects_eq: "map_option fst objects = Some (map Some [12, 14, 14, 15, 16, 17, 18, 19, 20])"
  by (simp add: objects_def gateway_objects_def blank_def upt_rec type_strings_script creation)

lemma objects_memory:
  "map_option (\<lambda>(_, m). (service_head m, daemon m, list_all (entry_ok m) [12, 14, 15, 16, 17, 18, 19, 20],
      map (the_key m) [12, 14, 15, 16, 17, 18, 19, 20])) objects =
    Some ([], True, True, [(''Weatherstation'', ''1'', ''temperature'', ''0''), (''heatpump'', ''2'', ''heat_source'', ''0''),
      (''Bridge'', ''outside'', ''light_source'', ''0''), (''Bridge'', ''outside'', ''power_meter'', ''1''),
      (''Bridge'', ''outside'', ''temperature_sensor'', ''2''), (''Bridge'', ''outside'', ''switch'', ''3''),
      (''Bridge'', ''outside'', ''light_sensor'', ''4''), (''Bridge'', ''outside'', ''thermostat'', ''5'')])"
  by (simp add: objects_def gateway_objects_def blank_def upt_rec type_strings_script creation entry_ok_def describable_def
      the_device_def the_key_def four_tuple_def some_bool)


text \<open>
  C13. The start of the program with the arguments of its start script, a complete configuration file and a bridge that
  answers: the daemon serves on the port of the file, and exactly the eight services are registered - the
  second registration of the heat pump is refused -, the six of the bridge under the types of the script.
\<close>

theorem gateway_starts:
  assumes "alloc b" and "mhd_started b" and "avahi_result b = 0" and "mem (srv h) = blank" and "queue_list (events (srv h)) = []"
    and "config_file b ''./hpd.cfg'' = Some look" and "look ''hpdaemon.http_port'' = Some port"
    and "look ''hpdlog.max_log_size'' = Some msize" and "look ''hpdlog.log_level'' = Some level"
    and "0 < connect 10000" and "[] \<notin> set cs" and "concat cs = rep" and "length rep + 2 \<le> 200" and "bridge_alive rep"
  shows "\<exists>h1. gateway_main b 0 connect (map Chunk cs) script_args h = Some (Inr (Some 12), h1) \<and> server_ok (srv h1) \<and>
    registered (srv h1) = {(''Weatherstation'', ''1'', ''temperature'', ''0''), (''heatpump'', ''2'', ''heat_source'', ''0''),
      (''Bridge'', ''outside'', ''light_source'', ''0''), (''Bridge'', ''outside'', ''power_meter'', ''1''),
      (''Bridge'', ''outside'', ''temperature_sensor'', ''2''), (''Bridge'', ''outside'', ''switch'', ''3''),
      (''Bridge'', ''outside'', ''light_sensor'', ''4''), (''Bridge'', ''outside'', ''thermostat'', ''5'')}"
proof -
  obtain h1 where h1: "HPD_start b HPD_USE_CFG_FILE (Some ''Homeport'') [HPD_OPTION_CFG_PATH, ArgStr (Some ''./hpd.cfg'')] h = Some (0, h1)"
    "server_ok (srv h1)" "registered (srv h1) = {}" "mem (srv h1) = blank\<lparr>daemon := True\<rparr>"
    using HPD_start_file [of b h "''./hpd.cfg''" look port msize level "''Homeport''"] assms(1-9) by (auto simp: blank_def)
  let ?ss = "map Some [12, 14, 14, 15, 16, 17, 18, 19, 20] :: addr option list"
  obtain m where m: "objects = Some (?ss, m)" using objects_eq by (cases objects) auto
  have mem: "service_head m = []" "daemon m" "list_all (entry_ok m) [12, 14, 15, 16, 17, 18, 19, 20]"
    "map (the_key m) [12, 14, 15, 16, 17, 18, 19, 20] = [(''Weatherstation'', ''1'', ''temperature'', ''0''), (''heatpump'', ''2'', ''heat_source'', ''0''),
      (''Bridge'', ''outside'', ''light_source'', ''0''), (''Bridge'', ''outside'', ''power_meter'', ''1''),
      (''Bridge'', ''outside'', ''temperature_sensor'', ''2''), (''Bridge'', ''outside'', ''switch'', ''3''),
      (''Bridge'', ''outside'', ''light_sensor'', ''4''), (''Bridge'', ''outside'', ''thermostat'', ''5'')]"
    using objects_memory unfolding m by simp_all
  let ?st = "(srv h1)\<lparr>mem := m\<rparr>"
  let ?calls = "map (\<lambda>s. (True, 0 :: int, s)) [12, 14, 14, 15, 16, 17, 18, 19, 20 :: addr]"
  have ok: "server_ok ?st" using h1(2,4) mem(1,2) by (simp add: server_ok_def blank_def http_wf_def http_keys_def)
  have "list_all (\<lambda>(b, avahi, s). entry_ok (mem ?st) s) ?calls" using mem(3) by simp
  from run_server_ok [OF ok this] obtain st' where st': "run_server ?calls ?st = Some st'" "server_ok st'"
    "registered st' = fold (\<lambda>(b, avahi, s). track (the_key m) (b, s)) ?calls (registered ?st)" by auto
  have "registered ?st = {}" using mem(1) by (simp add: registered_def http_keys_def)
  then have reg: "registered st' = the_key m ` {12, 14, 15, 16, 17, 18, 19, 20}"
    using st'(3) by (simp add: track_def insert_commute)
  have "register_each 0 ?ss (h1\<lparr>srv := ?st\<rparr>) = Some (h1\<lparr>srv := st'\<rparr>)"
    using st'(1) by (simp add: register_each_api run_api_eq)
  moreover obtain out where "IP_send_String (connect 10000) (bytes ''NETLIST_REQ'') 11 (map Chunk cs) (replicate 200 0) = Some (out, int (length rep) + 1,
      rep @ 0 # 0 # drop (length rep + 2) (replicate 200 0))"
    using IP_send_String_eq [of "connect 10000" "bytes ''NETLIST_REQ''" cs "replicate 200 0"] assms(10-13)
    by (auto simp: DATASIZE_CLIENT_def)
  moreover have "bridge_alive (rep @ 0 # 0 # drop (length rep + 2) (replicate 200 0))"
    using assms(14) by (auto simp: bridge_alive_def take_append dest: arg_cong [of _ _ length])
  ultimately have "gateway_main b 0 connect (map Chunk cs) script_args h = Some (Inr (Some 12), h1\<lparr>srv := st'\<rparr>)"
    using h1(1,4) m by (simp add: gateway_main_def script_options objects_def del: register_each.simps)
  moreover have "the_key m ` {12, 14, 15, 16, 17, 18, 19, 20} = set (map (the_key m) [12, 14, 15, 16, 17, 18, 19, 20])" by simp
  ultimately show ?thesis using st'(2) reg unfolding mem(4) by (intro exI [of _ "h1\<lparr>srv := st'\<rparr>"]) simp
qed


theorem gateway_starts_witness:
  "\<exists>h1. gateway_main demo_boot 0 (\<lambda>p. 3) (map Chunk [bytes ''6E65746C6973745F646F6E653A20'', bytes ''0102'']) script_args
      (demo_home\<lparr>srv := (srv demo_home)\<lparr>mem := blank\<rparr>\<rparr>) = Some (Inr (Some 12), h1) \<and> server_ok (srv h1)"
proof -
  let ?cs = "[bytes ''6E65746C6973745F646F6E653A20'', bytes ''0102'']"
  have "alloc demo_boot" "mhd_started demo_boot" "avahi_result demo_boot = 0" by (simp_all add: demo_boot_def)
  moreover have "mem (srv (demo_home\<lparr>srv := (srv demo_home)\<lparr>mem := blank\<rparr>\<rparr>)) = blank"
    "queue_list (server.events (srv (demo_home\<lparr>srv := (srv demo_home)\<lparr>mem := blank\<rparr>\<rparr>))) = []" by (simp_all add: demo_home_def)
  moreover have "config_file demo_boot ''./hpd.cfg'' =
      Some [''hpdaemon.http_port'' \<mapsto> 8890, ''hpdlog.max_log_size'' \<mapsto> 2048, ''hpdlog.log_level'' \<mapsto> 2]" by (simp add: demo_boot_def)
  moreover have "(0::int) < 3" "[] \<notin> set ?cs" "length (concat ?cs) + 2 \<le> 200" "bridge_alive (concat ?cs)"
    by (simp_all add: bytes_def bridge_alive_def)
  ultimately show ?thesis using gateway_starts [where connect = "\<lambda>p. 3" and cs = ?cs] by fastforce
qed

end
