(* ===== verification/Avahi.thy ===== *)
theory Avahi
  imports HpdObjects
begin

text \<open>
  Announcing services (\<open>hpdaemon/hpd_avahi_publish_core.c\<close>). Of Avahi the code uses that a group which was
  created, filled and committed announces a name and type with a port and a text, until the group is freed; the
  announcements are a list, and the results of the calls are inputs. The flag of a result says that the thread of
  Avahi is told to end.
\<close>

abbreviation (input) HPD_E_AVAHI_CORE_ERROR :: int where "HPD_E_AVAHI_CORE_ERROR \<equiv> -22"
abbreviation (input) HPD_E_AVAHI_SERVICE_NOT_FOUND :: int where "HPD_E_AVAHI_SERVICE_NOT_FOUND \<equiv> -23"

record publication =
  pub_name :: string
  pub_type :: "string option"
  pub_port :: nat
  pub_txt :: string

definition txt_data :: "service \<Rightarrow> string" where
  "txt_data sv = ''URI='' @ value_url sv"

text \<open>Both branches of the test for a secure device take the port of HTTP.\<close>

definition static_create_services :: "nat \<Rightarrow> bool \<Rightarrow> int \<Rightarrow> int \<Rightarrow> service \<Rightarrow> publication list \<Rightarrow> (int \<times> bool) \<times> publication list" where
  "static_create_services http_port grp added committed sv ps =
     (if \<not> grp \<or> added < 0 \<or> committed < 0 then ((HPD_E_AVAHI_CORE_ERROR, True), ps)
      else ((0, False), ps @ [\<lparr>pub_name = zeroConfName sv, pub_type = DNS_SD_type sv, pub_port = http_port, pub_txt = txt_data sv\<rparr>]))"

definition avahi_core_remove_service :: "service \<Rightarrow> publication list \<Rightarrow> int \<times> publication list" where
  "avahi_core_remove_service sv ps =
     (case find (\<lambda>p. pub_name p = zeroConfName sv \<and> pub_type p = DNS_SD_type sv) ps of
        None \<Rightarrow> (HPD_E_AVAHI_SERVICE_NOT_FOUND, ps)
      | Some p \<Rightarrow> (0, remove1 p ps))"

text \<open>
  A collision of names: the ID of the service is replaced, and the service announced again. The callback runs in
  the thread of Avahi and asks for the lock of this thread; the definition is for the case that it gets it.
\<close>

definition entry_group_collision ::
  "(string \<Rightarrow> string) \<Rightarrow> nat \<Rightarrow> bool \<Rightarrow> int \<Rightarrow> int \<Rightarrow> service \<Rightarrow> publication list \<Rightarrow> service \<times> (int \<times> bool) \<times> publication list" where
  "entry_group_collision alternative http_port grp added committed sv ps =
     (let sv1 = sv\<lparr>sID := alternative (sID sv)\<rparr> in (sv1, static_create_services http_port grp added committed sv1 ps))"

lemma find_skip: "find P xs = None \<Longrightarrow> find P (xs @ ys) = find P ys"
  by (induction xs) (auto split: if_splits)

text \<open>What was announced is removed again, when no other service has its name and type.\<close>

lemma announce_remove:
  assumes "\<forall>p \<in> set ps. pub_name p \<noteq> zeroConfName sv"
  shows "avahi_core_remove_service sv (snd (static_create_services prt True 0 0 sv ps)) = (0, ps)"
proof -
  let ?p = "\<lparr>pub_name = zeroConfName sv, pub_type = DNS_SD_type sv, pub_port = prt, pub_txt = txt_data sv\<rparr>"
  have "find (\<lambda>p. pub_name p = zeroConfName sv \<and> pub_type p = DNS_SD_type sv) ps = None" using assms by (auto simp: find_None_iff)
  then have "find (\<lambda>p. pub_name p = zeroConfName sv \<and> pub_type p = DNS_SD_type sv) (ps @ [?p]) = Some ?p"
    by (simp add: find_skip)
  moreover have "?p \<notin> set ps" using assms by auto
  ultimately show ?thesis by (simp add: static_create_services_def avahi_core_remove_service_def remove1_append)
qed

text \<open>
  After a collision the service is announced under the same name again, and its ID, by which the web server and
  the XML description know it, has changed.
\<close>

lemma collision_keeps_name:
  "map pub_name (snd (snd (entry_group_collision alternative prt True 0 0 sv []))) = [zeroConfName sv]"
  "sID (fst (entry_group_collision alternative prt True 0 0 sv [])) = alternative (sID sv)"
  by (simp_all add: entry_group_collision_def static_create_services_def Let_def)

end
