(* ===== verification/HttpClient.thy ===== *)
theory HttpClient
  imports HP_Prelude
begin

text \<open>
  The HTTP side of the clients (\<open>hpclientSD/curl_fct.c\<close>, and the part of it that \<open>hpclientPUT/xmlhttputils.c\<close>
  copies): buffers that libcurl fills and empties through callbacks.

  Of libcurl the code uses that a transfer hands the body of the answer to the write function in chunks,
  that it is aborted when this function does not return the size of a chunk, that the read function is
  called until it has no more, and the code at the end; the chunks, the sizes that are asked for and the
  code of a transfer that is not aborted are inputs. A write outside a block is a fault (\<open>None\<close>).
\<close>

abbreviation (input) CURLE_OK :: int where "CURLE_OK \<equiv> 0"
abbreviation (input) CURLE_WRITE_ERROR :: int where "CURLE_WRITE_ERROR \<equiv> 23"

text \<open>
  A buffer: the cells of its block, whether \<open>buf\<close> points to it yet (\<open>init_curl\<close> leaves the field of
  \<open>get_cbc\<close> unset), position and size.
\<close>

record CBC =
  cells :: string
  linked :: bool
  cpos :: nat
  csize :: nat

definition copyBuffer :: "string \<Rightarrow> CBC \<Rightarrow> (nat \<times> CBC) option" where
  "copyBuffer p c =
     (if csize c < cpos c + length p then Some (0, c)
      else if \<not> linked c then None
      else do { b \<leftarrow> wrn (cells c) (cpos c) p; Some (length p, c\<lparr>cells := b, cpos := cpos c + length p\<rparr>) })"

definition putBuffer :: "nat \<Rightarrow> CBC \<Rightarrow> (string \<times> CBC) option" where
  "putBuffer n c =
     (let k = min (csize c - cpos c) n in
      do { d \<leftarrow> rdn (cells c) (cpos c) k; Some (d, c\<lparr>cpos := cpos c + k\<rparr>) })"

text \<open>The transfer of an answer, and that of the data of a PUT request.\<close>

fun perform :: "string list \<Rightarrow> int \<Rightarrow> CBC \<Rightarrow> (int \<times> CBC) option" where
  "perform [] fin c = Some (fin, c)"
| "perform (x # xs) fin c = do {
     (n, c1) \<leftarrow> copyBuffer x c;
     (if n = length x then perform xs fin c1 else Some (CURLE_WRITE_ERROR, c1))
   }"

fun upload_data :: "nat list \<Rightarrow> CBC \<Rightarrow> (string \<times> CBC) option" where
  "upload_data [] c = Some ([], c)"
| "upload_data (n # ns) c = do {
     (d, c1) \<leftarrow> putBuffer n c;
     (if d = [] then Some ([], c1) else do { (e, c2) \<leftarrow> upload_data ns c1; Some (d @ e, c2) })
   }"

definition init_curl :: "string \<Rightarrow> CBC" where
  "init_curl get_buf = \<lparr>cells = get_buf, linked = False, cpos = 0, csize = 2048\<rparr>"

definition http_get_function :: "string list \<Rightarrow> int \<Rightarrow> CBC \<Rightarrow> (string option \<times> CBC) option" where
  "http_get_function chunks fin get_cbc = do {
     (code, c) \<leftarrow> perform chunks fin (get_cbc\<lparr>linked := True, cpos := 0\<rparr>);
     (if code \<noteq> CURLE_OK then Some (None, c)
      else do { d \<leftarrow> rdn (cells c) 0 (cpos c); Some (Some (takeWhile (\<lambda>x. x \<noteq> CHR 0x00) d), c) })
   }"

text \<open>
  The data that are sent, the result and the buffer of the answers. The result is made from the buffer of
  the data that were sent, without a terminator; the answer stays in the other buffer.
\<close>

definition http_put_function ::
  "string \<Rightarrow> nat list \<Rightarrow> string list \<Rightarrow> int \<Rightarrow> CBC \<Rightarrow> (string \<times> string option \<times> CBC) option" where
  "http_put_function d ns chunks fin get_cbc = do {
     (sent, p) \<leftarrow> upload_data ns \<lparr>cells = d @ [CHR 0x00], linked = True, cpos = 0, csize = length d\<rparr>;
     (code, c) \<leftarrow> perform chunks fin (get_cbc\<lparr>cpos := 0\<rparr>);
     (if code \<noteq> CURLE_OK then Some (sent, None, c)
      else do { r \<leftarrow> rdn (cells p) 0 (cpos p); Some (sent, Some r, c) })
   }"

section \<open>Subscriptions\<close>

record events_manager =
  hp_url :: string
  cbc :: CBC
  nb_subscribed :: nat
  events_thread :: bool

definition create_events_manager :: "string option \<Rightarrow> string \<Rightarrow> events_manager option" where
  "create_events_manager hp_server_url cbc_buf = (case hp_server_url of
     None \<Rightarrow> None
   | Some u \<Rightarrow> Some \<lparr>hp_url = u, cbc = \<lparr>cells = cbc_buf, linked = True, cpos = 0, csize = 2048\<rparr>,
       nb_subscribed = 0, events_thread = False\<rparr>)"

text \<open>The first subscription starts the thread that waits for events; the position is not reset.\<close>

definition client_subscribe :: "events_manager option \<Rightarrow> string list \<Rightarrow> int \<Rightarrow> (int \<times> events_manager option) option" where
  "client_subscribe em chunks fin = (case em of
     None \<Rightarrow> Some (-1, None)
   | Some m \<Rightarrow> do {
       (code, c) \<leftarrow> perform chunks fin (cbc m);
       (if code \<noteq> CURLE_OK then Some (-1, Some (m\<lparr>cbc := c\<rparr>))
        else Some (0, Some (m\<lparr>cbc := c, nb_subscribed := nb_subscribed m + 1, events_thread := True\<rparr>)))
     })"

definition events_url :: "events_manager \<Rightarrow> string" where
  "events_url m = hp_url m @ ''/events''"

section \<open>Transfers\<close>

definition cbc_ok :: "CBC \<Rightarrow> bool" where
  "cbc_ok c \<longleftrightarrow> csize c \<le> length (cells c) \<and> cpos c \<le> csize c"

text \<open>An answer that fits is stored behind what is there; a longer one ends the transfer.\<close>

lemma perform_eq:
  assumes "cbc_ok c" and "linked c"
  shows "\<exists>c'. perform xs fin c = Some (if cpos c + length (concat xs) \<le> csize c then fin else CURLE_WRITE_ERROR, c') \<and>
    cbc_ok c' \<and> linked c' \<and> csize c' = csize c \<and> take (cpos c) (cells c') = take (cpos c) (cells c) \<and>
    (cpos c + length (concat xs) \<le> csize c \<longrightarrow> cpos c' = cpos c + length (concat xs) \<and>
      take (cpos c') (cells c') = take (cpos c) (cells c) @ concat xs)"
  using assms
proof (induction xs arbitrary: c)
  case (Cons x xs)
  show ?case
  proof (cases "csize c < cpos c + length x")
    case True
    then show ?thesis using Cons.prems by (cases x) (auto simp: copyBuffer_def cbc_ok_def)
  next
    case False
    let ?b = "take (cpos c) (cells c) @ x @ drop (cpos c + length x) (cells c)"
    let ?c = "c\<lparr>cells := ?b, cpos := cpos c + length x\<rparr>"
    have step: "copyBuffer x c = Some (length x, ?c)"
      using False Cons.prems by (auto simp: copyBuffer_def cbc_ok_def wrn_def)
    have ok: "cbc_ok ?c" "linked ?c" using False Cons.prems by (auto simp: cbc_ok_def)
    have t: "take (cpos c + length x) ?b = take (cpos c) (cells c) @ x" "take (cpos c) ?b = take (cpos c) (cells c)"
      using Cons.prems by (auto simp: cbc_ok_def min_def)
    obtain c' where c': "perform xs fin ?c = Some (if cpos ?c + length (concat xs) \<le> csize ?c then fin else CURLE_WRITE_ERROR, c')"
      "cbc_ok c'" "linked c'" "csize c' = csize c" "take (cpos ?c) (cells c') = take (cpos ?c) (cells ?c)"
      "cpos ?c + length (concat xs) \<le> csize ?c \<longrightarrow> cpos c' = cpos ?c + length (concat xs) \<and>
        take (cpos c') (cells c') = take (cpos ?c) (cells ?c) @ concat xs"
      using Cons.IH [OF ok] by auto
    have "take (cpos c) (cells c') = take (cpos c) (take (cpos c + length x) (cells c'))" by simp
    also have "\<dots> = take (cpos c) (cells c)" using c'(5) t Cons.prems by (simp add: cbc_ok_def)
    finally have pre: "take (cpos c) (cells c') = take (cpos c) (cells c)" .
    have c6: "take (cpos ?c) (cells ?c) = take (cpos c) (cells c) @ x" using t(1) by simp
    have "cpos c + length x + length (concat xs) \<le> csize c \<longrightarrow> cpos c' = cpos c + length x + length (concat xs) \<and>
        take (cpos c') (cells c') = take (cpos c) (cells c) @ x @ concat xs"
      using c'(6) unfolding c6 by (auto simp del: take_append)
    then show ?thesis using c'(1-4) pre by (intro exI [of _ c']) (auto simp: step add.assoc simp del: take_append)
  qed
qed (auto simp: cbc_ok_def)

lemma http_get_eq:
  assumes "cbc_ok c"
  shows "\<exists>c'. http_get_function xs fin c = Some (if fin = CURLE_OK \<and> length (concat xs) \<le> csize c
      then Some (takeWhile (\<lambda>x. x \<noteq> CHR 0x00) (concat xs)) else None, c') \<and> cbc_ok c' \<and> linked c' \<and> csize c' = csize c"
proof -
  let ?c = "c\<lparr>linked := True, cpos := 0\<rparr>"
  have "cbc_ok ?c" "linked ?c" using assms by (auto simp: cbc_ok_def)
  from perform_eq [OF this, of xs fin] obtain c' where
    "perform xs fin ?c = Some (if length (concat xs) \<le> csize c then fin else CURLE_WRITE_ERROR, c')"
    "cbc_ok c'" "linked c'" "csize c' = csize c"
    "length (concat xs) \<le> csize c \<longrightarrow> cpos c' = length (concat xs) \<and> take (cpos c') (cells c') = concat xs" by auto
  then show ?thesis by (auto simp: http_get_function_def rdn_def cbc_ok_def)
qed

lemma upload_eq:
  assumes "cpos c \<le> csize c" and "csize c \<le> length (cells c)" and "0 \<notin> set ns" and "csize c - cpos c \<le> sum_list ns"
  shows "upload_data ns c = Some (take (csize c - cpos c) (drop (cpos c) (cells c)), c\<lparr>cpos := csize c\<rparr>)"
  using assms
proof (induction ns arbitrary: c)
  case (Cons n ns)
  let ?k = "min (csize c - cpos c) n"
  let ?c = "c\<lparr>cpos := cpos c + ?k\<rparr>"
  have step: "putBuffer n c = Some (take ?k (drop (cpos c) (cells c)), ?c)"
    using Cons.prems by (auto simp: putBuffer_def rdn_def Let_def min_def)
  show ?case
  proof (cases "csize c = cpos c")
    case True
    then show ?thesis using step by simp
  next
    case False
    then have "take ?k (drop (cpos c) (cells c)) \<noteq> []" using Cons.prems by auto
    moreover have "upload_data ns ?c = Some (take (csize ?c - cpos ?c) (drop (cpos ?c) (cells ?c)), ?c\<lparr>cpos := csize ?c\<rparr>)"
      using Cons.prems by (intro Cons.IH) (auto simp: min_def)
    moreover have "take ?k (drop (cpos c) (cells c)) @ take (csize c - (cpos c + ?k)) (drop (cpos c + ?k) (cells c)) =
        take (csize c - cpos c) (drop (cpos c) (cells c))"
    proof -
      have "csize c - cpos c = ?k + (csize c - (cpos c + ?k))" using Cons.prems by auto
      then show ?thesis by (metis take_add drop_drop add.commute)
    qed
    ultimately show ?thesis using step by simp
  qed
qed auto

lemma http_put_eq:
  assumes "cbc_ok c" and "linked c" and "0 \<notin> set ns" and "length d \<le> sum_list ns"
  shows "\<exists>c'. http_put_function d ns xs fin c = Some (d, if fin = CURLE_OK \<and> length (concat xs) \<le> csize c then Some d else None, c') \<and>
    (length (concat xs) \<le> csize c \<longrightarrow> take (cpos c') (cells c') = concat xs)"
proof -
  let ?p = "\<lparr>cells = d @ [CHR 0x00], linked = True, cpos = 0, csize = length d\<rparr>"
  have up: "upload_data ns ?p = Some (d, ?p\<lparr>cpos := length d\<rparr>)" using assms(3,4) by (subst upload_eq) auto
  have "cbc_ok (c\<lparr>cpos := 0\<rparr>)" "linked (c\<lparr>cpos := 0\<rparr>)" using assms(1,2) by (auto simp: cbc_ok_def)
  from perform_eq [OF this, of xs fin] show ?thesis by (auto simp: http_put_function_def up rdn_def)
qed

text \<open>
  A GET request of a client: whatever the last request left in the buffer, the result is the body of the
  answer up to its first NUL, in whatever chunks it comes, when the transfer succeeds and the body has at
  most 2048 bytes, and \<open>NULL\<close> otherwise; nothing is written outside the buffer.
\<close>

theorem http_get_body:
  assumes "cbc_ok c" and "csize c = 2048"
  shows "map_option fst (http_get_function xs fin c) = Some (if fin = CURLE_OK \<and> length (concat xs) \<le> 2048
    then Some (takeWhile (\<lambda>x. x \<noteq> CHR 0x00) (concat xs)) else None)"
  using http_get_eq [OF assms(1), of xs fin] assms(2) by auto

lemma init_curl_ok: "length b = 2048 \<Longrightarrow> cbc_ok (init_curl b) \<and> csize (init_curl b) = 2048"
  by (simp add: init_curl_def cbc_ok_def)

theorem http_get_body_witness:
  "map_option fst (http_get_function [''<val'', ''ue>'' ] 0 (init_curl (replicate 2048 CHR ''x''))) = Some (Some ''<value>'')"
  using http_get_body [of "init_curl (replicate 2048 CHR ''x'')" "[''<val'', ''ue>'']" 0] init_curl_ok [of "replicate 2048 CHR ''x''"]
  by simp

text \<open>
  A PUT request of a client sends its data, in whatever pieces they are asked for, and when it succeeds it
  gives back these data and not the answer of the server, which stays in the buffer of the GET requests.
\<close>

theorem http_put_returns_request:
  assumes "cbc_ok c" and "linked c" and "0 \<notin> set ns" and "length d \<le> sum_list ns"
    and "length (concat xs) \<le> csize c"
  shows "\<exists>c'. http_put_function d ns xs CURLE_OK c = Some (d, Some d, c') \<and> take (cpos c') (cells c') = concat xs"
  using http_put_eq [OF assms(1-4), of xs CURLE_OK] assms(5) by auto

theorem http_put_returns_request_witness:
  "\<exists>c'. http_put_function ''20'' [1, 8] [''<value>21</value>''] 0 \<lparr>cells = replicate 2048 CHR ''x'', linked = True, cpos = 7, csize = 2048\<rparr> =
    Some (''20'', Some ''20'', c') \<and> take (cpos c') (cells c') = ''<value>21</value>''"
  using http_put_returns_request [of "\<lparr>cells = replicate 2048 CHR ''x'', linked = True, cpos = 7, csize = 2048\<rparr>" "[1, 8]" "''20''"
      "[''<value>21</value>'']"]
  by (simp add: cbc_ok_def)

text \<open>A PUT request before the first GET request writes its answer through a pointer that was never set.\<close>

lemma put_before_get:
  assumes "x \<noteq> []" and "length x \<le> 2048" and "length d \<le> n" and "0 < n"
  shows "http_put_function d [n] (x # xs) fin (init_curl b) = None"
proof -
  let ?p = "\<lparr>cells = d @ [CHR 0x00], linked = True, cpos = 0, csize = length d\<rparr>"
  have up: "upload_data [n] ?p = Some (d, ?p\<lparr>cpos := length d\<rparr>)" using assms(3,4) by (subst upload_eq) auto
  show ?thesis using assms(1,2) by (simp add: http_put_function_def up init_curl_def copyBuffer_def del: upload_data.simps)
qed

text \<open>The answers to subscriptions are stored one behind the other, so that the buffer gets full.\<close>

fun subscribe_all :: "string list list \<Rightarrow> events_manager option \<Rightarrow> (int list \<times> events_manager option) option" where
  "subscribe_all [] em = Some ([], em)"
| "subscribe_all (xs # as) em = do {
     (r, em1) \<leftarrow> client_subscribe em xs CURLE_OK;
     (rs, em2) \<leftarrow> subscribe_all as em1;
     Some (r # rs, em2)
   }"

lemma subscribe_eq:
  assumes "cbc_ok (cbc m)" and "linked (cbc m)"
  shows "\<exists>m'. client_subscribe (Some m) xs CURLE_OK =
      Some (if cpos (cbc m) + length (concat xs) \<le> csize (cbc m) then 0 else -1, Some m') \<and>
    cbc_ok (cbc m') \<and> linked (cbc m') \<and> csize (cbc m') = csize (cbc m) \<and>
    (cpos (cbc m) + length (concat xs) \<le> csize (cbc m) \<longrightarrow> cpos (cbc m') = cpos (cbc m) + length (concat xs) \<and>
      nb_subscribed m' = nb_subscribed m + 1 \<and> events_thread m')"
  using perform_eq [OF assms, of xs CURLE_OK] by (auto simp: client_subscribe_def)

lemma subscribe_all_eq:
  assumes "cbc_ok (cbc m)" and "linked (cbc m)" and "cpos (cbc m) + length (concat (concat as)) \<le> csize (cbc m)"
  shows "\<exists>m'. subscribe_all as (Some m) = Some (replicate (length as) 0, Some m') \<and> cbc_ok (cbc m') \<and> linked (cbc m') \<and>
    csize (cbc m') = csize (cbc m) \<and> cpos (cbc m') = cpos (cbc m) + length (concat (concat as)) \<and>
    nb_subscribed m' = nb_subscribed m + length as"
  using assms
proof (induction as arbitrary: m)
  case (Cons a as)
  obtain m1 where m1: "client_subscribe (Some m) a CURLE_OK = Some (0, Some m1)" "cbc_ok (cbc m1)" "linked (cbc m1)"
    "csize (cbc m1) = csize (cbc m)" "cpos (cbc m1) = cpos (cbc m) + length (concat a)" "nb_subscribed m1 = nb_subscribed m + 1"
    using subscribe_eq [of m a] Cons.prems by auto
  then show ?case using Cons.IH [of m1] Cons.prems by (auto simp: ac_simps)
qed auto

text \<open>
  Subscriptions of one server: the answers of all of them share the 2048 bytes of a buffer whose position is
  never reset. As long as they fit, every subscription succeeds and is counted; the first one that does
  not fit fails, although the server has accepted it.
\<close>

theorem subscriptions_exhaust:
  assumes "create_events_manager (Some u) b = Some m" and "length b = 2048" and "length (concat (concat as)) \<le> 2048"
    and "2048 < length (concat (concat as)) + length (concat xs)"
  shows "\<exists>m1 m2. subscribe_all as (Some m) = Some (replicate (length as) 0, Some m1) \<and> nb_subscribed m1 = length as \<and>
    client_subscribe (Some m1) xs CURLE_OK = Some (-1, Some m2)"
proof -
  have m: "cbc_ok (cbc m)" "linked (cbc m)" "cpos (cbc m) = 0" "csize (cbc m) = 2048" "nb_subscribed m = 0"
    using assms(1,2) by (auto simp: create_events_manager_def cbc_ok_def)
  then obtain m1 where "subscribe_all as (Some m) = Some (replicate (length as) 0, Some m1)" "cbc_ok (cbc m1)" "linked (cbc m1)"
    "csize (cbc m1) = 2048" "cpos (cbc m1) = length (concat (concat as))" "nb_subscribed m1 = length as"
    using subscribe_all_eq [of m as] assms(3) by auto
  then show ?thesis using subscribe_eq [of m1 xs] assms(4) by auto
qed

theorem subscriptions_exhaust_witness:
  "\<exists>m m1 m2. create_events_manager (Some ''http://10.0.0.1:8890'') (replicate 2048 CHR ''x'') = Some m \<and>
    subscribe_all (replicate 20 [replicate 100 CHR ''a'']) (Some m) = Some (replicate 20 0, Some m1) \<and> nb_subscribed m1 = 20 \<and>
    client_subscribe (Some m1) [replicate 100 CHR ''a''] 0 = Some (-1, Some m2)"
proof -
  obtain m where m: "create_events_manager (Some ''http://10.0.0.1:8890'') (replicate 2048 CHR ''x'') = Some m"
    by (simp add: create_events_manager_def)
  have l: "length (concat (concat (replicate 20 [replicate 100 CHR ''a'']))) = 2000" by (simp add: length_concat sum_list_replicate)
  show ?thesis
    using subscriptions_exhaust [OF m, of "replicate 20 [replicate 100 CHR ''a'']" "[replicate 100 CHR ''a'']"] m
    unfolding l by simp
qed

end
