(* ===== verification/HpClient.thy ===== *)
theory HpClient
  imports HttpClient HpdSse HpdXml
begin

text \<open>
  The client that looks for a service (\<open>hpclientSD/\<close>): the services it looks for (\<open>request_service.c\<close>), their
  comparison with the description of a service (\<open>xmlAPI.c\<close>), the callback of Avahi
  (\<open>avahi_browse_api.c\<close>), and the events of a service (\<open>HP_client.c\<close>).

  A field of a structure is \<open>Garbage\<close> until it is set; reading it then is a fault (\<open>None\<close>). Avahi, libcurl and
  the parser of Mini-XML are inputs.
\<close>

section \<open>Services that are looked for\<close>

datatype 'a cptr = Garbage | Nullptr | Pointer 'a

fun given :: "'a cptr \<Rightarrow> 'a option option" where
  "given Garbage = None"
| "given Nullptr = Some None"
| "given (Pointer x) = Some (Some x)"

record put_action =
  action_RSID :: string
  action_type :: string
  action_value :: string

record on_value_change =
  change_value :: string
  action_head :: "put_action list"

record request_service =
  rs_ID :: "string cptr"
  rs_name :: "string cptr"
  rs_value_url :: "string cptr"
  rs_complete_url :: "string cptr"
  rs_type :: "string cptr"
  rs_RSID :: "string cptr"
  rs_device_type :: "string cptr"
  rs_device_ID :: "string cptr"
  rs_location :: "string cptr"
  on_value_change_head :: "on_value_change list cptr"
  default_value_change :: "on_value_change cptr"

text \<open>What \<open>malloc\<close> returns, and the fields that are set after it. An empty list is a \<open>NULL\<close> head.\<close>

definition malloc_request_service :: request_service where
  "malloc_request_service = \<lparr>rs_ID = Garbage, rs_name = Garbage, rs_value_url = Garbage, rs_complete_url = Garbage, rs_type = Garbage,
     rs_RSID = Garbage, rs_device_type = Garbage, rs_device_ID = Garbage, rs_location = Garbage, on_value_change_head = Garbage,
     default_value_change = Garbage\<rparr>"

definition init_request_service_struct :: "request_service \<Rightarrow> request_service" where
  "init_request_service_struct r = r\<lparr>rs_ID := Nullptr, rs_value_url := Nullptr, rs_type := Nullptr, rs_RSID := Nullptr,
     rs_device_type := Nullptr, rs_device_ID := Nullptr, on_value_change_head := Pointer []\<rparr>"

definition copy_request_service :: "request_service \<Rightarrow> request_service \<Rightarrow> request_service" where
  "copy_request_service to_copy to_create = to_create\<lparr>rs_ID := rs_ID to_copy, rs_type := rs_type to_copy,
     rs_device_ID := rs_device_ID to_copy, rs_device_type := rs_device_type to_copy, rs_RSID := rs_RSID to_copy\<rparr>"

text \<open>
  The one service of the command line. The identifier \<open>1\<close> goes to a block of the size of the location; without a
  location, the cleaning up uses variables that were never set.
\<close>

definition creaters :: "string option \<Rightarrow> string option \<Rightarrow> request_service list \<Rightarrow> (int \<times> request_service list) option" where
  "creaters servicetypeinput servicelocationinput head =
     (let r = init_request_service_struct malloc_request_service;
          r1 = (case servicetypeinput of None \<Rightarrow> r | Some t \<Rightarrow> r\<lparr>rs_type := Pointer t\<rparr>) in
      case servicelocationinput of
        None \<Rightarrow> None
      | Some l \<Rightarrow>
          if length l + 1 < length ''1'' + 1 then None
          else Some (0, head @ [r1\<lparr>rs_location := Pointer l, rs_RSID := Pointer ''1''\<rparr>]))"

text \<open>
  The services of a file, which takes the place of the command line in a line that is commented out: the
  elements that Mini-XML finds, with their attributes. A field is copied to a block of \<open>n\<close> bytes. The result is
  the head of the list, which is left pointing to freed memory when an element lacks an attribute.
\<close>

record rs_element =
  rs_attrs :: attributes
  ovc_elements :: "(attributes \<times> attributes list) list"

definition copied :: "nat \<Rightarrow> string \<Rightarrow> string option" where
  "copied n s = (if length s < n then Some s else None)"

fun parse_actions :: "attributes list \<Rightarrow> put_action list \<Rightarrow> put_action list option option" where
  "parse_actions [] acc = Some (Some acc)"
| "parse_actions (as # ass) acc = (case map_of as ''Type'' of
     None \<Rightarrow> Some None
   | Some t \<Rightarrow> (case map_of as ''RSID'' of
       None \<Rightarrow> Some None
     | Some r \<Rightarrow> do {
         rsid \<leftarrow> copied (length r) r;
         (case map_of as ''value'' of
            None \<Rightarrow> Some None
          | Some v \<Rightarrow> do {
              val \<leftarrow> copied (length v) v;
              parse_actions ass (acc @ [\<lparr>action_RSID = rsid, action_type = t, action_value = val\<rparr>])
            })
       }))"

fun parse_changes :: "(attributes \<times> attributes list) list \<Rightarrow> request_service \<Rightarrow> on_value_change list \<Rightarrow> request_service option option" where
  "parse_changes [] r ovcs = Some (Some (r\<lparr>on_value_change_head := Pointer ovcs\<rparr>))"
| "parse_changes ((as, actions) # cs) r ovcs = (case map_of as ''value'' of
     None \<Rightarrow> Some None
   | Some v \<Rightarrow> do {
       acts \<leftarrow> parse_actions actions [];
       (case acts of
          None \<Rightarrow> Some None
        | Some l \<Rightarrow>
            let c = \<lparr>change_value = v, action_head = l\<rparr> in
            if v = ''default'' then parse_changes cs (r\<lparr>default_value_change := Pointer c\<rparr>) ovcs
            else parse_changes cs r (ovcs @ [c]))
     })"

definition set_attr :: "string \<Rightarrow> attributes \<Rightarrow> string cptr \<Rightarrow> string cptr" where
  "set_attr n as f = (case map_of as n of None \<Rightarrow> f | Some v \<Rightarrow> Pointer v)"

definition parse_request_service :: "rs_element \<Rightarrow> request_service option option" where
  "parse_request_service e =
     (let r = init_request_service_struct malloc_request_service; as = rs_attrs e;
          r1 = r\<lparr>rs_device_type := set_attr ''DeviceType'' as (rs_device_type r), rs_device_ID := set_attr ''DeviceID'' as (rs_device_ID r),
            rs_type := set_attr ''ServiceType'' as (rs_type r), rs_ID := set_attr ''ServiceID'' as (rs_ID r),
            rs_location := set_attr ''Location'' as (rs_location r)\<rparr> in
      case map_of as ''RSID'' of
        None \<Rightarrow> Some None
      | Some i \<Rightarrow> parse_changes (ovc_elements e) (r1\<lparr>rs_RSID := Pointer i\<rparr>) [])"

fun parse_services :: "rs_element list \<Rightarrow> request_service list \<Rightarrow> (int \<times> request_service list cptr) option" where
  "parse_services [] head = Some (0, Pointer head)"
| "parse_services (e # es) head = do {
     r \<leftarrow> parse_request_service e;
     (case r of None \<Rightarrow> Some (-1, Garbage) | Some rs \<Rightarrow> parse_services es (head @ [rs]))
   }"

definition parse_xml :: "rs_element list option \<Rightarrow> request_service list \<Rightarrow> (int \<times> request_service list cptr) option" where
  "parse_xml doc head = (case doc of None \<Rightarrow> Some (-1, Pointer head) | Some es \<Rightarrow> parse_services es head)"

section \<open>Destruction\<close>

text \<open>
  The strings that are released. The name, the location and the complete URL of a service are not, nor its
  default change.
\<close>

definition release :: "string cptr \<Rightarrow> string list option" where
  "release f = map_option (\<lambda>v. case v of None \<Rightarrow> [] | Some s \<Rightarrow> [s]) (given f)"

definition destroy_action_struct :: "put_action \<Rightarrow> string list" where
  "destroy_action_struct a = [action_type a, action_RSID a, action_value a]"

definition destroy_on_value_change_struct :: "on_value_change \<Rightarrow> string list" where
  "destroy_on_value_change_struct c = change_value c # concat (map destroy_action_struct (action_head c))"

definition destroy_request_service_struct :: "request_service \<Rightarrow> string list option" where
  "destroy_request_service_struct r = do {
     i \<leftarrow> release (rs_ID r);
     u \<leftarrow> release (rs_value_url r);
     t \<leftarrow> release (rs_type r);
     s \<leftarrow> release (rs_RSID r);
     dt \<leftarrow> release (rs_device_type r);
     di \<leftarrow> release (rs_device_ID r);
     cs \<leftarrow> given (on_value_change_head r);
     Some (i @ u @ t @ s @ dt @ di @ (case cs of None \<Rightarrow> [] | Some l \<Rightarrow> concat (map destroy_on_value_change_struct l)))
   }"

fun release_all :: "request_service list \<Rightarrow> string list option" where
  "release_all [] = Some []"
| "release_all (r # rs) = do { f \<leftarrow> destroy_request_service_struct r; fs \<leftarrow> release_all rs; Some (f @ fs) }"

definition destroy_request_service_list :: "request_service list \<Rightarrow> (int \<times> string list) option" where
  "destroy_request_service_list head = (if head = [] then Some (-1, []) else map_option (Pair 0) (release_all head))"

section \<open>Comparison with a description\<close>

text \<open>
  A comparison of a field, when it is given, with an attribute: the outer option is a fault, the inner one the
  return of an error for an attribute that is missing.
\<close>

definition compare :: "string cptr \<Rightarrow> string \<Rightarrow> attributes \<Rightarrow> bool option option" where
  "compare f n as = do {
     v \<leftarrow> given f;
     Some (case v of None \<Rightarrow> Some True | Some x \<Rightarrow> map_option (\<lambda>y. x = y) (map_of as n))
   }"

definition if_found :: "bool option option \<Rightarrow> bool option option \<Rightarrow> bool option option" where
  "if_found a b = do { r \<leftarrow> a; (if r = Some True then b else Some r) }"

definition device_wanted :: "request_service \<Rightarrow> bool option" where
  "device_wanted r = do {
     i \<leftarrow> given (rs_device_ID r);
     (if i \<noteq> None then Some True
      else do {
        t \<leftarrow> given (rs_device_type r);
        (if t \<noteq> None then Some True else do { l \<leftarrow> given (rs_location r); Some (l \<noteq> None) })
      })
   }"

definition matches :: "request_service \<Rightarrow> attributes \<Rightarrow> attributes option \<Rightarrow> bool option option" where
  "matches r service_node device_node =
     if_found (compare (rs_ID r) ''id'' service_node) (
     if_found (compare (rs_type r) ''type'' service_node) (do {
       w \<leftarrow> device_wanted r;
       (if \<not> w then Some (Some True)
        else (case device_node of
           None \<Rightarrow> Some None
         | Some d \<Rightarrow>
             if_found (compare (rs_device_ID r) ''id'' d) (
             if_found (compare (rs_device_type r) ''type'' d) (
             compare (rs_location r) ''location'' d))))
     }))"

text \<open>The description is that of the service element and of the device element in it, when there is one.\<close>

fun get_matching_request_service ::
  "(attributes \<times> attributes option) option \<Rightarrow> request_service list \<Rightarrow> (int \<times> request_service option) option" where
  "get_matching_request_service None head = Some (-1, None)"
| "get_matching_request_service (Some node) [] = Some (-1, None)"
| "get_matching_request_service (Some node) (r # rs) = do {
     m \<leftarrow> matches r (fst node) (snd node);
     (case m of
        None \<Rightarrow> Some (-1, None)
      | Some found \<Rightarrow>
          if found then Some (0, Some (copy_request_service r malloc_request_service))
          else get_matching_request_service (Some node) rs)
   }"

section \<open>A service that Avahi has found\<close>

definition quote :: char where "quote = CHR 0x22"

text \<open>
  The part of the text before its last quote, without the first five characters; a text without a quote or
  a shorter one is read outside.
\<close>

definition uri_of :: "string \<Rightarrow> string option" where
  "uri_of t =
     (if quote \<notin> set t then None
      else let u = rev (tl (dropWhile (\<lambda>c. c \<noteq> quote) (rev t))) in if length u < 5 then None else Some (drop 5 u))"

definition server_url :: "string \<Rightarrow> nat \<Rightarrow> string" where
  "server_url address port_num = ''http://'' @ address @ '':'' @ decimal port_num"

text \<open>
  \<open>fetch\<close> is the GET request and \<open>parse\<close> reads the description. The result is the service found and the text that
  is written to \<open>mainSD-OUTPUT.url\<close>, with which the program ends, or nothing.
\<close>

definition service_found_callback ::
  "string \<Rightarrow> string \<Rightarrow> nat \<Rightarrow> string \<Rightarrow> (string \<Rightarrow> string option) \<Rightarrow> (string \<Rightarrow> (attributes \<times> attributes option) option) \<Rightarrow>
   request_service list \<Rightarrow> (request_service \<times> string) option option" where
  "service_found_callback avahi_name address port_num tmp_url fetch parse head = do {
     u \<leftarrow> uri_of tmp_url;
     (case fetch (server_url address port_num @ u @ ''?x=1'') of
        None \<Rightarrow> Some None
      | Some service_xml \<Rightarrow> do {
          (rc, m) \<leftarrow> get_matching_request_service (parse service_xml) head;
          (case m of
             None \<Rightarrow> Some None
           | Some r \<Rightarrow>
               let complete = server_url address port_num @ u in
               Some (Some (r\<lparr>rs_value_url := Pointer u, rs_complete_url := Pointer complete, rs_name := Pointer avahi_name\<rparr>, complete)))
        })
   }"

text \<open>Only the first four characters of the prefix are compared.\<close>

definition resolve_callback ::
  "string \<Rightarrow> string \<Rightarrow> nat \<Rightarrow> string \<Rightarrow> (string \<Rightarrow> string option) \<Rightarrow> (string \<Rightarrow> (attributes \<times> attributes option) option) \<Rightarrow>
   request_service list \<Rightarrow> (request_service \<times> string) option option" where
  "resolve_callback name a prt t fetch parse head =
     (if take 4 t = quote # ''URI'' then service_found_callback name a prt t fetch parse head else Some None)"

section \<open>Events\<close>

definition strtok :: "char \<Rightarrow> string \<Rightarrow> (string \<times> string) option" where
  "strtok c s = (let t = dropWhile (\<lambda>x. x = c) s in
     if t = [] then None else Some (takeWhile (\<lambda>x. x \<noteq> c) t, drop 1 (dropWhile (\<lambda>x. x \<noteq> c) t)))"

text \<open>The text and the name of an event; a part that is shorter than its label is read outside.\<close>

definition parse_event :: "string \<Rightarrow> (string \<times> string) option" where
  "parse_event data_in = do {
     (p, rest) \<leftarrow> strtok CHR ''<'' data_in;
     (q, rest1) \<leftarrow> strtok CHR ''<'' rest;
     (if length p < length ''data: '' \<or> length q < length ''br>id: '' then None
      else Some (drop (length ''data: '') p, drop (length ''br>id: '') q))
   }"

text \<open>The requests that are sent, as pairs of URL and value.\<close>

fun send_put :: "string \<Rightarrow> string \<Rightarrow> request_service list \<Rightarrow> (int \<times> (string \<times> string) list) option" where
  "send_put RSID v [] = Some (-1, [])"
| "send_put RSID v (r # rs) = do {
     i \<leftarrow> given (rs_RSID r);
     k \<leftarrow> i;
     (if k = RSID then do { u \<leftarrow> given (rs_complete_url r); Some (0, case u of None \<Rightarrow> [] | Some x \<Rightarrow> [(x, v)]) }
      else send_put RSID v rs)
   }"

fun send_actions :: "request_service list \<Rightarrow> put_action list \<Rightarrow> (string \<times> string) list option" where
  "send_actions head [] = Some []"
| "send_actions head (a # as) = do {
     (rc, ps) \<leftarrow> (if action_type a = ''PUT'' then send_put (action_RSID a) (action_value a) head else Some (0, []));
     qs \<leftarrow> send_actions head as;
     Some (ps @ qs)
   }"

text \<open>
  The loop over the services: the actions of the first change with the value of the event, or the first PUT
  action of the default, end it.
\<close>

fun events_loop :: "string \<Rightarrow> string \<Rightarrow> request_service list \<Rightarrow> request_service list \<Rightarrow> (string \<times> string) list option" where
  "events_loop id_out data_out head [] = Some []"
| "events_loop id_out data_out head (r # rs) = do {
     u \<leftarrow> given (rs_value_url r);
     c \<leftarrow> (if u = None then Some None else given (rs_complete_url r));
     (if u = Some id_out \<and> c \<noteq> None then do {
        h \<leftarrow> given (on_value_change_head r);
        ovcs \<leftarrow> h;
        (case find (\<lambda>x. change_value x = data_out) ovcs of
           Some ovc \<Rightarrow> send_actions head (action_head ovc)
         | None \<Rightarrow> do {
             d \<leftarrow> given (default_value_change r);
             (case d of
                None \<Rightarrow> events_loop id_out data_out head rs
              | Some ovc \<Rightarrow> (case find (\<lambda>a. action_type a = ''PUT'') (action_head ovc) of
                   None \<Rightarrow> events_loop id_out data_out head rs
                 | Some a \<Rightarrow> map_option snd (send_put (action_RSID a) (action_value a) head)))
           })
      }
      else events_loop id_out data_out head rs)
   }"

definition events_callback :: "string \<Rightarrow> request_service list \<Rightarrow> (string \<times> string) list option" where
  "events_callback d head = do { (data_out, id_out) \<leftarrow> parse_event d; events_loop id_out data_out head head }"

section \<open>Start and end\<close>

text \<open>The result of \<open>creaters\<close> is ignored, and Avahi is started without a result.\<close>

definition HP_client_init :: "string option \<Rightarrow> string option \<Rightarrow> (int \<times> request_service list) option" where
  "HP_client_init servicetypeinput servicelocationinput = do {
     (rc, head) \<leftarrow> creaters servicetypeinput servicelocationinput [];
     Some (0, head)
   }"

definition HP_client_deinit :: "request_service list \<Rightarrow> (int \<times> string list) option" where
  "HP_client_deinit head = do { (rc, freed) \<leftarrow> destroy_request_service_list head; Some (0, freed) }"

text \<open>
  The loop over the subscriptions of an events manager ends at a semicolon, so that its body is run once, after
  it, with a null pointer. \<open>managers\<close> is the number of events managers.
\<close>

fun service_removed_callback :: "string \<Rightarrow> nat \<Rightarrow> request_service list \<Rightarrow> string list option" where
  "service_removed_callback name managers [] = Some []"
| "service_removed_callback name managers (r # rs) = do {
     n \<leftarrow> given (rs_name r);
     f \<leftarrow> (if n \<noteq> Some name then Some []
       else if 0 < managers then None
       else do { u \<leftarrow> release (rs_value_url r); c \<leftarrow> release (rs_complete_url r); Some (u @ c @ [name]) });
     fs \<leftarrow> service_removed_callback name managers rs;
     Some (f @ fs)
   }"

section \<open>Properties\<close>

lemma takeWhile_until: "c \<notin> set a \<Longrightarrow> takeWhile (\<lambda>x. x \<noteq> c) (a @ c # r) = a"
  by (induction a) auto

lemma dropWhile_until: "c \<notin> set a \<Longrightarrow> dropWhile (\<lambda>x. x \<noteq> c) (a @ c # r) = c # r"
  by (induction a) auto

lemma strtok_until: "c \<notin> set a \<Longrightarrow> a \<noteq> [] \<Longrightarrow> strtok c (a @ c # r) = Some (a, r)"
  by (cases a) (auto simp: strtok_def takeWhile_until dropWhile_until)

lemma uri_of_quoted:
  assumes "length a = 5"
  shows "uri_of (a @ u @ [quote]) = Some u"
proof -
  have "dropWhile (\<lambda>c. c \<noteq> quote) (rev (a @ u @ [quote])) = quote # rev (a @ u)" by simp
  then have "rev (tl (dropWhile (\<lambda>c. c \<noteq> quote) (rev (a @ u @ [quote])))) = a @ u" by simp
  then show ?thesis using assms by (simp add: uri_of_def Let_def)
qed

text \<open>A comparison of one type and location with the description of a service.\<close>

lemma creaters_eq:
  assumes "l \<noteq> []"
  shows "\<exists>r. creaters (Some t) (Some l) head = Some (0, head @ [r]) \<and> rs_ID r = Nullptr \<and> rs_device_ID r = Nullptr \<and>
    rs_device_type r = Nullptr \<and> rs_type r = Pointer t \<and> rs_location r = Pointer l \<and> rs_value_url r = Nullptr"
  using assms by (auto simp: creaters_def Let_def init_request_service_struct_def Suc_le_eq)

lemma matches_type_location:
  assumes "rs_ID r = Nullptr" and "rs_device_ID r = Nullptr" and "rs_device_type r = Nullptr" and "rs_type r = Pointer t"
    and "rs_location r = Pointer l" and "map_of sn ''type'' = Some ty"
  shows "matches r sn (Some dn) = Some (if ty = t then map_option (\<lambda>y. l = y) (map_of dn ''location'') else Some False)"
  using assms by (auto simp: matches_def compare_def if_found_def device_wanted_def)

lemma found_eq:
  assumes "creaters (Some t) (Some l) [] = Some (0, head)" and "l \<noteq> []" and "map_of sn ''type'' = Some ty"
  shows "\<exists>r. get_matching_request_service (Some (sn, Some dn)) head =
    Some (if ty = t \<and> map_of dn ''location'' = Some l then (0, Some (copy_request_service r malloc_request_service)) else (-1, None)) \<and>
    rs_type r = Pointer t"
proof -
  obtain r where r: "head = [r]" "rs_ID r = Nullptr" "rs_device_ID r = Nullptr" "rs_device_type r = Nullptr" "rs_type r = Pointer t"
    "rs_location r = Pointer l"
    using creaters_eq [OF assms(2), of t "[]"] assms(1) by auto
  then show ?thesis
    using matches_type_location [OF r(2-6) assms(3), of dn] by (intro exI [of _ r]) (auto simp: map_option_case split: option.splits)
qed

text \<open>
  The text of an event that the daemon sends, read by the client: it gets the value and the URL of the service
  back, when neither has a \<open><\<close>.
\<close>

theorem event_roundtrip:
  assumes "CHR ''<'' \<notin> set d" and "CHR ''<'' \<notin> set i"
  shows "parse_event (event_text d i) = Some (d, i)"
proof -
  let ?lt = "CHR ''<''"
  have "event_text d i = (''data: '' @ d) @ ?lt # (''br>id: '' @ i) @ ?lt # ''br><br>''" by (simp add: event_text_def)
  moreover have "strtok ?lt ((''data: '' @ d) @ ?lt # r) = Some (''data: '' @ d, r)" for r
    using assms(1) by (intro strtok_until) auto
  moreover have "strtok ?lt ((''br>id: '' @ i) @ ?lt # r) = Some (''br>id: '' @ i, r)" for r
    using assms(2) by (intro strtok_until) auto
  ultimately show ?thesis by (simp add: parse_event_def)
qed

theorem event_roundtrip_witness:
  "parse_event (event_text ''20'' ''/Lamp/1/Switch/0'') = Some (''20'', ''/Lamp/1/Switch/0'')"
  by (rule event_roundtrip) simp_all

text \<open>A service without a location on the command line, or an empty one.\<close>

lemma creaters_faults: "creaters t None head = None" "creaters t (Some []) head = None"
  by (simp_all add: creaters_def Let_def)

text \<open>
  The services of the list never get their URLs, which go to a copy: no event has an effect.
\<close>

lemma events_ignored:
  assumes "list_all (\<lambda>r. rs_value_url r = Nullptr) rs"
  shows "events_loop i d head rs = Some []"
  using assms by (induction rs) auto

section \<open>Fields that are set\<close>

text \<open>
  A service whose fields that are compared and released are set, whatever they are set to, and which has no
  URL yet.
\<close>

definition is_set :: "'a cptr \<Rightarrow> bool" where
  "is_set f \<longleftrightarrow> f \<noteq> Garbage"

lemma is_set_simps [simp]: "\<not> is_set Garbage" "is_set Nullptr" "is_set (Pointer x)"
  by (simp_all add: is_set_def)

lemma given_set: "is_set f \<longleftrightarrow> given f \<noteq> None"
  by (cases f) auto

definition typed :: "request_service \<Rightarrow> bool" where
  "typed r \<longleftrightarrow> is_set (rs_ID r) \<and> rs_value_url r = Nullptr \<and> is_set (rs_type r) \<and> is_set (rs_RSID r) \<and>
     is_set (rs_device_type r) \<and> is_set (rs_device_ID r) \<and> is_set (on_value_change_head r)"

lemma init_typed: "typed (init_request_service_struct r)"
  by (simp add: typed_def init_request_service_struct_def)

lemma set_attr_set: "is_set f \<Longrightarrow> is_set (set_attr n as f)"
  by (simp add: set_attr_def split: option.split)

lemma parse_changes_typed:
  "parse_changes cs r ovcs = Some (Some r') \<Longrightarrow> typed r \<Longrightarrow> typed r' \<and> rs_location r' = rs_location r"
proof (induction cs r ovcs rule: parse_changes.induct)
  case (1 r ovcs)
  then show ?case by (auto simp: typed_def)
next
  case (2 as actions cs r ovcs)
  from "2.prems"(2) have "typed (r\<lparr>default_value_change := d\<rparr>)" for d by (simp add: typed_def)
  then show ?case using 2 by (auto simp: Let_def split: option.splits bind_splits if_splits)
qed

lemma parse_request_service_typed:
  assumes "parse_request_service e = Some (Some r)"
  shows "typed r \<and> (map_of (rs_attrs e) ''Location'' \<noteq> None \<longrightarrow> is_set (rs_location r))"
proof -
  let ?r = "init_request_service_struct malloc_request_service"
  obtain i where "parse_changes (ovc_elements e) (?r\<lparr>rs_device_type := set_attr ''DeviceType'' (rs_attrs e) (rs_device_type ?r),
      rs_device_ID := set_attr ''DeviceID'' (rs_attrs e) (rs_device_ID ?r), rs_type := set_attr ''ServiceType'' (rs_attrs e) (rs_type ?r),
      rs_ID := set_attr ''ServiceID'' (rs_attrs e) (rs_ID ?r), rs_location := set_attr ''Location'' (rs_attrs e) (rs_location ?r),
      rs_RSID := Pointer i\<rparr>) [] = Some (Some r)" (is "parse_changes _ ?s [] = _")
    using assms by (auto simp: parse_request_service_def Let_def split: option.splits)
  moreover have "typed ?s" using init_typed [of malloc_request_service] by (simp add: typed_def set_attr_set)
  ultimately have "typed r" "rs_location r = rs_location ?s" using parse_changes_typed by blast+
  then show ?thesis by (auto simp: set_attr_def)
qed

definition located :: "request_service list \<Rightarrow> bool" where
  "located l \<longleftrightarrow> list_all (\<lambda>r. is_set (rs_location r)) l"

lemma parse_services_typed:
  assumes "parse_services es head = Some (rc, p)" and "list_all typed head"
  shows "(rc = -1 \<and> p = Garbage) \<or> (\<exists>l. rc = 0 \<and> p = Pointer l \<and> list_all typed l \<and>
    (located head \<and> list_all (\<lambda>e. map_of (rs_attrs e) ''Location'' \<noteq> None) es \<longrightarrow> located l))"
  using assms
proof (induction es head rule: parse_services.induct)
  case (2 e es head)
  show ?case
  proof (cases "parse_request_service e")
    case (Some r)
    show ?thesis
    proof (cases r)
      case (Some rs)
      then show ?thesis
        using 2 parse_request_service_typed [of e rs] \<open>parse_request_service e = Some r\<close> by (auto simp: located_def)
    qed (use 2 \<open>parse_request_service e = Some r\<close> in auto)
  qed (use 2 in auto)
qed auto

lemma creaters_typed:
  assumes "creaters t l head = Some (rc, head')" and "list_all typed head"
  shows "rc = 0 \<and> list_all typed head' \<and> (located head \<longrightarrow> located head')"
  using assms init_typed [of malloc_request_service]
  by (auto simp: creaters_def Let_def typed_def located_def split: option.splits if_splits)

lemma release_set: "is_set f \<Longrightarrow> \<exists>l. release f = Some l"
  by (cases f) (auto simp: release_def)

lemma destroy_typed: "typed r \<Longrightarrow> \<exists>l. destroy_request_service_struct r = Some l"
proof -
  assume r: "typed r"
  then obtain i t s dt di where "release (rs_ID r) = Some i" "release (rs_type r) = Some t" "release (rs_RSID r) = Some s"
    "release (rs_device_type r) = Some dt" "release (rs_device_ID r) = Some di" "release (rs_value_url r) = Some []"
    using release_set by (fastforce simp: typed_def release_def)
  moreover obtain c where "given (on_value_change_head r) = Some c" using r given_set by (auto simp: typed_def)
  ultimately show ?thesis by (simp add: destroy_request_service_struct_def)
qed

lemma release_all_typed: "list_all typed rs \<Longrightarrow> \<exists>l. release_all rs = Some l"
proof (induction rs)
  case (Cons r rs)
  then obtain f l where "destroy_request_service_struct r = Some f" "release_all rs = Some l"
    using destroy_typed [of r] by auto
  then show ?case by simp
qed simp

lemma compare_set: "is_set f \<Longrightarrow> \<exists>b. compare f n as = Some b"
  by (cases f) (auto simp: compare_def)

lemma matches_set:
  assumes "typed r" and "is_set (rs_location r)"
  shows "\<exists>b. matches r sn dn = Some b"
proof -
  have c: "\<exists>b. compare (rs_ID r) n as = Some b" "\<exists>b. compare (rs_type r) n as = Some b" "\<exists>b. compare (rs_device_ID r) n as = Some b"
    "\<exists>b. compare (rs_device_type r) n as = Some b" "\<exists>b. compare (rs_location r) n as = Some b" for n as
    using assms by (simp_all add: typed_def compare_set)
  have i: "\<exists>b. if_found x y = Some b" if "\<exists>b. x = Some b" "\<exists>b. y = Some b" for x y
    using that by (auto simp: if_found_def)
  have w: "\<exists>b. device_wanted r = Some b"
    using assms given_set by (auto simp: typed_def device_wanted_def split: bind_splits)
  have d: "\<exists>b. do { w \<leftarrow> device_wanted r; (if \<not> w then Some (Some True) else (case dn of None \<Rightarrow> Some None
      | Some d \<Rightarrow> if_found (compare (rs_device_ID r) ''id'' d) (if_found (compare (rs_device_type r) ''type'' d)
          (compare (rs_location r) ''location'' d)))) } = Some b"
    using w c i by (auto split: option.split)
  show ?thesis unfolding matches_def by (intro i c d)
qed

lemma get_matching_set:
  assumes "list_all typed rs" and "located rs"
  shows "\<exists>m. get_matching_request_service d rs = Some m"
proof (cases d)
  case (Some node)
  then show ?thesis using assms unfolding located_def
  proof (induction rs)
    case (Cons r rs)
    obtain b where "matches r (fst node) (snd node) = Some b" using Cons.prems matches_set by fastforce
    then show ?case using Cons by (cases b) auto
  qed simp
qed simp

lemma destroy_list_typed: "list_all typed l \<Longrightarrow> \<exists>freed. destroy_request_service_list l = Some (if l = [] then -1 else 0, freed)"
  using release_all_typed [of l] by (auto simp: destroy_request_service_list_def)



text \<open>Every action of a file is copied to a block that is one byte too small.\<close>

lemma action_overflows:
  assumes "map_of as ''Type'' = Some t" and "map_of as ''RSID'' = Some r"
  shows "parse_actions (as # ass) acc = None"
  using assms by (simp add: copied_def)

text \<open>A service without a location is compared through a pointer that was never set.\<close>

lemma no_location_faults:
  assumes "parse_request_service \<lparr>rs_attrs = [(''RSID'', i)], ovc_elements = []\<rparr> = Some (Some r)"
  shows "get_matching_request_service (Some (sn, dn)) [r] = None"
  using assms
  by (auto simp: parse_request_service_def Let_def set_attr_def init_request_service_struct_def malloc_request_service_def
      matches_def compare_def if_found_def device_wanted_def)

text \<open>The client that finds nothing: its service is released at the end, but for the location.\<close>

lemma client_run:
  assumes "l \<noteq> []"
  shows "do { (rc, head) \<leftarrow> HP_client_init (Some t) (Some l); HP_client_deinit head } = Some (0, [t, ''1''])"
  using assms
  by (auto simp: HP_client_init_def HP_client_deinit_def creaters_def Let_def init_request_service_struct_def
      destroy_request_service_list_def destroy_request_service_struct_def release_def)

text \<open>No name of a listed service is ever set, so that the removal of any service crashes.\<close>

lemma removal_faults:
  assumes "creaters t l [] = Some (rc, head)"
  shows "service_removed_callback name k head = None"
  using assms
  by (auto simp: creaters_def Let_def init_request_service_struct_def malloc_request_service_def split: option.splits if_splits)

end
