(* ===== verification/PutClient.thy ===== *)
theory PutClient
  imports TcpClient HttpClient
begin

text \<open>
  The client that sets a value (\<open>hpclientPUT/mainPUT.c\<close>): it splits the URL of a service, writes a PUT request
  by hand into a buffer, sends it with \<open>IP_send_String\<close>, which puts the answer into the same buffer, and looks for
  the XML text in it.

  The XML of a value and the value of an XML text (Mini-XML), the connection and the chunks of the answer are
  inputs; \<open>None\<close> is a write outside a buffer.
\<close>

section \<open>The URL\<close>

text \<open>A conversion \<open>%w[^stop]\<close> of \<open>sscanf\<close>: the text that it takes, and the rest.\<close>

definition scanset :: "nat \<Rightarrow> byte \<Rightarrow> byte list \<Rightarrow> byte list \<times> byte list" where
  "scanset w stop s = (let t = takeWhile (\<lambda>c. c \<noteq> stop) (take w s) in (t, drop (length t) s))"

text \<open>
  The three conversions, up to the first that fails: address, port and page. A text that is not converted
  leaves its buffer as it is.
\<close>

definition spliturl :: "byte list \<Rightarrow> byte list \<Rightarrow> byte list \<Rightarrow> byte list \<Rightarrow> (byte list \<times> byte list \<times> byte list) option" where
  "spliturl t ip prt page =
     (let (a, r) = scanset 99 0x3A (drop 7 t) in
      if take 7 t \<noteq> bytes ''http://'' \<or> a = [] then Some (ip, prt, page)
      else do {
        ip1 \<leftarrow> strcpy ip a;
        (let (p, r1) = scanset 99 0x2F (tl r) in
         if r = [] \<or> hd r \<noteq> 0x3A \<or> p = [] then Some (ip1, prt, page)
         else do {
           port1 \<leftarrow> strcpy prt p;
           (let (g, r2) = scanset 99 0x0A r1 in
            if g = [] then Some (ip1, port1, page) else do { page1 \<leftarrow> strcpy page g; Some (ip1, port1, page1) })
         })
      })"

section \<open>The request\<close>

fun strcats :: "byte list \<Rightarrow> byte list list \<Rightarrow> byte list option" where
  "strcats b [] = Some b"
| "strcats b (s # ss) = do { b1 \<leftarrow> strcat b s; strcats b1 ss }"

definition request_head :: "byte list" where
  "request_head = bytes '' HTTP/1.1 '' @ [0x0A] @ bytes ''Accept: text/xml '' @ [0x0A] @ bytes ''Content-Type: text/xml  '' @ [0x0A] @
     bytes ''Content-Length: ''"

definition request_parts :: "byte list \<Rightarrow> byte list \<Rightarrow> byte list list" where
  "request_parts httprequesturl httpvalue =
     [bytes ''PUT '', httprequesturl, request_head, bytes (decimal (length httpvalue)), [0x0D, 0x0A, 0x0D], httpvalue, [0x0A]]"

text \<open>The search for \<open><?\<close> at the position \<open>p\<close> and the next \<open>n\<close> ones: where it stops.\<close>

fun seek_prolog :: "byte list \<Rightarrow> nat \<Rightarrow> nat \<Rightarrow> nat option" where
  "seek_prolog b p n = do {
     c \<leftarrow> rd b p;
     found \<leftarrow> (if c = 0x3C then map_option (\<lambda>d. d = 0x3F) (rd b (p + 1)) else Some False);
     (case n of 0 \<Rightarrow> Some p | Suc m \<Rightarrow> if found then Some p else seek_prolog b (p + 1) m)
   }"

declare seek_prolog.simps [simp del]

text \<open>
  \<open>server\<close> is the result of \<open>net_connect\<close>. The bytes sent, the result and the buffer, whose text is moved to
  its start.
\<close>

definition httpput :: "int \<Rightarrow> byte list \<Rightarrow> byte list \<Rightarrow> recv list \<Rightarrow> byte list \<Rightarrow> (byte list \<times> int \<times> byte list) option" where
  "httpput server httprequesturl httpvalue xs buffer = do {
     b \<leftarrow> strcats buffer (request_parts httprequesturl httpvalue);
     request \<leftarrow> cstr b 0;
     (sent, len, b1) \<leftarrow> IP_send_String server b (of_nat (length request)) xs b;
     p \<leftarrow> seek_prolog b1 0 199;
     answer \<leftarrow> cstr b1 p;
     b2 \<leftarrow> strcpy b1 answer;
     Some (sent, len, b2)
   }"

section \<open>The program\<close>

text \<open>
  \<open>url_file\<close> is the file \<open>mainSD-OUTPUT.url\<close>, if it can be opened; a URL that starts with \<open>FILE\<close> stands for its
  contents. All buffers are zero at the start.
\<close>

record put_env =
  url_file :: "byte list option"
  xml_of_value :: "byte list \<Rightarrow> byte list"
  value_of_xml :: "byte list \<Rightarrow> byte list option"
  connection :: "byte list \<Rightarrow> byte list \<Rightarrow> int"

definition load_file_into_buffer :: "byte list option \<Rightarrow> byte list \<Rightarrow> (int \<times> byte list) option" where
  "load_file_into_buffer f buffer = (case f of
     None \<Rightarrow> Some (-1, buffer)
   | Some t \<Rightarrow> do { b \<leftarrow> strcpy buffer t; Some (int (length t), b) })"

definition zeros :: "nat \<Rightarrow> byte list" where
  "zeros n = replicate n 0"

text \<open>The request that is sent and the value that is printed.\<close>

definition put_main :: "put_env \<Rightarrow> byte list \<Rightarrow> byte list \<Rightarrow> recv list \<Rightarrow> (byte list \<times> byte list option) option" where
  "put_main e url_arg value_arg xs = do {
     url \<leftarrow> (if take 4 url_arg = bytes ''FILE'' then map_option snd (load_file_into_buffer (url_file e) (zeros 255))
       else strcpy (zeros 255) url_arg);
     url_text \<leftarrow> cstr url 0;
     d \<leftarrow> strcpy (zeros 1000) value_arg;
     (ip, prt, page) \<leftarrow> spliturl url_text (zeros 20) (zeros 20) (zeros 250);
     ip_text \<leftarrow> cstr ip 0;
     port_text \<leftarrow> cstr prt 0;
     page_text \<leftarrow> cstr page 0;
     (sent, len, moredata) \<leftarrow> httpput (connection e ip_text port_text) page_text (xml_of_value e value_arg) xs (zeros 1000);
     answer \<leftarrow> cstr moredata 0;
     Some (sent, value_of_xml e answer)
   }"

section \<open>Splitting\<close>

lemma scanset_stop:
  assumes "stop \<notin> set a" and "length a < w"
  shows "scanset w stop (a @ stop # r) = (a, stop # r)"
proof -
  have "take w (a @ stop # r) = a @ stop # take (w - length a - 1) r" using assms(2) by (auto simp: take_Cons' )
  moreover have "takeWhile (\<lambda>c. c \<noteq> stop) (a @ stop # x) = a" for x using assms(1) by (induction a) auto
  ultimately show ?thesis by (simp add: scanset_def)
qed

lemma takeWhile_absent: "stop \<notin> set a \<Longrightarrow> takeWhile (\<lambda>c. c \<noteq> stop) a = a"
  by (induction a) auto

lemma scanset_all: "stop \<notin> set a \<Longrightarrow> length a \<le> w \<Longrightarrow> scanset w stop a = (a, [])"
  by (simp add: scanset_def takeWhile_absent)

lemma spliturl_eq:
  assumes "a \<noteq> []" and "0x3A \<notin> set a" and "length a < 99" and "p \<noteq> []" and "0x2F \<notin> set p" and "length p < 99"
    and "0x0A \<notin> set g" and "length g < 99"
  shows "spliturl (bytes ''http://'' @ a @ 0x3A # p @ 0x2F # g) ip prt page =
    do { ip1 \<leftarrow> strcpy ip a; port1 \<leftarrow> strcpy prt p; page1 \<leftarrow> strcpy page (0x2F # g); Some (ip1, port1, page1) }"
proof -
  have s: "scanset 99 0x3A (a @ 0x3A # p @ 0x2F # g) = (a, 0x3A # p @ 0x2F # g)"
    "scanset 99 0x2F (p @ 0x2F # g) = (p, 0x2F # g)" "scanset 99 0x0A (0x2F # g) = (0x2F # g, [])"
    using assms by (simp_all add: scanset_stop scanset_all)
  have t: "take 7 (bytes ''http://'' @ x) = bytes ''http://''" "drop 7 (bytes ''http://'' @ x) = x" for x by (simp_all add: bytes_def)
  show ?thesis using assms(1,4) by (simp add: spliturl_def t s Let_def)
qed

lemma spliturl_parts:
  assumes "a \<noteq> []" and "set a \<inter> {0, 0x3A} = {}" and "length a < 99" and "p \<noteq> []" and "set p \<inter> {0, 0x2F} = {}" and "length p < 99"
    and "set g \<inter> {0, 0x0A} = {}" and "length g < 99"
  shows "if length a < 20 \<and> length p < 20
    then \<exists>ip prt page. spliturl (bytes ''http://'' @ a @ 0x3A # p @ 0x2F # g) (zeros 20) (zeros 20) (zeros 250) = Some (ip, prt, page) \<and>
      cstr ip 0 = Some a \<and> cstr prt 0 = Some p \<and> cstr page 0 = Some (0x2F # g)
    else spliturl (bytes ''http://'' @ a @ 0x3A # p @ 0x2F # g) (zeros 20) (zeros 20) (zeros 250) = None"
proof -
  have eq: "spliturl (bytes ''http://'' @ a @ 0x3A # p @ 0x2F # g) (zeros 20) (zeros 20) (zeros 250) =
    do { ip1 \<leftarrow> strcpy (zeros 20) a; port1 \<leftarrow> strcpy (zeros 20) p; page1 \<leftarrow> strcpy (zeros 250) (0x2F # g); Some (ip1, port1, page1) }"
    using assms by (intro spliturl_eq) auto
  have room: "strcpy (zeros n) x = Some (x @ 0 # drop (length x + 1) (zeros n))" if "length x < n" for n x
    using that by (simp add: strcpy_def wrn_def zeros_def)
  have full: "strcpy (zeros n) x = None" if "n \<le> length x" for n x using that by (simp add: strcpy_def wrn_def zeros_def)
  have text_of: "cstr (x @ 0 # r) 0 = Some x" if "0 \<notin> set x" for x r using cstr_append [of x "[]"] that by simp
  show ?thesis
  proof (cases "length a < 20 \<and> length p < 20")
    case True
    then show ?thesis using assms(2,5,7,8) text_of [of "0x2F # g"] by (simp add: eq room text_of)
  next
    case False
    then show ?thesis
      by (cases "length a < 20") (simp_all add: eq room full not_less)
  qed
qed

text \<open>
  The parts of the URL of a service come back from the URL: the address, the port and the page, each as
  the text in its buffer. An address or a port of 20 bytes or more is written outside its buffer.
\<close>

theorem spliturl_roundtrip:
  assumes "a \<noteq> []" and "set a \<inter> {0, 0x3A} = {}" and "length a < 99" and "p \<noteq> []" and "set p \<inter> {0, 0x2F} = {}" and "length p < 99"
    and "set g \<inter> {0, 0x0A} = {}" and "length g < 99"
  shows "if length a < 20 \<and> length p < 20
    then \<exists>ip prt page. spliturl (bytes ''http://'' @ a @ 0x3A # p @ 0x2F # g) (zeros 20) (zeros 20) (zeros 250) = Some (ip, prt, page) \<and>
      cstr ip 0 = Some a \<and> cstr prt 0 = Some p \<and> cstr page 0 = Some (0x2F # g)
    else spliturl (bytes ''http://'' @ a @ 0x3A # p @ 0x2F # g) (zeros 20) (zeros 20) (zeros 250) = None"
  using spliturl_parts [OF assms] .

theorem spliturl_roundtrip_witness:
  "\<exists>ip prt page. spliturl (bytes ''http://192.168.1.243:8889/Bridge/outside/light_source/1'') (zeros 20) (zeros 20) (zeros 250) =
      Some (ip, prt, page) \<and> cstr ip 0 = Some (bytes ''192.168.1.243'') \<and> cstr prt 0 = Some (bytes ''8889'') \<and>
    cstr page 0 = Some (bytes ''/Bridge/outside/light_source/1'')"
  using spliturl_roundtrip [of "bytes ''192.168.1.243''" "bytes ''8889''" "bytes ''Bridge/outside/light_source/1''"]
  by (simp add: bytes_def)

section \<open>The request and its answer\<close>

definition request :: "byte list \<Rightarrow> byte list \<Rightarrow> byte list" where
  "request u v = concat (request_parts u v)"

lemma strcat_eq:
  assumes "0 \<notin> set t"
  shows "strcat (t @ 0 # r) s = (if length s \<le> length r then Some ((t @ s) @ 0 # drop (length s) r) else None)"
proof -
  have "cstr (t @ 0 # r) 0 = Some t" using cstr_append [OF assms, of "[]"] by simp
  then show ?thesis by (auto simp: strcat_def wrn_def)
qed

lemma strcats_eq:
  assumes "0 \<notin> set t" and "0 \<notin> set (concat ss)"
  shows "strcats (t @ 0 # r) ss =
    (if length (concat ss) \<le> length r then Some ((t @ concat ss) @ 0 # drop (length (concat ss)) r) else None)"
  using assms
proof (induction ss arbitrary: t r)
  case (Cons s ss)
  then have "strcats ((t @ s) @ 0 # drop (length s) r) ss =
    (if length (concat ss) \<le> length (drop (length s) r)
     then Some (((t @ s) @ concat ss) @ 0 # drop (length (concat ss)) (drop (length s) r)) else None)"
    by (intro Cons.IH) auto
  then show ?case using Cons.prems by (auto simp: strcat_eq ac_simps)
qed simp

text \<open>The buffer with the request, and what is in front of the value in it.\<close>

definition request_front :: "byte list \<Rightarrow> byte list \<Rightarrow> byte list" where
  "request_front u v = bytes ''PUT '' @ u @ request_head @ bytes (decimal (length v)) @ [0x0D, 0x0A, 0x0D]"

lemma request_split: "request u v = request_front u v @ v @ [0x0A]"
  by (simp add: request_def request_front_def request_parts_def)

lemma request_front_clean: "0 \<notin> set u \<Longrightarrow> 0 \<notin> set (request_front u v)"
  using decimal_bytes [of "length v"] by (auto simp: request_front_def request_head_def bytes_def)

lemma request_clean: "0 \<notin> set u \<Longrightarrow> 0 \<notin> set v \<Longrightarrow> 0 \<notin> set (request u v)"
  by (simp add: request_split request_front_clean)

lemma request_in_buffer:
  assumes "0 \<notin> set u" and "0 \<notin> set v" and "length (request u v) < 1000"
  shows "strcats (zeros 1000) (request_parts u v) = Some (request u v @ zeros (1000 - length (request u v)))"
proof -
  have z: "zeros 1000 = [] @ 0 # zeros 999" by (simp add: zeros_def flip: replicate_Suc)
  have "0 # drop (length (request u v)) (zeros 999) = zeros (1000 - length (request u v))"
    using assms(3) by (simp add: zeros_def Suc_diff_Suc flip: replicate_Suc)
  then show ?thesis
    using strcats_eq [of "[]" "request_parts u v" "zeros 999"] request_clean [OF assms(1,2)] assms(3)
    unfolding z by (simp add: request_def) (simp add: zeros_def)
qed

lemma seek_found:
  assumes "0x3C \<notin> set pre" and "length pre \<le> n"
  shows "seek_prolog (q @ pre @ 0x3C # 0x3F # r) (length q) n = Some (length q + length pre)"
  using assms
proof (induction pre arbitrary: q n)
  case Nil
  then show ?case by (subst seek_prolog.simps) (simp add: rd_def nth_append split: nat.split)
next
  case (Cons c pre)
  obtain m where n: "n = Suc m" using Cons.prems(2) by (cases n) auto
  have "seek_prolog ((q @ [c]) @ pre @ 0x3C # 0x3F # r) (length (q @ [c])) m = Some (length (q @ [c]) + length pre)"
    using Cons.prems n by (intro Cons.IH) auto
  then show ?case using Cons.prems(1) n by (subst seek_prolog.simps) (simp add: rd_def nth_append)
qed

lemma cstr_at: "0 \<notin> set s \<Longrightarrow> cstr (p @ s @ 0 # r) (length p) = Some s"
  by simp

lemma strcpy_front:
  assumes "0 \<notin> set t" and "length t < length b"
  shows "\<exists>b'. strcpy b t = Some b' \<and> cstr b' 0 = Some t"
  using assms cstr_append [OF assms(1), of "[]"] by (simp add: strcpy_def wrn_def)

text \<open>What the text of an answer has behind it: a byte of the request, when the answer is shorter.\<close>

definition leftover :: "byte list \<Rightarrow> byte list \<Rightarrow> byte list" where
  "leftover req rep = (if length rep < length req then [req ! length rep] else [])"

lemma httpput_eq:
  assumes "0 < server" and "0 \<notin> set u" and "0 \<notin> set v" and "length (request u v) < 256" and "[] \<notin> set cs"
    and rep: "concat cs = pre @ 0x3C # 0x3F # post" "0x3C \<notin> set pre" "length pre < 200" "0 \<notin> set post" "length (concat cs) \<le> 998"
  shows "\<exists>b. httpput server u v (map Chunk cs) (zeros 1000) = Some (request u v @ [0x0D, 0x0A], int (length (concat cs)) + 1, b) \<and>
    cstr b 0 = Some (0x3C # 0x3F # post @ leftover (request u v) (concat cs))"
proof -
  let ?R = "request u v" and ?n = "length (concat cs)" and ?L = "leftover (request u v) (concat cs)"
  let ?B = "?R @ zeros (1000 - length ?R)"
  have clean: "0 \<notin> set ?R" using assms(2,3) by (rule request_clean)
  have z: "zeros (1000 - length ?R) = 0 # zeros (999 - length ?R)" using assms(4) by (simp add: zeros_def flip: replicate_Suc)
  have len: "cstr ?B 0 = Some ?R" using cstr_append [OF clean, of "[]"] by (simp add: z)
  have lB: "length ?B = 1000" using assms(4) by (simp add: zeros_def)
  define b1 where "b1 = concat cs @ ?B ! ?n # 0 # drop (?n + 2) ?B"
  have send: "IP_send_String server ?B (of_nat (length ?R)) (map Chunk cs) ?B = Some (?R @ [0x0D, 0x0A], int ?n + 1, b1)"
    using IP_send_String_len [of server "of_nat (length ?R)" ?B cs ?B] assms(1,4,5) rep(5) lB by (simp add: DATASIZE_CLIENT_def b1_def)
  have seek: "seek_prolog b1 0 199 = Some (length pre)"
    using seek_found [of pre 199 "[]"] rep(1-3) by (simp add: b1_def)
  have "0 \<notin> set ?L" using clean by (auto simp: leftover_def in_set_conv_nth)
  have "\<exists>r. ?B ! ?n # 0 # drop (?n + 2) ?B = ?L @ 0 # r"
    using rep(5) assms(4) by (auto simp: leftover_def nth_append zeros_def)
  then obtain r where r: "b1 = pre @ (0x3C # 0x3F # post @ ?L) @ 0 # r" using rep(1) by (auto simp: b1_def)
  have nul: "0 \<notin> set (0x3C # 0x3F # post @ ?L)" using rep(4) \<open>0 \<notin> set ?L\<close> by simp
  have found: "cstr b1 (length pre) = Some (0x3C # 0x3F # post @ ?L)" unfolding r by (rule cstr_at [OF nul])
  have "length (0x3C # 0x3F # post @ ?L) < length b1" using arg_cong [OF r, of length] by simp
  then obtain b where "strcpy b1 (0x3C # 0x3F # post @ ?L) = Some b" "cstr b 0 = Some (0x3C # 0x3F # post @ ?L)"
    using strcpy_front [OF nul] by blast
  moreover have "strcats (zeros 1000) (request_parts u v) = Some ?B" using assms(2-4) by (intro request_in_buffer) auto
  ultimately show ?thesis by (simp add: httpput_def len send seek found)
qed

section \<open>The program as a whole\<close>

text \<open>The URL of a service with parts that fit into the buffers of \<open>main\<close>.\<close>

definition url_of :: "byte list \<Rightarrow> byte list \<Rightarrow> byte list \<Rightarrow> byte list" where
  "url_of a p g = bytes ''http://'' @ a @ 0x3A # p @ 0x2F # g"

definition url_parts_ok :: "byte list \<Rightarrow> byte list \<Rightarrow> byte list \<Rightarrow> bool" where
  "url_parts_ok a p g \<longleftrightarrow> a \<noteq> [] \<and> set a \<inter> {0, 0x3A} = {} \<and> length a < 20 \<and> p \<noteq> [] \<and> set p \<inter> {0, 0x2F} = {} \<and> length p < 20 \<and>
    set g \<inter> {0, 0x0A} = {} \<and> length g < 99"

lemma put_main_eq:
  assumes "url_parts_ok a p g" and "url_arg = url_of a p g \<or> take 4 url_arg = bytes ''FILE'' \<and> url_file e = Some (url_of a p g)"
    and "length val < 1000"
  shows "put_main e url_arg val xs = do {
    (sent, len, moredata) \<leftarrow> httpput (connection e a p) (0x2F # g) (xml_of_value e val) xs (zeros 1000);
    answer \<leftarrow> cstr moredata 0;
    Some (sent, value_of_xml e answer)
  }"
proof -
  have clean: "0 \<notin> set (url_of a p g)" using assms(1) by (auto simp: url_of_def url_parts_ok_def bytes_def)
  have "length (url_of a p g) < length (zeros 255)" using assms(1) by (simp add: url_of_def url_parts_ok_def zeros_def)
  then obtain b where b: "strcpy (zeros 255) (url_of a p g) = Some b" "cstr b 0 = Some (url_of a p g)"
    using strcpy_front [OF clean] by blast
  have "take 4 (url_of a p g) \<noteq> bytes ''FILE''" by (simp add: url_of_def bytes_def)
  then have url: "(if take 4 url_arg = bytes ''FILE'' then map_option snd (load_file_into_buffer (url_file e) (zeros 255))
      else strcpy (zeros 255) url_arg) = Some b"
    using assms(2) b(1) by (auto simp: load_file_into_buffer_def)
  obtain ip prt page where split: "spliturl (url_of a p g) (zeros 20) (zeros 20) (zeros 250) = Some (ip, prt, page)"
    "cstr ip 0 = Some a" "cstr prt 0 = Some p" "cstr page 0 = Some (0x2F # g)"
    using spliturl_parts [of a p g] assms(1) by (auto simp: url_of_def url_parts_ok_def split: if_splits)
  have "\<exists>d. strcpy (zeros 1000) val = Some d" using assms(3) by (simp add: strcpy_def wrn_def zeros_def)
  then show ?thesis by (auto simp: put_main_def url b(2) split)
qed

lemma put_client_eq:
  assumes "url_parts_ok a p g" and "url_arg = url_of a p g \<or> take 4 url_arg = bytes ''FILE'' \<and> url_file e = Some (url_of a p g)"
    and "length val < 1000" and "0 < connection e a p" and "xml_of_value e val = xml" and "0 \<notin> set xml"
    and "req = request (0x2F # g) xml" and "length req < 256" and "[] \<notin> set cs"
    and "concat cs = pre @ 0x3C # 0x3F # post" "0x3C \<notin> set pre" "length pre < 200" "0 \<notin> set post" "length (concat cs) \<le> 998"
  shows "put_main e url_arg val (map Chunk cs) =
    Some (req @ [0x0D, 0x0A], value_of_xml e (0x3C # 0x3F # post @ leftover req (concat cs)))"
proof -
  have "0 \<notin> set (0x2F # g)" using assms(1) by (auto simp: url_parts_ok_def)
  from httpput_eq [OF assms(4) this assms(6) _ assms(9-14)] assms(5,7,8)
  show ?thesis by (auto simp: put_main_eq [OF assms(1-3)])
qed

text \<open>
  C25. The client that sets a value: for the URL of a service, given or read from the file, it sends one PUT
  request for the page of the URL to its address and port, with the XML of the value as its body, and it prints the
  value of the XML text in the answer, in whatever chunks it comes. Behind this text there is one byte of
  the request when the answer is shorter than the request.
\<close>

theorem put_client:
  assumes "url_parts_ok a p g" and "url_arg = url_of a p g \<or> take 4 url_arg = bytes ''FILE'' \<and> url_file e = Some (url_of a p g)"
    and "length val < 1000" and "0 < connection e a p" and "xml_of_value e val = xml" and "0 \<notin> set xml"
    and "req = request (0x2F # g) xml" and "length req < 256" and "[] \<notin> set cs"
    and "concat cs = pre @ 0x3C # 0x3F # post" "0x3C \<notin> set pre" "length pre < 200" "0 \<notin> set post" "length (concat cs) \<le> 998"
  shows "put_main e url_arg val (map Chunk cs) =
    Some (req @ [0x0D, 0x0A], value_of_xml e (0x3C # 0x3F # post @ leftover req (concat cs)))"
  using put_client_eq [OF assms] .

definition demo_put :: "int \<Rightarrow> put_env" where
  "demo_put c = \<lparr>url_file = None, xml_of_value = (\<lambda>v. bytes ''<?xml?><value>'' @ v @ bytes ''</value>''),
     value_of_xml = (\<lambda>x. Some (takeWhile (\<lambda>c. c \<noteq> 0x3C) (drop 14 x))), connection = (\<lambda>a p. c)\<rparr>"

theorem put_client_witness:
  "\<exists>req. put_main (demo_put 3) (bytes ''http://10.0.0.1:8889/Bridge/outside/switch/3'') (bytes ''01'')
      [Chunk (bytes ''HTTP/1.1 200 OK  ''), Chunk (bytes ''<?xml?><value>0'' @ bytes ''2</value>'')] = Some (req, Some (bytes ''02''))"
proof -
  have parts: "url_parts_ok (bytes ''10.0.0.1'') (bytes ''8889'') (bytes ''Bridge/outside/switch/3'')"
    by (simp add: url_parts_ok_def bytes_def)
  have url: "bytes ''http://10.0.0.1:8889/Bridge/outside/switch/3'' =
      url_of (bytes ''10.0.0.1'') (bytes ''8889'') (bytes ''Bridge/outside/switch/3'')"
    by (simp add: url_of_def bytes_def)
  have size: "length (request (0x2F # bytes ''Bridge/outside/switch/3'') (bytes ''<?xml?><value>01</value>'')) < 256"
    by (simp add: request_split request_front_def request_head_def decimal.simps)
  show ?thesis
    using put_client [where pre = "bytes ''HTTP/1.1 200 OK  ''" and post = "bytes ''xml?><value>02</value>''" and
        cs = "[bytes ''HTTP/1.1 200 OK  '', bytes ''<?xml?><value>02</value>'']" and xml = "bytes ''<?xml?><value>01</value>''" and
        e = "demo_put 3" and val = "bytes ''01''", OF parts disjI1 [OF url], OF _ _ _ _ refl size]
    by (auto simp: demo_put_def bytes_def)
qed

text \<open>
  When the connection fails, the client prints the value it was asked to set, as if it had been set: the
  buffer that it searches still has its own request.
\<close>

theorem failed_put_prints_own_value:
  assumes "url_parts_ok a p g" and "url_arg = url_of a p g \<or> take 4 url_arg = bytes ''FILE'' \<and> url_file e = Some (url_of a p g)"
    and "length val < 1000" and "connection e a p \<le> 0" and "xml_of_value e val = 0x3C # 0x3F # rest" and "0 \<notin> set rest"
    and "0x3C \<notin> set g" and "length (request (0x2F # g) (0x3C # 0x3F # rest)) < 1000"
  shows "put_main e url_arg val xs = Some ([], value_of_xml e (0x3C # 0x3F # rest @ [0x0A]))"
proof -
  let ?u = "0x2F # g" and ?v = "0x3C # 0x3F # rest"
  let ?F = "request_front ?u ?v"
  define B where "B = request ?u ?v @ zeros (1000 - length (request ?u ?v))"
  define b1 where "b1 = bytes ''CONN_FAILED'' @ [0] @ drop 12 B"
  have u: "0 \<notin> set ?u" "0 \<notin> set ?v" using assms(1,6) by (auto simp: url_parts_ok_def)
  have clean: "0 \<notin> set (request ?u ?v)" using u by (rule request_clean)
  have z: "zeros (1000 - length (request ?u ?v)) = 0 # zeros (999 - length (request ?u ?v))"
    using assms(8) by (simp add: zeros_def Suc_diff_Suc flip: replicate_Suc)
  have "length ?v < 10 ^ 3" using assms(8) by (simp add: request_split)
  then have "length (decimal (length ?v)) \<le> 3" using decimal_digits [of "length ?v" 3] by simp
  then have F: "12 \<le> length ?F" "length ?F < 200" using assms(1) by (auto simp: request_front_def request_head_def url_parts_ok_def)
  have lt: "0x3C \<notin> set ?F" using assms(7) decimal_bytes [of "length ?v"] by (auto simp: request_front_def request_head_def bytes_def)
  have "B = ?F @ 0x3C # 0x3F # (rest @ [0x0A]) @ 0 # zeros (999 - length (request ?u ?v))"
    by (simp add: B_def z) (simp add: request_split)
  then have b1: "b1 = (bytes ''CONN_FAILED'' @ [0] @ drop 12 ?F) @ 0x3C # 0x3F # (rest @ [0x0A]) @ 0 # zeros (999 - length (request ?u ?v))"
    using F(1) by (simp add: b1_def)
  have front: "0x3C \<notin> set (bytes ''CONN_FAILED'' @ [0] @ drop 12 ?F)" "length (bytes ''CONN_FAILED'' @ [0] @ drop 12 ?F) = length ?F"
    using lt F(1) by (auto simp: bytes_def dest: in_set_dropD)
  have seek: "seek_prolog b1 0 199 = Some (length ?F)"
    using seek_found [OF front(1), of 199 "[]"] front(2) F(2) unfolding b1 by simp
  have nul: "0 \<notin> set (0x3C # 0x3F # rest @ [0x0A])" using assms(6) by simp
  have found: "cstr b1 (length ?F) = Some (0x3C # 0x3F # rest @ [0x0A])"
    using cstr_at [OF nul, of "bytes ''CONN_FAILED'' @ [0] @ drop 12 ?F"] front(2) unfolding b1 by simp
  have "length (0x3C # 0x3F # rest @ [0x0A]) < length b1" unfolding b1 by simp
  then obtain b where b: "strcpy b1 (0x3C # 0x3F # rest @ [0x0A]) = Some b" "cstr b 0 = Some (0x3C # 0x3F # rest @ [0x0A])"
    using strcpy_front [OF nul] by blast
  have "cstr B 0 = Some (request ?u ?v)" using cstr_append [OF clean, of "[]"] by (simp add: B_def z)
  moreover have "wrn B 0 (bytes ''CONN_FAILED'' @ [0]) = Some b1"
  proof -
    have l: "length (bytes ''CONN_FAILED'' @ [0]) = 12" "length B = 1000" using assms(8) by (simp_all add: B_def zeros_def)
    show ?thesis unfolding wrn_def b1_def l by simp
  qed
  moreover have "strcats (zeros 1000) (request_parts ?u ?v) = Some B" unfolding B_def using u assms(8) by (rule request_in_buffer)
  ultimately have "httpput (connection e a p) ?u ?v xs (zeros 1000) = Some ([], -1, b)"
    using assms(4) by (simp add: httpput_def IP_send_String_def seek found b(1))
  then show ?thesis by (simp add: put_main_eq [OF assms(1-3)] assms(5) b(2))
qed

theorem failed_put_prints_own_value_witness:
  "put_main (demo_put 0) (bytes ''http://10.0.0.1:8889/Bridge/outside/switch/3'') (bytes ''01'') [] = Some ([], Some (bytes ''01''))"
proof -
  have parts: "url_parts_ok (bytes ''10.0.0.1'') (bytes ''8889'') (bytes ''Bridge/outside/switch/3'')"
    by (simp add: url_parts_ok_def bytes_def)
  have url: "bytes ''http://10.0.0.1:8889/Bridge/outside/switch/3'' =
      url_of (bytes ''10.0.0.1'') (bytes ''8889'') (bytes ''Bridge/outside/switch/3'')"
    by (simp add: url_of_def bytes_def)
  have rest: "xml_of_value (demo_put 0) (bytes ''01'') = 0x3C # 0x3F # bytes ''xml?><value>01</value>''"
    "0 \<notin> set (bytes ''xml?><value>01</value>'')" "0x3C \<notin> set (bytes ''Bridge/outside/switch/3'')"
    by (simp_all add: demo_put_def bytes_def)
  have size: "length (request (0x2F # bytes ''Bridge/outside/switch/3'') (0x3C # 0x3F # bytes ''xml?><value>01</value>'')) < 1000"
    by (simp add: request_split request_front_def request_head_def decimal.simps)
  show ?thesis
    using failed_put_prints_own_value [OF parts disjI1 [OF url] _ _ rest size, of "[]"]
    by (simp add: demo_put_def) (simp add: bytes_def)
qed

end
