(* ===== verification/Discovery.thy ===== *)
theory Discovery
  imports Gateway Avahi HpClient PutClient
begin

text \<open>
  From the daemon to the clients: a service that the daemon serves and announces is found by the client that looks
  for its type and location (\<open>hpclientSD\<close>), and the URL that this client writes to its file is the one at which the
  other client (\<open>hpclientPUT\<close>) sets the value.
\<close>

section \<open>The description of a service\<close>

lemma service_type: "map_of (service_attributes sv ty) ''type'' = Some ty"
  by (simp add: service_attributes_def map_of_attrs)

lemma device_location: "map_of (device_attributes dv) ''location'' = location dv"
  by (simp add: device_attributes_def map_of_attrs)

lemma url_of_key_plain: "url_of_key k \<notin> {''/log'', ''/events'', ''/devices''}"
proof -
  have four: "4 \<le> length (filter (\<lambda>c. c = CHR ''/'') (url_of_key k))" by (cases k) simp
  have one: "length (filter (\<lambda>c. c = CHR ''/'') u) = 1" if "u \<in> {''/log'', ''/events'', ''/devices''}" for u :: string
    using that by auto
  show ?thesis using four one [of "url_of_key k"] by auto
qed

text \<open>The answer to the request for the description of a service that is registered.\<close>

lemma description_answered:
  assumes "server_ok st" and "global_ok (server.events st)" and "s \<in> set (service_head (mem st))"
    and "the_device (mem st) s = Some (sv, dv, ty)" and "parameter_elements (mem st) (parameter_list sv) = Some ps"
    and "http_method r = ''GET''" and "url r = value_url sv" and "arg_x r = Some ''1''" and "made e" and "tm_ok (now e)"
    and "print_service e (service_attributes sv ty, device_attributes dv, ps) = Some t"
  shows "\<exists>st'. answer_to_connection e r Aptr st = Some (queued e, Some (Response 200 t None), Null, st') \<and> mem st' = mem st"
proof -
  have wf: "http_wf (mem st) (service_head (mem st))" "xml_wf (xml st)" "xml_keys (xml st) = http_keys (mem st) (service_head (mem st))"
    using assms(1) by (simp_all add: server_ok_def)
  then have entries: "list_all (entry_ok (mem st)) (service_head (mem st))" "distinct (map (the_key (mem st)) (service_head (mem st)))"
    by (simp_all add: http_wf_def)
  have s: "entry_ok (mem st) s" using entries(1) assms(3) by (simp add: list_all_iff)
  obtain sv' d dv' ty' where sv': "services (mem st) s = Some sv'" "the_device (mem st) s = Some (sv', dv', ty')"
    "the_key (mem st) s = (dtype dv', dID dv', ty', sID sv')" "value_url sv' = url_of_key (the_key (mem st) s)"
    using entry_okD [OF s] by blast
  then have sv: "services (mem st) s = Some sv" "the_key (mem st) s = (dtype dv, dID dv, ty, sID sv)" "value_url sv = url_of_key (the_key (mem st) s)"
    using assms(4) by auto
  have "set (service_head (mem st)) \<subseteq> dom (services (mem st))" using entries(1) entry_url by (fastforce simp: list_all_iff)
  from matching_eq [OF this] have m: "matching_service (mem st) (service_head (mem st)) (url r) =
      Some (find (\<lambda>s. map_option value_url (services (mem st) s) = Some (url r)) (service_head (mem st)))" .
  have f: "find (\<lambda>s. map_option value_url (services (mem st) s) = Some (url r)) (service_head (mem st)) = Some s"
  proof (rule find_unique)
    show "s \<in> set (service_head (mem st))" by (rule assms(3))
    fix k assume k: "k \<in> set (service_head (mem st))"
    then have ok: "entry_ok (mem st) k" using entries(1) by (simp add: list_all_iff)
    then obtain svk where svk: "services (mem st) k = Some svk" "value_url svk = url_of_key (the_key (mem st) k)"
      using entry_url by blast
    have "the_key (mem st) k = the_key (mem st) s \<longleftrightarrow> k = s"
      using entries(2) k assms(3) by (metis distinct_map inj_onD)
    then show "map_option value_url (services (mem st) k) = Some (url r) \<longleftrightarrow> k = s"
      using svk sv(3) assms(7) entry_same_url [OF s ok] by auto
  qed
  have "(dtype dv, dID dv, ty, sID sv) \<in> xml_keys (xml st)"
    using wf(3) sv(2) assms(3) by (force simp: http_keys_def)
  then have x: "extract_service_xml (mem st) s (xml st) = Some (Some (service_attributes sv ty, device_attributes dv, ps))"
    using service_is_in_eq [OF wf(2), of dv ty "sID sv"] assms(4,5) by (simp add: extract_service_xml_def)
  obtain g q where g: "global_queue (server.events st) = Some g" "queues (server.events st) g = Some q"
    using assms(2) by (auto simp: global_ok_def)
  have "url r \<notin> {''/log'', ''/events'', ''/devices''}" using url_of_key_plain sv(3) assms(7) by metis
  then have "answer_to_connection e r Aptr st = answered e r (Some ''x=1'') Null st (send_xml e (Some t))"
    using assms(6,8,11) m f sv(1) x by (simp add: answer_to_connection_def answer_get_def get_service_value_def)
  then show ?thesis
    using answered_ok [OF assms(10) g, of r "Some ''x=1''" Null "send_xml e (Some t)"] assms(9) by (auto simp: send_xml_def)
qed

section \<open>Finding a service\<close>

lemma announced_uri: "uri_of (quote # txt_data sv @ [quote]) = Some (value_url sv)"
  using uri_of_quoted [of "quote # ''URI=''" "value_url sv"] by (simp add: txt_data_def)

text \<open>
  C3. A service that is registered in the daemon and announced by it is found by the client if and only if it has
  the type and its device the location that the client was called with: the daemon answers the request for
  its description, and the client, which gets it in whatever chunks, then writes the URL with the
  address and port of the announcement to its file.
\<close>

theorem service_is_discovered:
  assumes "server_ok st" and "global_ok (server.events st)" and "s \<in> set (service_head (mem st))"
    and "the_device (mem st) s = Some (sv, dv, ty)" and "parameter_elements (mem st) (parameter_list sv) = Some ps"
    and req: "http_method r = ''GET''" "url r = value_url sv" "arg_x r = Some ''1''" "made e" "tm_ok (now e)"
    and described: "print_service e (service_attributes sv ty, device_attributes dv, ps) = Some t" "length t \<le> 2048" "CHR 0x00 \<notin> set t"
      "parse t = Some (service_attributes sv ty, Some (device_attributes dv))"
    and announced: "static_create_services prt True 0 0 sv published = ((0, False), published1)"
      "txt = quote # pub_txt (last published1) @ [quote]"
    and transfer: "concat cs = t" "cbc_ok c" "csize c = 2048"
      "fetch = (\<lambda>u. if u = server_url a (pub_port (last published1)) @ value_url sv @ ''?x=1'' then fst (the (http_get_function cs 0 c)) else None)"
    and client: "creaters (Some wanted_type) (Some wanted_location) [] = Some (0, head)" "wanted_location \<noteq> []"
  shows "\<exists>st'. answer_to_connection e r Aptr st = Some (queued e, Some (Response 200 t None), Null, st') \<and>
    map_option (map_option snd) (resolve_callback (pub_name (last published1)) a (pub_port (last published1)) txt fetch parse head) =
      Some (if ty = wanted_type \<and> location dv = Some wanted_location then Some (server_url a prt @ value_url sv) else None)"
proof -
  have pub: "pub_txt (last published1) = txt_data sv" "pub_port (last published1) = prt"
    using announced(1) by (auto simp: static_create_services_def)
  have "fetch (server_url a prt @ value_url sv @ ''?x=1'') = Some t"
    using http_get_eq [OF transfer(2), of cs 0] described(2,3) transfer(1,3) pub(2)
    by (auto simp: transfer(4) takeWhile_eq_all_conv)
  moreover obtain w where "get_matching_request_service (parse t) head =
      Some (if ty = wanted_type \<and> location dv = Some wanted_location then (0, Some w) else (-1, None))"
    using found_eq [OF client service_type [of sv ty], of "device_attributes dv"] by (auto simp: described(4) device_location)
  moreover have "take 4 (quote # txt_data sv @ [quote]) = quote # ''URI''" by (simp add: txt_data_def)
  ultimately have "map_option (map_option snd) (resolve_callback (pub_name (last published1)) a (pub_port (last published1)) txt fetch parse head) =
      Some (if ty = wanted_type \<and> location dv = Some wanted_location then Some (server_url a prt @ value_url sv) else None)"
    using announced_uri [of sv]
    by (auto simp: resolve_callback_def service_found_callback_def announced(2) pub Let_def)
  then show ?thesis using description_answered [OF assms(1-5) req described(1)] by auto
qed

text \<open>A daemon with one service, a switch outside.\<close>

definition outside :: device where
  "outside = \<lparr>ddescription = None, dID = ''1'', vendorID = None, productID = None, dversion = None, IP = None, dport = None,
     location = Some ''outside'', dtype = ''Lamp'', secure_device = 0, service_list = [1]\<rparr>"

definition switch :: service where
  "switch = \<lparr>sdescription = None, sID = ''0'', value_url = ''/Lamp/1/Switch/0'', stype = 0, sunit = None,
     DNS_SD_type = Some ''_homeport._tcp'', zeroConfName = ''Lamp 1 Switch 0'', sdevice = Some 0, get_function = 0,
     put_function = None, user_data_pointer = None, parameter_list = []\<rparr>"

definition outside_server :: server where
  "outside_server = \<lparr>mem = \<lparr>services = [1 \<mapsto> switch], devices = [0 \<mapsto> outside], parameters = Map.empty,
       strs = [0 \<mapsto> (True, ''Switch'')], brk = 2, service_head = [1], daemon = True\<rparr>,
     xml = \<lparr>list_attrs = [], xml_tree = [\<lparr>device_attrs = device_attributes outside, device_services =
       [\<lparr>service_attrs = service_attributes switch ''Switch'', service_parameters = []\<rparr>]\<rparr>], saved = None, writable = True\<rparr>,
     events = two_sessions, hlog = None\<rparr>"

lemma outside_sel [simp]:
  "service_head (mem outside_server) = [1]" "server.events outside_server = two_sessions"
  "the_device (mem outside_server) 1 = Some (switch, outside, ''Switch'')"
  "parameter_elements (mem outside_server) (parameter_list switch) = Some []" "value_url switch = ''/Lamp/1/Switch/0''"
  "location outside = Some ''outside''"
  by (simp_all add: outside_server_def the_device_def switch_def outside_def str_at_def)

lemma outside_ok: "server_ok outside_server"
proof -
  have k: "the_key (mem outside_server) 1 = (''Lamp'', ''1'', ''Switch'', ''0'')"
    by (simp add: the_key_def four_tuple_def outside_server_def switch_def outside_def str_at_def)
  have "parameter_list switch = []" by (simp add: switch_def)
  then have d: "describable (mem outside_server) 1" using outside_sel(3) by (auto simp: describable_def simp del: One_nat_def)
  have "entry_ok (mem outside_server) 1"
    unfolding entry_ok_def k using d
    by (auto simp: outside_server_def switch_def outside_def str_at_def value_url_of_def)
  moreover have "daemon (mem outside_server)"
    "xml_tree (xml outside_server) = [\<lparr>device_attrs = device_attributes outside, device_services =
       [\<lparr>service_attrs = service_attributes switch ''Switch'', service_parameters = []\<rparr>]\<rparr>]"
    by (simp_all add: outside_server_def)
  moreover have "events_ok two_sessions" by (simp add: events_ok_def two_sessions_def)
  moreover have "dtype outside = ''Lamp''" "dID outside = ''1''" "sID switch = ''0''" by (simp_all add: outside_def switch_def)
  ultimately show ?thesis
    using k device_attributes_name [of outside] service_attributes_name [of switch "''Switch''"]
    by (simp add: server_ok_def http_wf_def http_keys_def xml_wf_def tree_wf_def xml_keys_def device_wf_def device_keys_def)
qed

definition found_env :: env where
  "found_env = demo_env\<lparr>print_service := (\<lambda>t. Some ''<service/>'')\<rparr>"

theorem service_is_discovered_witness:
  "\<exists>st' head c. answer_to_connection found_env \<lparr>url = ''/Lamp/1/Switch/0'', http_method = ''GET'', arg_x = Some ''1'', arg_p = None,
      cookie = None, upload = []\<rparr> Aptr outside_server = Some (1, Some (Response 200 ''<service/>'' None), Null, st') \<and>
    creaters (Some ''Switch'') (Some ''outside'') [] = Some (0, head) \<and>
    map_option (map_option snd) (resolve_callback ''Lamp 1 Switch 0'' ''10.0.0.1'' 8889 (quote # ''URI=/Lamp/1/Switch/0'' @ [quote])
      (\<lambda>u. if u = server_url ''10.0.0.1'' 8889 @ ''/Lamp/1/Switch/0?x=1'' then fst (the (http_get_function [''<ser'', ''vice/>''] 0 c)) else None)
      (\<lambda>t. Some (service_attributes switch ''Switch'', Some (device_attributes outside))) head) =
    Some (Some (server_url ''10.0.0.1'' 8889 @ ''/Lamp/1/Switch/0''))"
proof -
  obtain head where head: "creaters (Some ''Switch'') (Some ''outside'') [] = Some (0, head)"
    using creaters_eq [of "''outside''" "''Switch''" "[]"] by auto
  let ?r = "\<lparr>url = ''/Lamp/1/Switch/0'', http_method = ''GET'', arg_x = Some ''1'', arg_p = None, cookie = None, upload = []\<rparr>"
  let ?c = "init_curl (replicate 2048 CHR ''x'')"
  obtain published where pub: "static_create_services 8889 True 0 0 switch [] = ((0, False), published)"
    "pub_txt (last published) = ''URI=/Lamp/1/Switch/0''" "pub_port (last published) = 8889" "pub_name (last published) = ''Lamp 1 Switch 0''"
    by (simp add: static_create_services_def txt_data_def switch_def)
  have env: "made found_env" "tm_ok (now found_env)" "queued found_env = 1" "print_service found_env t = Some ''<service/>''" for t
    by (simp_all add: found_env_def demo_env_def tm_ok_def)
  note c = init_curl_ok [of "replicate 2048 CHR ''x''", simplified]
  have both: "map_option (map_option snd) (resolve_callback (pub_name (last published)) ''10.0.0.1'' (pub_port (last published))
      (quote # pub_txt (last published) @ [quote])
      (\<lambda>u. if u = server_url ''10.0.0.1'' (pub_port (last published)) @ value_url switch @ ''?x=1''
        then fst (the (http_get_function [''<ser'', ''vice/>''] 0 ?c)) else None)
      (\<lambda>t. Some (service_attributes switch ''Switch'', Some (device_attributes outside))) head) =
      Some (if ''Switch'' = ''Switch'' \<and> location outside = Some ''outside'' then Some (server_url ''10.0.0.1'' 8889 @ value_url switch) else None) \<and>
    (\<exists>st'. answer_to_connection found_env ?r Aptr outside_server = Some (queued found_env, Some (Response 200 ''<service/>'' None), Null, st'))"
    using service_is_discovered [where e = found_env and r = ?r and parse = "\<lambda>t. Some (service_attributes switch ''Switch'', Some (device_attributes outside))"
        and c = ?c and cs = "[''<ser'', ''vice/>'']" and s = 1 and t = "''<service/>''" and a = "''10.0.0.1''" and head = head and
        published = "[]" and prt = 8889, OF outside_ok _ _ outside_sel(3,4) _ _ _ env(1,2,4) _ _ refl pub(1) refl _ _ _ refl head]
      global_ok_demo c by fastforce
  then obtain st' where "answer_to_connection found_env ?r Aptr outside_server = Some (1, Some (Response 200 ''<service/>'' None), Null, st')"
    unfolding env(3) by blast
  with both [THEN conjunct1] head show ?thesis
    by (intro exI [of _ st'] exI [of _ head] exI [of _ ?c]) (simp add: pub)
qed

text \<open>
  C15. The two clients agree on the URL: when the one has found a service whose URL has at most 98 characters and no
  line end, at an address and port of fewer than 20 characters, the other one, called with the file, sends
  its PUT request for the URL of this service to the address and port of its announcement.
\<close>

theorem found_service_is_set:
  assumes "resolve_callback name a prt (quote # ''URI='' @ CHR ''/'' # u @ [quote]) fetch parse head = Some (Some (r, f))"
    and "url_file e = Some (bytes f)" and "url_parts_ok (bytes a) (bytes (decimal prt)) (bytes u)"
    and "length val < 1000" and "0 < connection e (bytes a) (bytes (decimal prt))" and "xml_of_value e val = body" and "0 \<notin> set body"
    and "req = request (bytes (CHR ''/'' # u)) body" and "length req < 256" and "[] \<notin> set cs"
    and reply: "concat cs = pre @ 0x3C # 0x3F # post" "0x3C \<notin> set pre" "length pre < 200" "0 \<notin> set post" "length (concat cs) \<le> 998"
  shows "put_main e (bytes ''FILE'') val (map Chunk cs) =
    Some (req @ [0x0D, 0x0A], value_of_xml e (0x3C # 0x3F # post @ leftover req (concat cs)))"
proof -
  have "uri_of ((quote # ''URI='') @ (CHR ''/'' # u) @ [quote]) = Some (CHR ''/'' # u)" by (rule uri_of_quoted) simp
  then have f: "f = server_url a prt @ CHR ''/'' # u"
    using assms(1) by (auto simp: resolve_callback_def service_found_callback_def Let_def split: option.splits bind_splits if_splits)
  have "bytes f = url_of (bytes a) (bytes (decimal prt)) (bytes u)" by (simp add: f server_url_def url_of_def bytes_def)
  then show ?thesis
    using put_client_eq [OF assms(3) _ assms(4-7) _ assms(9,10) reply, of "bytes ''FILE''"] assms(2,8) by (simp add: bytes_def)
qed

theorem found_service_is_set_witness:
  "\<exists>r f. resolve_callback ''Bridge outside switch 3'' ''10.0.0.1'' 8889 (quote # ''URI='' @ ''/Bridge/outside/switch/3'' @ [quote])
      (\<lambda>u. Some ''<service/>'') (\<lambda>t. Some ([(''type'', ''switch'')], Some [(''location'', ''outside'')]))
      (snd (the (creaters (Some ''switch'') (Some ''outside'') []))) = Some (Some (r, f)) \<and>
    (\<exists>req. put_main ((demo_put 3)\<lparr>url_file := Some (bytes f)\<rparr>) (bytes ''FILE'') (bytes ''01'')
      [Chunk (bytes ''HTTP/1.1 200 OK  <?xml?><value>02</value>'')] = Some (req, Some (bytes ''02'')))"
proof -
  let ?find = "resolve_callback ''Bridge outside switch 3'' ''10.0.0.1'' 8889 (quote # ''URI='' @ CHR ''/'' # ''Bridge/outside/switch/3'' @ [quote])
      (\<lambda>u. Some ''<service/>'') (\<lambda>t. Some ([(''type'', ''switch'')], Some [(''location'', ''outside'')]))
      (snd (the (creaters (Some ''switch'') (Some ''outside'') [])))"
  obtain head where head: "creaters (Some ''switch'') (Some ''outside'') [] = Some (0, head)"
    using creaters_eq [of "''outside''" "''switch''" "[]"] by auto
  obtain w where "get_matching_request_service (Some ([(''type'', ''switch'')], Some [(''location'', ''outside'')])) head = Some (0, Some w)"
    using found_eq [OF head, of "[(''type'', ''switch'')]" "''switch''" "[(''location'', ''outside'')]"] by auto
  then obtain r f where found: "?find = Some (Some (r, f))"
    using uri_of_quoted [of "quote # ''URI=''" "''/Bridge/outside/switch/3''"] head
    by (simp add: resolve_callback_def service_found_callback_def Let_def)
  have parts: "url_parts_ok (bytes ''10.0.0.1'') (bytes (decimal 8889)) (bytes ''Bridge/outside/switch/3'')"
  proof -
    have "decimal 8889 \<noteq> []" "length (decimal 8889) < 20" by (simp_all add: decimal.simps)
    moreover have "set (bytes (decimal 8889)) \<inter> {0, 0x2F} = {}" using decimal_bytes [of 8889] by auto
    ultimately show ?thesis by (simp add: url_parts_ok_def) (simp add: bytes_def)
  qed
  have size: "length (request (bytes (CHR ''/'' # ''Bridge/outside/switch/3'')) (bytes ''<?xml?><value>01</value>'')) < 256"
    by (simp add: request_split request_front_def request_head_def decimal.simps)
  let ?e = "(demo_put 3)\<lparr>url_file := Some (bytes f)\<rparr>"
  have "put_main ?e (bytes ''FILE'') (bytes ''01'') (map Chunk [bytes ''HTTP/1.1 200 OK  <?xml?><value>02</value>'']) =
    Some (request (bytes (CHR ''/'' # ''Bridge/outside/switch/3'')) (bytes ''<?xml?><value>01</value>'') @ [0x0D, 0x0A],
      value_of_xml ?e (0x3C # 0x3F # bytes ''xml?><value>02</value>'' @
        leftover (request (bytes (CHR ''/'' # ''Bridge/outside/switch/3'')) (bytes ''<?xml?><value>01</value>''))
          (concat [bytes ''HTTP/1.1 200 OK  <?xml?><value>02</value>''])))"
    by (rule found_service_is_set [where pre = "bytes ''HTTP/1.1 200 OK  ''" and post = "bytes ''xml?><value>02</value>''",
        OF found _ parts _ _ _ _ refl size]) (simp_all add: demo_put_def, simp_all add: bytes_def)
  moreover have "value_of_xml ?e (0x3C # 0x3F # bytes ''xml?><value>02</value>'' @ x) = Some (bytes ''02'')" for x
    by (simp add: demo_put_def bytes_def)
  ultimately show ?thesis using found by simp
qed

end
