(* ===== verification/AvahiDaemon.thy ===== *)
theory AvahiDaemon
  imports Avahi HpdConfig
begin

text \<open>
  Starting and stopping Avahi, its callbacks, and the two variants of announcing: with a server of its own
  (\<open>hpdaemon/hpd_avahi_publish_core.c\<close>, theory Avahi) and as a client of the Avahi daemon
  (\<open>hpdaemon/hpd_avahi_publish_client.c\<close>).

  Of Avahi the code uses besides that its functions take objects that exist: a lock of a loop that was never made or
  that was freed is a crash (\<open>None\<close>), and a freed server or client takes its announcements with it.
\<close>

abbreviation (input) HPD_E_AVAHI_CLIENT_ERROR :: int where "HPD_E_AVAHI_CLIENT_ERROR \<equiv> -21"

text \<open>
  The pointers to the loop and to the server or client, whether the loop is told to end, and the list of the client
  with the service and the announcement of each group. The announcements of a server are in \<open>announced\<close>.
\<close>

record avahi =
  threaded_poll :: "unit pointer"
  avahi_object :: "unit pointer"
  poll_quit :: bool
  announced :: "publication list"
  entry_group_head :: "(service \<times> publication) list"

definition free_pointer :: "unit pointer \<Rightarrow> unit pointer option" where
  "free_pointer p = (case p of Unset \<Rightarrow> Some Unset | Live u \<Rightarrow> Some Freed | Freed \<Rightarrow> None)"

definition locked :: "avahi \<Rightarrow> bool" where
  "locked a \<longleftrightarrow> threaded_poll a = Live ()"

section \<open>A server of its own\<close>

definition clean_up_server :: "avahi \<Rightarrow> avahi option" where
  "clean_up_server a = do {
     s \<leftarrow> free_pointer (avahi_object a);
     p \<leftarrow> free_pointer (threaded_poll a);
     Some (a\<lparr>avahi_object := s, threaded_poll := p, announced := []\<rparr>)
   }"

text \<open>\<open>new_poll\<close> and \<open>new_object\<close>: whether Avahi makes the loop and the server or client.\<close>

definition avahi_core_start :: "bool \<Rightarrow> bool \<Rightarrow> avahi \<Rightarrow> (int \<times> avahi) option" where
  "avahi_core_start new_poll new_object a =
     (let a1 = a\<lparr>avahi_object := Unset, threaded_poll := if new_poll then Live () else Unset\<rparr> in
      if \<not> new_poll \<or> \<not> new_object then do { a2 \<leftarrow> clean_up_server a1; Some (HPD_E_AVAHI_CORE_ERROR, a2) }
      else Some (HPD_E_SUCCESS, a1\<lparr>avahi_object := Live ()\<rparr>))"

definition avahi_core_quit :: "avahi \<Rightarrow> avahi option" where
  "avahi_core_quit a = (if \<not> locked a then None else clean_up_server a)"

definition avahi_core_create_service :: "nat \<Rightarrow> bool \<Rightarrow> int \<Rightarrow> int \<Rightarrow> service \<Rightarrow> avahi \<Rightarrow> (int \<times> avahi) option" where
  "avahi_core_create_service prt grp ad com sv a =
     (if \<not> locked a \<or> avahi_object a \<noteq> Live () then None
      else let ((rc, q), ps) = static_create_services prt grp ad com sv (announced a) in
      Some (rc, a\<lparr>announced := ps, poll_quit := poll_quit a \<or> q\<rparr>))"

definition avahi_core_remove :: "service \<Rightarrow> avahi \<Rightarrow> (int \<times> avahi) option" where
  "avahi_core_remove sv a =
     (if \<not> locked a \<or> avahi_object a \<noteq> Live () then None
      else let (rc, ps) = avahi_core_remove_service sv (announced a) in Some (rc, a\<lparr>announced := ps\<rparr>))"

text \<open>
  What the server reports; \<open>ServerCollision r\<close> has the result of setting another host name. Nothing is done for the
  announcements, as \<open>reset_all_services\<close> is empty.
\<close>

datatype server_state = ServerRunning | ServerCollision int | ServerRegistering | ServerFailure | ServerInvalid

definition server_callback :: "server_state \<Rightarrow> avahi \<Rightarrow> avahi" where
  "server_callback st a = (case st of
     ServerCollision r \<Rightarrow> if r < 0 then a\<lparr>poll_quit := True\<rparr> else a
   | ServerFailure \<Rightarrow> a\<lparr>poll_quit := True\<rparr>
   | _ \<Rightarrow> a)"

section \<open>A client of the Avahi daemon\<close>

text \<open>The list is emptied before the lock is taken; the lock is taken whether there is a loop or not.\<close>

definition clean_up_client :: "avahi \<Rightarrow> avahi option" where
  "clean_up_client a =
     (if \<not> locked a then None
      else do {
        c \<leftarrow> free_pointer (avahi_object a);
        p \<leftarrow> free_pointer (threaded_poll a);
        Some (a\<lparr>entry_group_head := [], announced := [], avahi_object := c, threaded_poll := p\<rparr>)
      })"

definition avahi_client_start :: "bool \<Rightarrow> bool \<Rightarrow> avahi \<Rightarrow> (int \<times> avahi) option" where
  "avahi_client_start new_poll new_object a =
     (let a1 = a\<lparr>threaded_poll := if new_poll then Live () else Unset\<rparr> in
      if \<not> new_poll then do { a2 \<leftarrow> clean_up_client a1; Some (HPD_E_AVAHI_CLIENT_ERROR, a2) }
      else let a2 = a1\<lparr>avahi_object := if new_object then Live () else Unset\<rparr> in
      if \<not> new_object then do { a3 \<leftarrow> clean_up_client a2; Some (HPD_E_AVAHI_CLIENT_ERROR, a3) }
      else Some (HPD_E_SUCCESS, a2))"

definition avahi_client_quit :: "avahi \<Rightarrow> avahi option" where
  "avahi_client_quit a = clean_up_client a"

definition avahi_client_create_service :: "int \<Rightarrow> nat \<Rightarrow> bool \<Rightarrow> int \<Rightarrow> int \<Rightarrow> service \<Rightarrow> avahi \<Rightarrow> (int \<times> avahi) option" where
  "avahi_client_create_service secure prt grp ad com sv a =
     (if \<not> locked a \<or> avahi_object a \<noteq> Live () then None
      else if secure \<noteq> 0 then Some (HPD_E_NO_HTTPS, a)
      else if \<not> grp \<or> ad < 0 \<or> com < 0 then Some (HPD_E_AVAHI_CLIENT_ERROR, a\<lparr>poll_quit := True\<rparr>)
      else
        let p = \<lparr>pub_name = zeroConfName sv, pub_type = DNS_SD_type sv, pub_port = prt, pub_txt = txt_data sv\<rparr> in
        Some (HPD_E_SUCCESS, a\<lparr>announced := announced a @ [p], entry_group_head := entry_group_head a @ [(sv, p)]\<rparr>))"

definition avahi_client_remove_service :: "service \<Rightarrow> avahi \<Rightarrow> (int \<times> avahi) option" where
  "avahi_client_remove_service sv a = (case find (\<lambda>(s, p). zeroConfName s = zeroConfName sv) (entry_group_head a) of
     None \<Rightarrow> Some (HPD_E_AVAHI_SERVICE_NOT_FOUND, a)
   | Some (s, p) \<Rightarrow>
       if \<not> locked a then None
       else Some (HPD_E_SUCCESS, a\<lparr>entry_group_head := remove1 (s, p) (entry_group_head a), announced := remove1 p (announced a)\<rparr>))"

datatype client_state = ClientRunning | ClientFailure | ClientCollision | ClientRegistering | ClientConnecting

definition client_callback :: "client_state \<Rightarrow> avahi \<Rightarrow> avahi" where
  "client_callback st a = (if st = ClientFailure then a\<lparr>poll_quit := True\<rparr> else a)"

section \<open>Both variants announce the same\<close>

text \<open>
  A sequence of announcements and removals, each with what Avahi returns for it; the codes that are returned, without
  the one that tells the variants apart.
\<close>

type_synonym avahi_op = "bool \<times> service \<times> bool \<times> int \<times> int"

fun core_ops :: "nat \<Rightarrow> avahi_op list \<Rightarrow> avahi \<Rightarrow> (int list \<times> avahi) option" where
  "core_ops prt [] a = Some ([], a)"
| "core_ops prt ((b, sv, grp, ad, com) # ops) a = do {
     (rc, a1) \<leftarrow> (if b then avahi_core_create_service prt grp ad com sv a else avahi_core_remove sv a);
     (rcs, a2) \<leftarrow> core_ops prt ops a1;
     Some ((if rc = HPD_E_AVAHI_CORE_ERROR then HPD_E_AVAHI_CLIENT_ERROR else rc) # rcs, a2)
   }"

fun client_ops :: "nat \<Rightarrow> avahi_op list \<Rightarrow> avahi \<Rightarrow> (int list \<times> avahi) option" where
  "client_ops prt [] a = Some ([], a)"
| "client_ops prt ((b, sv, grp, ad, com) # ops) a = do {
     (rc, a1) \<leftarrow> (if b then avahi_client_create_service 0 prt grp ad com sv a else avahi_client_remove_service sv a);
     (rcs, a2) \<leftarrow> client_ops prt ops a1;
     Some (rc # rcs, a2)
   }"

text \<open>The running server and the running client with the same announcements; a name has one type.\<close>

definition one_type :: "(string \<Rightarrow> string option) \<Rightarrow> publication list \<Rightarrow> bool" where
  "one_type ty ps \<longleftrightarrow> (\<forall>p \<in> set ps. pub_type p = ty (pub_name p))"

definition variants :: "(string \<Rightarrow> string option) \<Rightarrow> avahi \<Rightarrow> avahi \<Rightarrow> bool" where
  "variants ty a b \<longleftrightarrow> locked a \<and> avahi_object a = Live () \<and> locked b \<and> avahi_object b = Live () \<and>
     announced b = announced a \<and> poll_quit b = poll_quit a \<and> one_type ty (announced a) \<and>
     map snd (entry_group_head b) = announced b \<and> (\<forall>(s, p) \<in> set (entry_group_head b). pub_name p = zeroConfName s)"

lemma find_first:
  assumes "\<forall>(s, p) \<in> set es. pub_name p = zeroConfName s" and "one_type ty (map snd es)" and "DNS_SD_type sv = ty (zeroConfName sv)"
  shows "find (\<lambda>p. pub_name p = zeroConfName sv \<and> pub_type p = DNS_SD_type sv) (map snd es) =
    map_option snd (find (\<lambda>(s, p). zeroConfName s = zeroConfName sv) es)"
  using assms by (induction es) (auto simp: one_type_def)

lemma remove_first:
  "find P es = Some e \<Longrightarrow> (\<forall>x \<in> set es. snd x = snd e \<longrightarrow> P x) \<Longrightarrow> map snd (remove1 e es) = remove1 (snd e) (map snd es)"
  by (induction es) (auto split: if_splits)

lemma variants_step:
  assumes "variants ty a b" and "DNS_SD_type sv = ty (zeroConfName sv)"
  shows "\<exists>rc a1 b1. (if c then avahi_core_create_service prt grp ad com sv a else avahi_core_remove sv a) = Some (rc, a1) \<and>
    (if c then avahi_client_create_service 0 prt grp ad com sv b else avahi_client_remove_service sv b) =
      Some (if rc = HPD_E_AVAHI_CORE_ERROR then HPD_E_AVAHI_CLIENT_ERROR else rc, b1) \<and> variants ty a1 b1"
proof (cases c)
  case True
  then show ?thesis using assms
    by (auto simp: variants_def avahi_core_create_service_def avahi_client_create_service_def static_create_services_def one_type_def locked_def Let_def)
next
  case False
  let ?es = "entry_group_head b"
  have f: "find (\<lambda>p. pub_name p = zeroConfName sv \<and> pub_type p = DNS_SD_type sv) (announced a) =
      map_option snd (find (\<lambda>(s, p). zeroConfName s = zeroConfName sv) ?es)"
    using find_first [of ?es ty sv] assms by (auto simp: variants_def)
  show ?thesis
  proof (cases "find (\<lambda>(s, p). zeroConfName s = zeroConfName sv) ?es")
    case None
    then show ?thesis using f False assms(1)
      by (auto simp: variants_def avahi_core_remove_def avahi_core_remove_service_def avahi_client_remove_service_def)
  next
    case (Some e)
    obtain s p where e: "e = (s, p)" by (cases e)
    have n: "zeroConfName s = zeroConfName sv" "(s, p) \<in> set ?es" using Some e by (auto simp: find_Some_iff in_set_conv_nth)
    have names: "zeroConfName s' = pub_name p'" if "(s', p') \<in> set ?es" for s' p'
      using that assms(1) by (auto simp: variants_def)
    have "map snd (remove1 e ?es) = remove1 (snd e) (map snd ?es)"
      using Some n e names [OF n(2)] by (intro remove_first) (auto dest!: names)
    then show ?thesis
      using Some f False assms(1) e
      by (auto simp: variants_def avahi_core_remove_def avahi_core_remove_service_def avahi_client_remove_service_def locked_def
          one_type_def dest: in_set_remove1 [THEN iffD1, rotated] set_remove1_subset [THEN subsetD])
  qed
qed

lemma variants_run:
  assumes "variants ty a b" and "\<forall>(c, sv, r) \<in> set ops. DNS_SD_type sv = ty (zeroConfName sv)"
  shows "\<exists>rcs a1 b1. core_ops prt ops a = Some (rcs, a1) \<and> client_ops prt ops b = Some (rcs, b1) \<and> variants ty a1 b1"
  using assms
proof (induction ops arbitrary: a b)
  case (Cons op ops)
  obtain c sv grp ad com where op: "op = (c, sv, grp, ad, com)" by (cases op)
  then have "DNS_SD_type sv = ty (zeroConfName sv)" "\<forall>(c, sv, r) \<in> set ops. DNS_SD_type sv = ty (zeroConfName sv)"
    using Cons.prems(2) by auto
  note this(2) and variants_step [OF Cons.prems(1) this(1), of c prt grp ad com]
  then obtain rc a1 b1 where st: "(if c then avahi_core_create_service prt grp ad com sv a else avahi_core_remove sv a) = Some (rc, a1)"
    "(if c then avahi_client_create_service 0 prt grp ad com sv b else avahi_client_remove_service sv b) =
      Some (if rc = HPD_E_AVAHI_CORE_ERROR then HPD_E_AVAHI_CLIENT_ERROR else rc, b1)" "variants ty a1 b1" by blast
  obtain rcs a2 b2 where "core_ops prt ops a1 = Some (rcs, a2)" "client_ops prt ops b1 = Some (rcs, b2)" "variants ty a2 b2"
    using Cons.IH [OF st(3)] Cons.prems(2) by (auto simp: op)
  with st show ?case unfolding op core_ops.simps client_ops.simps by simp
qed simp



text \<open>The client cannot report that it has no loop: it takes the lock of the loop to clean up.\<close>

lemma client_start_crashes: "avahi_client_start False new_object a = None"
  by (simp add: avahi_client_start_def clean_up_client_def locked_def)

text \<open>The server reports it; stopping after such a start is a crash.\<close>

lemma core_start_fails:
  "\<not> new_poll \<or> \<not> new_object \<Longrightarrow> \<exists>a1. avahi_core_start new_poll new_object a = Some (HPD_E_AVAHI_CORE_ERROR, a1) \<and> avahi_core_quit a1 = None"
  by (auto simp: avahi_core_start_def clean_up_server_def free_pointer_def avahi_core_quit_def locked_def)

end
