(* ===== verification/Browsing.thy ===== *)
theory Browsing
  imports Discovery AvahiDaemon
begin

text \<open>
  The client that looks for a service as a program (\<open>hpclientSD/mainSD.c\<close>, \<open>avahi_browse.c\<close>, \<open>avahi_browse_api.c\<close> and
  the end of \<open>service_found_callback\<close> in \<open>HP_client.c\<close>): it starts the loop of Avahi in a thread, gets what that finds
  through its callbacks, and stops.

  Of Avahi the code uses that a loop is stopped and freed from outside its own thread only, that stopping takes a loop
  that exists, that freeing one stops it, and that a freed server takes its browsers and resolvers with it. A call that
  breaks this is a crash.
\<close>

section \<open>The state\<close>

text \<open>
  The global pointers, whether the thread of the loop runs, and the number of resolvers that wait. \<open>global_sb\<close> is the
  browser; \<open>avahi_core_start\<close> has a variable of the same name and leaves the global one as it is.
\<close>

record browser =
  browser_poll :: "unit pointer"
  browser_server :: "unit pointer"
  global_sb :: "unit pointer"
  running :: bool
  resolvers :: nat

definition idle_browser :: browser where
  "idle_browser = \<lparr>browser_poll = Unset, browser_server = Unset, global_sb = Unset, running = False, resolvers = 0\<rparr>"

text \<open>\<open>in_loop\<close> tells whether the call is made in the thread of the loop, as in its callbacks.\<close>

definition poll_free :: "bool \<Rightarrow> browser \<Rightarrow> browser option" where
  "poll_free in_loop b = (case browser_poll b of
     Unset \<Rightarrow> Some b
   | Live u \<Rightarrow> if in_loop \<and> running b then None else Some (b\<lparr>browser_poll := Freed, running := False\<rparr>)
   | Freed \<Rightarrow> None)"

definition browse_clean_up :: "bool \<Rightarrow> browser \<Rightarrow> browser option" where
  "browse_clean_up in_loop b = do {
     s \<leftarrow> free_pointer (global_sb b);
     v \<leftarrow> free_pointer (browser_server b);
     poll_free in_loop (b\<lparr>global_sb := s, browser_server := v, resolvers := 0\<rparr>)
   }"

section \<open>Start and stop\<close>

text \<open>
  What Avahi makes: the loop, the server, the browser, and whether the thread of the loop starts, which is not looked
  at.
\<close>

record avahi_start =
  made_poll :: bool
  made_server :: bool
  made_browser :: bool
  thread_started :: bool

definition browse_core_start :: "avahi_start \<Rightarrow> browser \<Rightarrow> (int \<times> browser) option" where
  "browse_core_start e b =
     (let b1 = b\<lparr>browser_poll := if made_poll e then Live () else Unset\<rparr> in
      if \<not> made_poll e then do { b2 \<leftarrow> browse_clean_up False b1; Some (-1, b2) }
      else let b2 = b1\<lparr>browser_server := if made_server e then Live () else Unset\<rparr> in
      if \<not> made_server e \<or> \<not> made_browser e then do { b3 \<leftarrow> browse_clean_up False b2; Some (-1, b3) }
      else Some (0, b2\<lparr>running := thread_started e\<rparr>))"

definition browse_core_stop :: "bool \<Rightarrow> browser \<Rightarrow> browser option" where
  "browse_core_stop in_loop b =
     (if browser_poll b \<noteq> Live () \<or> (in_loop \<and> running b) then None else browse_clean_up in_loop (b\<lparr>running := False\<rparr>))"

text \<open>The result of the start is lost.\<close>

definition avahi_browse_start :: "avahi_start \<Rightarrow> browser \<Rightarrow> (int \<times> browser) option" where
  "avahi_browse_start e b = do { (rc, b1) \<leftarrow> browse_core_start e b; Some (0, b1) }"

definition avahi_browse_stop :: "bool \<Rightarrow> browser \<Rightarrow> (int \<times> browser) option" where
  "avahi_browse_stop in_loop b = do { b1 \<leftarrow> browse_core_stop in_loop b; Some (0, b1) }"

section \<open>The callbacks\<close>

text \<open>\<open>BrowserNew\<close> has whether a resolver is made for the service.\<close>

datatype browser_event = BrowserFailure | BrowserNew bool | BrowserRemove | BrowserAllForNow | BrowserCacheExhausted

definition browse_callback :: "browser_event \<Rightarrow> browser \<Rightarrow> browser option" where
  "browse_callback ev b = (case ev of
     BrowserFailure \<Rightarrow> browse_clean_up True b
   | BrowserNew ok \<Rightarrow> Some (if ok then b\<lparr>resolvers := resolvers b + 1\<rparr> else b)
   | BrowserRemove \<Rightarrow> Some b
   | BrowserAllForNow \<Rightarrow> Some b
   | BrowserCacheExhausted \<Rightarrow> Some b)"

text \<open>A service that is resolved has a name, an address, a port and a text.\<close>

datatype resolver_event = ResolverFailure | ResolverFound string string nat string

text \<open>What the client uses: the request, the reader of the descriptions, and whether its file can be written.\<close>

record sd_env =
  sd_fetch :: "string \<Rightarrow> string option"
  sd_parse :: "string \<Rightarrow> (attributes \<times> attributes option) option"
  sd_file :: bool

text \<open>How the program stands: in its loop, returned from \<open>main\<close> with what was released, ended by \<open>exit (0)\<close>, or crashed.\<close>

datatype sd_state = Going browser | Returned "string list" browser | Exited | Crashed

definition resolver_callback :: "sd_env \<Rightarrow> request_service list \<Rightarrow> resolver_event \<Rightarrow> browser \<Rightarrow> string list \<times> sd_state" where
  "resolver_callback e head ev b = (case ev of
     ResolverFailure \<Rightarrow> ([], Going (b\<lparr>resolvers := resolvers b - 1\<rparr>))
   | ResolverFound name a prt t \<Rightarrow> (case resolve_callback name a prt t (sd_fetch e) (sd_parse e) head of
       None \<Rightarrow> ([], Crashed)
     | Some None \<Rightarrow> ([], Going (b\<lparr>resolvers := resolvers b - 1\<rparr>))
     | Some (Some (r, furl)) \<Rightarrow>
         if \<not> sd_file e then ([], Crashed)
         else ([furl], case avahi_browse_stop True b of None \<Rightarrow> Crashed | Some _ \<Rightarrow> Exited)))"

datatype sd_event = Browsed browser_event | Resolved resolver_event

definition sd_step :: "sd_env \<Rightarrow> request_service list \<Rightarrow> sd_event \<Rightarrow> browser \<Rightarrow> string list \<times> sd_state" where
  "sd_step e head ev b = (case ev of
     Browsed x \<Rightarrow> ([], case browse_callback x b of None \<Rightarrow> Crashed | Some b1 \<Rightarrow> Going b1)
   | Resolved x \<Rightarrow> resolver_callback e head x b)"

fun sd_loop :: "sd_env \<Rightarrow> request_service list \<Rightarrow> sd_event list \<Rightarrow> browser \<Rightarrow> string list \<times> sd_state" where
  "sd_loop e head [] b = ([], Going b)"
| "sd_loop e head (ev # evs) b = (let (out, st) = sd_step e head ev b in
     case st of Going b1 \<Rightarrow> (let (out1, st1) = sd_loop e head evs b1 in (out @ out1, st1)) | _ \<Rightarrow> (out, st))"

text \<open>\<open>evs\<close> is what the loop reports in the two seconds the program waits. The result has the texts written to the file.\<close>

definition sd_end :: "request_service list \<Rightarrow> browser \<Rightarrow> sd_state" where
  "sd_end head b = (case do { (rc, b1) \<leftarrow> avahi_browse_stop False b; (rc1, freed) \<leftarrow> HP_client_deinit head; Some (freed, b1) } of
     None \<Rightarrow> Crashed | Some (freed, b1) \<Rightarrow> Returned freed b1)"

definition sd_main :: "avahi_start \<Rightarrow> sd_env \<Rightarrow> string option \<Rightarrow> string option \<Rightarrow> sd_event list \<Rightarrow> string list \<times> sd_state" where
  "sd_main a e t l evs = (case do { (rc, head) \<leftarrow> HP_client_init t l; (rc1, b) \<leftarrow> avahi_browse_start a idle_browser; Some (head, b) } of
     None \<Rightarrow> ([], Crashed)
   | Some (head, b) \<Rightarrow>
       let (out, st) = (if running b then sd_loop e head evs b else ([], Going b)) in
       case st of Going b1 \<Rightarrow> (out, sd_end head b1) | _ \<Rightarrow> (out, st))"

section \<open>Properties\<close>

text \<open>Reports after which the client goes on.\<close>

definition quiet :: "sd_env \<Rightarrow> request_service list \<Rightarrow> sd_event \<Rightarrow> bool" where
  "quiet e head ev = (case ev of
     Browsed x \<Rightarrow> x \<noteq> BrowserFailure
   | Resolved ResolverFailure \<Rightarrow> True
   | Resolved (ResolverFound n a p t) \<Rightarrow> resolve_callback n a p t (sd_fetch e) (sd_parse e) head = Some None)"

lemma quiet_step: "quiet e head ev \<Longrightarrow> \<exists>n. sd_step e head ev b = ([], Going (b\<lparr>resolvers := n\<rparr>))"
  by (cases b) (auto simp: quiet_def sd_step_def browse_callback_def resolver_callback_def
      split: sd_event.splits browser_event.splits resolver_event.splits)

lemma quiet_loop:
  "list_all (quiet e head) pre \<Longrightarrow> \<exists>n. sd_loop e head (pre @ post) b = sd_loop e head post (b\<lparr>resolvers := n\<rparr>)"
proof (induction pre arbitrary: b)
  case Nil
  show ?case by (rule exI [of _ "resolvers b"]) simp
next
  case (Cons ev pre)
  obtain n where "sd_step e head ev b = ([], Going (b\<lparr>resolvers := n\<rparr>))" using quiet_step Cons.prems by fastforce
  then show ?case using Cons.IH [of "b\<lparr>resolvers := n\<rparr>"] Cons.prems by (auto split: prod.splits)
qed

text \<open>The loop that runs: stopping it from outside releases everything, from inside it crashes.\<close>

definition browsing :: "nat \<Rightarrow> browser" where
  "browsing n = \<lparr>browser_poll = Live (), browser_server = Live (), global_sb = Unset, running = True, resolvers = n\<rparr>"

lemma browsing_resolvers [simp]: "browsing k\<lparr>resolvers := n\<rparr> = browsing n"
  by (simp add: browsing_def)

lemma start_browsing:
  assumes "made_poll a" and "made_server a" and "made_browser a" and "thread_started a"
  shows "avahi_browse_start a idle_browser = Some (0, browsing 0)"
  using assms by (simp add: avahi_browse_start_def browse_core_start_def idle_browser_def browsing_def Let_def)

lemma stop_browsing:
  "avahi_browse_stop False (browsing n) = Some (0, \<lparr>browser_poll = Freed, browser_server = Freed, global_sb = Unset, running = False, resolvers = 0\<rparr>)"
  "avahi_browse_stop True (browsing n) = None"
  by (simp_all add: avahi_browse_stop_def browse_core_stop_def browse_clean_up_def free_pointer_def poll_free_def browsing_def)

lemma failed_start:
  assumes "\<not> (made_poll a \<and> made_server a \<and> made_browser a)"
  shows "\<exists>b. avahi_browse_start a idle_browser = Some (0, b) \<and> \<not> running b \<and> avahi_browse_stop False b = None"
  using assms
  by (auto simp: avahi_browse_start_def browse_core_start_def idle_browser_def browse_clean_up_def free_pointer_def poll_free_def
      avahi_browse_stop_def browse_core_stop_def)

lemma one_request:
  assumes "l \<noteq> []"
  obtains head where "HP_client_init (Some t) (Some l) = Some (0, head)" and "creaters (Some t) (Some l) [] = Some (0, head)"
    and "HP_client_deinit head = Some (0, [t, ''1''])"
  using client_run [OF assms, of t] creaters_eq [OF assms, of t "[]"] that by (auto simp: HP_client_init_def)

lemma browser_failure_crashes: "sd_loop e head (Browsed BrowserFailure # evs) (browsing n) = ([], Crashed)"
  by (simp add: sd_step_def browse_callback_def browse_clean_up_def free_pointer_def poll_free_def browsing_def)



end
