(* ===== verification/GwConfig.thy ===== *)
theory GwConfig
  imports HexCodec
begin

text \<open>
  The program that configures the gateway of the dongle (\<open>DGWconfig/dvlcoauto.c\<close>): it decodes a template with the
  codec of the bridge, of which it has a copy, puts the address of the host into it and sends it as one
  datagram. The socket is input and output.
\<close>

definition MAXIP :: nat where "MAXIP = 16"

definition configmsg :: string where
  "configmsg = ''010348C07EF50600000000000000000000000000000000000000000000000000000000000000000000000000'' @
     ''0000000000000000000000000000000000000000000000000000003139322E3136382E312E35000000000000'' @
     ''00000000000000000000000000000000000000000000000000000000000000000000000000000049EE020000''"

text \<open>
  An address with an optional port: the loop copies at most \<open>MAXIP\<close> characters, and the terminator goes behind
  them. The result is the text of the address and the one after the colon.
\<close>

definition SetAddress :: "byte list \<Rightarrow> (byte list \<times> byte list option) option" where
  "SetAddress composite =
     (let a = takeWhile (\<lambda>c. c \<noteq> 0x3A \<and> c \<noteq> 0) (take MAXIP composite);
          r = drop (length a) composite in
      if length a = MAXIP then None
      else Some (a, if r \<noteq> [] \<and> hd r = 0x3A then Some (tl r) else None))"

text \<open>The text goes from the input to the start of the output.\<close>

definition decode_config :: "byte list \<Rightarrow> byte list \<Rightarrow> (byte \<times> byte list) option" where
  "decode_config input output = hexbinary_to_binary (Some input) output 0 0"

text \<open>\<open>message\<close> is the array on the stack; the datagram has the length of the template.\<close>

definition dvlco_datagram :: "byte list \<Rightarrow> byte list \<Rightarrow> byte list option" where
  "dvlco_datagram local_ip message = do {
     (len, m) \<leftarrow> decode_config (bytes configmsg @ [0]) message;
     m1 \<leftarrow> wrn m 0x47 local_ip;
     rdn m1 0 (unat len)
   }"

text \<open>Without the template: the bytes in front of the address, the address, and those behind it.\<close>

definition config_front :: "byte list" where
  "config_front = [1, 3, 0x48, 0xC0, 0x7E, 0xF5, 6] @ replicate 64 0"

definition config_address :: "byte list" where
  "config_address = bytes ''192.168.1.5''"

definition config_back :: "byte list" where
  "config_back = replicate 45 0 @ [0x49, 0xEE, 2, 0, 0]"

lemma configmsg_decoded: "unhex (bytes configmsg) = config_front @ config_address @ config_back"
  by code_simp

lemma configmsg_text: "cstr (bytes configmsg @ [0]) 0 = Some (bytes configmsg)" "length configmsg = 264"
  by code_simp+

lemma dvlco_eq:
  assumes "length message = 1000" and "length ip \<le> 61"
  shows "dvlco_datagram ip message = Some (config_front @ ip @ drop (length ip) (config_address @ config_back))"
proof -
  let ?d = "config_front @ config_address @ config_back"
  have l: "length config_front = 71" "length config_address = 11" "length config_back = 50"
    by (simp_all add: config_front_def config_address_def config_back_def)
  have n: "unat (of_nat (length (bytes configmsg) div 2) :: byte) = 132" using configmsg_text(2) by simp
  have "decode_config (bytes configmsg @ [0]) message = map_option (\<lambda>m. (of_nat 132, m)) (wrn message 0 (?d @ [0]))"
    using hexbinary_separate [OF configmsg_text(1), of message 0] configmsg_text(2) n l
    by (simp add: decode_config_def configmsg_decoded)
  then have d: "decode_config (bytes configmsg @ [0]) message = Some (132, ?d @ 0 # drop 133 message)"
    using assms(1) l by (simp add: wrn_def)
  have "wrn (?d @ 0 # drop 133 message) 0x47 ip = Some (config_front @ ip @ drop (length ip) (config_address @ config_back) @ 0 # drop 133 message)"
    using l assms by (simp add: wrn_def)
  then show ?thesis using l assms by (simp add: dvlco_datagram_def d rdn_def)
qed

text \<open>
  The datagram that configures the gateway: the template with the address of the host at its place. An
  address of fewer than eleven characters keeps the end of the one in the template behind it, so that the gateway
  gets another address.
\<close>

theorem config_datagram:
  assumes "length message = 1000" and "length ip \<le> 61"
  shows "dvlco_datagram ip message = Some (config_front @ ip @ drop (length ip) (config_address @ config_back)) \<and>
    (length ip < 11 \<longrightarrow> drop (length ip) config_address \<noteq> [])"
  using dvlco_eq [OF assms] by (simp add: config_address_def)

theorem config_datagram_witness:
  "dvlco_datagram (bytes ''10.0.0.1'') (replicate 1000 0x55) = Some (config_front @ bytes ''10.0.0.11.5'' @ config_back)"
proof -
  have "length (bytes ''10.0.0.1'') = 8" "length config_address = 11" by (simp_all add: config_address_def)
  moreover have "bytes ''10.0.0.1'' @ drop 8 config_address @ x = bytes ''10.0.0.11.5'' @ x" for x
    by (simp add: config_address_def bytes_def)
  ultimately show ?thesis
    using config_datagram [of "replicate 1000 0x55" "bytes ''10.0.0.1''"] unfolding drop_append by (simp del: length_bytes)
qed

text \<open>The address of the longest form, followed by nothing, is too long for the array.\<close>

lemma address_taken: "0x3A \<notin> set a \<Longrightarrow> 0 \<notin> set a \<Longrightarrow>
    takeWhile (\<lambda>c. c \<noteq> (0x3A :: byte) \<and> c \<noteq> 0) (a @ x) = a @ takeWhile (\<lambda>c. c \<noteq> 0x3A \<and> c \<noteq> 0) x"
  by (induction a) auto

lemma SetAddress_overflow:
  assumes "length a = 16" and "0x3A \<notin> set a" and "0 \<notin> set a"
  shows "SetAddress (a @ r) = None"
proof -
  have t: "takeWhile (\<lambda>c. c \<noteq> 0x3A \<and> c \<noteq> 0) a = a"
    using address_taken [OF assms(2,3), of "[]"] by (simp only: append_Nil2 takeWhile.simps)
  show ?thesis using assms(1) by (simp add: SetAddress_def MAXIP_def t)
qed

lemma SetAddress_parts:
  assumes "length a < 16" and "0x3A \<notin> set a" and "0 \<notin> set a"
  shows "SetAddress (a @ 0x3A # p) = Some (a, Some p)"
proof -
  have "take 16 (a @ 0x3A # p) = a @ 0x3A # take (15 - length a) p" using assms(1) by (simp add: take_Cons')
  then have "takeWhile (\<lambda>c. c \<noteq> 0x3A \<and> c \<noteq> 0) (take 16 (a @ 0x3A # p)) = a"
    using address_taken [OF assms(2,3), of "0x3A # take (15 - length a) p"] by simp
  then show ?thesis using assms(1) by (simp add: SetAddress_def MAXIP_def Let_def del: take_append)
qed

end
