(* ===== verification/Sockets.thy ===== *)
theory Sockets
  imports TcpClient
begin

text \<open>
  The sockets of the programs and their descriptors: \<open>server_init\<close> and \<open>server_end\<close> of \<open>ihaplite/tcpserver.c\<close>,
  \<open>net_connect\<close>, \<open>net_disconnect\<close> and \<open>receive_data\<close> of \<open>ihaplite/tcpclient.c\<close>, the functions of
  \<open>ihaplite/udpserver.c\<close> and the start of the task of a port (\<open>ihaplite/iptask.c\<close>).

  The process has a table of descriptors with a limit; \<open>socket\<close> takes the lowest free number and fails when there is none.
  Whether a port can be bound, listened on or connected to is an input, as are the datagrams.
\<close>

section \<open>Descriptors\<close>

record kernel =
  used :: "nat list"
  fd_limit :: nat

definition FD_SETSIZE :: nat where "FD_SETSIZE = 1024"

definition socket_call :: "kernel \<Rightarrow> int \<times> kernel" where
  "socket_call k = (case find (\<lambda>i. i \<notin> set (used k)) [0..<fd_limit k] of
     None \<Rightarrow> (-1, k) | Some i \<Rightarrow> (int i, k\<lparr>used := i # used k\<rparr>))"

definition close_call :: "int \<Rightarrow> kernel \<Rightarrow> int \<times> kernel" where
  "close_call s k = (if s < 0 \<or> nat s \<notin> set (used k) then (-1, k) else (0, k\<lparr>used := removeAll (nat s) (used k)\<rparr>))"

text \<open>\<open>select\<close> fails when it is asked for a descriptor that is not open.\<close>

definition select_fails :: "nat list \<Rightarrow> int \<Rightarrow> kernel \<Rightarrow> bool" where
  "select_fails fdset nfds k \<longleftrightarrow> (\<exists>fd\<in>set fdset. int fd < nfds \<and> fd \<notin> set (used k))"

section \<open>TCP\<close>

definition server_init_fd :: "bool \<Rightarrow> bool \<Rightarrow> kernel \<Rightarrow> int \<times> kernel" where
  "server_init_fd bind_ok listen_ok k =
     (let (s, k1) = socket_call k in
      if s < 0 then (-1, k1)
      else if \<not> bind_ok then (-1, k1)
      else if \<not> listen_ok then (-1, k1)
      else (s, k1))"

definition server_end :: "bool \<Rightarrow> int \<Rightarrow> kernel \<Rightarrow> int \<times> kernel" where
  "server_end shutdown_ok s k =
     (if \<not> shutdown_ok then (-1, k) else let (r, k1) = close_call s k in if r < 0 then (-1, k1) else (0, k1))"

text \<open>The descriptor 0 counts as a failure; the socket of a connection that fails stays open.\<close>

definition net_connect_fd :: "bool \<Rightarrow> int \<Rightarrow> bool \<Rightarrow> kernel \<Rightarrow> int \<times> kernel" where
  "net_connect_fd resolved prt connected k = (let (s, k1) = socket_call k in (net_connect s resolved prt connected, k1))"

definition net_disconnect :: "int \<Rightarrow> kernel \<Rightarrow> int \<times> kernel" where
  "net_disconnect s k = (0, snd (close_call s k))"

text \<open>
  The reader of \<open>receive_data\<close>. \<open>Ready None\<close> is the end of the connection, where \<open>read\<close> stores nothing. The test
  for the end of a line has a factor 0, so that only a full buffer ends the loop. The outer option is a fault, the
  inner one the wait for more.
\<close>

datatype ready = NotReady | Ready "byte option"

fun receive_data :: "ready list \<Rightarrow> nat \<Rightarrow> byte list \<Rightarrow> nat \<Rightarrow> (nat \<times> byte list) option option" where
  "receive_data [] maxlen cmd cmd_len = Some None"
| "receive_data (NotReady # xs) maxlen cmd cmd_len = receive_data xs maxlen cmd cmd_len"
| "receive_data (Ready r # xs) maxlen cmd cmd_len = do {
     cmd1 \<leftarrow> (case r of None \<Rightarrow> Some cmd | Some b \<Rightarrow> wr cmd cmd_len b);
     (if cmd_len + 1 = maxlen then Some (Some (cmd_len + 1, cmd1)) else receive_data xs maxlen cmd1 (cmd_len + 1))
   }"

text \<open>An answer without conversion.\<close>

definition respond :: "byte list \<Rightarrow> byte \<Rightarrow> byte list option" where
  "respond message len = (if len = 0 then Some [] else rdn message 0 (unat len))"

text \<open>
  The start of the task of a port: the call that empties the set of descriptors is the body of the test for an error, as
  the \<open>return\<close> before it is commented out. \<open>garbage\<close> is what the set holds before.
\<close>

definition iptask_fdset :: "int \<Rightarrow> nat list \<Rightarrow> nat list option" where
  "iptask_fdset s garbage = (let fdset = (if s < 0 then [] else garbage) in
     if s < 0 \<or> FD_SETSIZE \<le> nat s then None else Some (nat s # fdset))"

section \<open>UDP\<close>

definition MAX_VPS_UDP :: nat where "MAX_VPS_UDP = 2"

fun udp_open :: "int list \<Rightarrow> (int \<Rightarrow> bool) \<Rightarrow> int \<Rightarrow> nat list \<Rightarrow> kernel \<Rightarrow> (int \<times> nat list \<times> kernel) option" where
  "udp_open [] bind_ok fd_max fdset k = Some (fd_max, fdset, k)"
| "udp_open (p # ps) bind_ok fd_max fdset k =
     (let (s, k1) = socket_call k in
      if s < 0 then Some (-1, fdset, k1)
      else if \<not> bind_ok p then Some (-1, fdset, k1)
      else if FD_SETSIZE \<le> nat s then None
      else udp_open ps bind_ok s (nat s # fdset) k1)"

definition UDP_init :: "int list \<Rightarrow> (int \<Rightarrow> bool) \<Rightarrow> kernel \<Rightarrow> (int \<times> nat list \<times> kernel) option" where
  "UDP_init ports bind_ok k = (if length ports < MAX_VPS_UDP then None else udp_open (take MAX_VPS_UDP ports) bind_ok (-1) [] k)"

text \<open>
  What is there when \<open>select\<close> returns: for a descriptor the sender and the datagram. The loop receives one datagram of
  each descriptor of the set, in the order of the numbers, all into the same buffer; the last one stays. (The inner loop
  of \<open>UDP_listen\<close> copies a byte of the buffer to its own place.)
\<close>

type_synonym arrival = "nat \<times> string \<times> byte list"

definition ready_arrivals :: "nat list \<Rightarrow> int \<Rightarrow> arrival list \<Rightarrow> arrival list" where
  "ready_arrivals fdset fd_max as = sort_key fst (filter (\<lambda>a. fst a \<in> set fdset \<and> int (fst a) < fd_max + 1) as)"

fun recv_all :: "arrival list \<Rightarrow> nat \<Rightarrow> string \<Rightarrow> byte list \<Rightarrow> (nat \<times> string \<times> byte list) option" where
  "recv_all [] numbytes remote_ip buf = Some (numbytes, remote_ip, buf)"
| "recv_all ((fd, ip, d) # as) numbytes remote_ip buf = do {
     (n, buf1) \<leftarrow> get_ip_UDP_listen d buf;
     recv_all as n ip buf1
   }"

definition UDP_listen :: "nat list \<Rightarrow> int \<Rightarrow> arrival list \<Rightarrow> byte list \<Rightarrow> (nat \<times> byte list) option" where
  "UDP_listen fdset fd_max as buf = map_option (\<lambda>(n, _, b). (n, b)) (recv_all (ready_arrivals fdset fd_max as) 0 [] buf)"

text \<open>A broadcast ends the program when a call fails; its socket is closed again.\<close>

definition UDP_broadcast :: "bool \<Rightarrow> bool \<Rightarrow> kernel \<Rightarrow> (int \<times> kernel) option" where
  "UDP_broadcast setsockopt_ok sendto_ok k =
     (let (s, k1) = socket_call k in
      if s < 0 \<or> \<not> setsockopt_ok \<or> \<not> sendto_ok then None else Some (0, snd (close_call s k1)))"

text \<open>
  \<open>EventListen_local\<close> with its sockets, which are not closed when it returns. The first of the two ports is never set and
  is an input; the result of \<open>UDP_init\<close> is not looked at. \<open>rounds\<close> are the arrivals while it waits; without a
  descriptor to wait for, \<open>select\<close> never returns. The inner option of the result is the wait.
\<close>

fun listen_rounds :: "string \<Rightarrow> nat list \<Rightarrow> int \<Rightarrow> arrival list list \<Rightarrow> byte list \<Rightarrow> (nat \<times> byte list) option option" where
  "listen_rounds bridgeaddr fdset fd_max [] buf = Some None"
| "listen_rounds bridgeaddr fdset fd_max (as # rounds) buf =
     (if ready_arrivals fdset fd_max as = [] then listen_rounds bridgeaddr fdset fd_max rounds buf
      else do {
        (len, remote_ip, buf1) \<leftarrow> recv_all (ready_arrivals fdset fd_max as) 0 [] buf;
        (if remote_ip = bridgeaddr then Some (Some (len, buf1)) else listen_rounds bridgeaddr fdset fd_max rounds buf1)
      })"

definition EventListen_fd :: "string \<Rightarrow> int \<Rightarrow> int \<Rightarrow> (int \<Rightarrow> bool) \<Rightarrow> (nat list \<Rightarrow> arrival list list) \<Rightarrow> byte list \<Rightarrow> kernel \<Rightarrow>
    ((nat \<times> byte list) option \<times> kernel) option" where
  "EventListen_fd bridgeaddr port0 prt bind_ok rounds buf k = do {
     (fd_max, fdset, k1) \<leftarrow> UDP_init [port0, prt] bind_ok k;
     r \<leftarrow> listen_rounds bridgeaddr fdset fd_max (rounds fdset) buf;
     Some (r, k1)
   }"

text \<open>A sequence of such calls, one for each GET request for a service of the bridge, with their results.\<close>

record listen_request =
  lbridgeaddr :: string
  lport0 :: int
  lport :: int
  lrounds :: "nat list \<Rightarrow> arrival list list"
  lbuffer :: "byte list"

fun listens :: "listen_request list \<Rightarrow> (int \<Rightarrow> bool) \<Rightarrow> kernel \<Rightarrow> ((nat \<times> byte list) option list \<times> kernel) option" where
  "listens [] bind_ok k = Some ([], k)"
| "listens (q # qs) bind_ok k = do {
     (r, k1) \<leftarrow> EventListen_fd (lbridgeaddr q) (lport0 q) (lport q) bind_ok (lrounds q) (lbuffer q) k;
     (rs, k2) \<leftarrow> listens qs bind_ok k1;
     Some (r # rs, k2)
   }"

section \<open>The table of descriptors\<close>

definition kernel_ok :: "kernel \<Rightarrow> bool" where
  "kernel_ok k \<longleftrightarrow> distinct (used k) \<and> set (used k) \<subseteq> {0..<fd_limit k} \<and> fd_limit k \<le> FD_SETSIZE"

lemma socket_call_cases:
  assumes "kernel_ok k"
  shows "length (used k) < fd_limit k \<Longrightarrow> \<exists>i. socket_call k = (int i, k\<lparr>used := i # used k\<rparr>) \<and> i \<notin> set (used k) \<and>
      i < fd_limit k \<and> kernel_ok (k\<lparr>used := i # used k\<rparr>)"
    and "fd_limit k \<le> length (used k) \<Longrightarrow> socket_call k = (-1, k)"
proof -
  have c: "card (set (used k)) = length (used k)" "set (used k) \<subseteq> {0..<fd_limit k}"
    using assms distinct_card by (auto simp: kernel_ok_def)
  show "\<exists>i. socket_call k = (int i, k\<lparr>used := i # used k\<rparr>) \<and> i \<notin> set (used k) \<and> i < fd_limit k \<and> kernel_ok (k\<lparr>used := i # used k\<rparr>)"
    if "length (used k) < fd_limit k"
  proof -
    have "find (\<lambda>i. i \<notin> set (used k)) [0..<fd_limit k] \<noteq> None"
    proof
      assume "find (\<lambda>i. i \<notin> set (used k)) [0..<fd_limit k] = None"
      then have "{0..<fd_limit k} \<subseteq> set (used k)" by (auto simp: find_None_range)
      from card_mono [OF _ this] show False using that c(1) by simp
    qed
    then obtain i where i: "find (\<lambda>i. i \<notin> set (used k)) [0..<fd_limit k] = Some i" by blast
    then have "i < fd_limit k" "i \<notin> set (used k)" by (auto simp: find_Some_least)
    then show ?thesis using assms i by (auto simp: socket_call_def kernel_ok_def)
  qed
  show "socket_call k = (-1, k)" if "fd_limit k \<le> length (used k)"
  proof -
    have "set (used k) = {0..<fd_limit k}" using that c card_seteq [OF _ c(2)] by simp
    then have "find (\<lambda>i. i \<notin> set (used k)) [0..<fd_limit k] = None" by (auto simp: find_None_range)
    then show ?thesis by (simp add: socket_call_def)
  qed
qed

section \<open>Waiting for a datagram\<close>

lemma UDP_init_ok:
  assumes "kernel_ok k" and "length (used k) + 2 \<le> fd_limit k" and "bind_ok p0" and "bind_ok p"
  obtains i j where "UDP_init [p0, p] bind_ok k = Some (int j, [j, i], k\<lparr>used := j # i # used k\<rparr>)" and "i \<noteq> j"
    and "kernel_ok (k\<lparr>used := j # i # used k\<rparr>)"
proof -
  obtain i where i: "socket_call k = (int i, k\<lparr>used := i # used k\<rparr>)" "i < fd_limit k" "kernel_ok (k\<lparr>used := i # used k\<rparr>)"
    using socket_call_cases(1) [OF assms(1)] assms(2) by auto
  let ?k = "k\<lparr>used := i # used k\<rparr>"
  obtain j where j: "socket_call ?k = (int j, k\<lparr>used := j # i # used k\<rparr>)" "j \<noteq> i" "j < fd_limit k"
    "kernel_ok (k\<lparr>used := j # i # used k\<rparr>)"
    using socket_call_cases(1) [OF i(3)] assms(2) by auto
  have "\<not> FD_SETSIZE \<le> i" "\<not> FD_SETSIZE \<le> j" using assms(1) i(2) j(3) by (auto simp: kernel_ok_def)
  then show ?thesis using that [of j i] i j assms(3,4) by (simp add: UDP_init_def MAX_VPS_UDP_def numeral_2_eq_2)
qed

lemma UDP_init_exhausted:
  assumes "kernel_ok k" and "fd_limit k < length (used k) + 2" and "bind_ok p0"
  obtains fdset us where "UDP_init [p0, p] bind_ok k = Some (-1, fdset, k\<lparr>used := us\<rparr>)" and "length us = max (length (used k)) (fd_limit k)"
    and "kernel_ok (k\<lparr>used := us\<rparr>)"
proof (cases "length (used k) < fd_limit k")
  case True
  then obtain i where i: "socket_call k = (int i, k\<lparr>used := i # used k\<rparr>)" "i < fd_limit k" "kernel_ok (k\<lparr>used := i # used k\<rparr>)"
    using socket_call_cases(1) [OF assms(1)] by auto
  moreover have "socket_call (k\<lparr>used := i # used k\<rparr>) = (-1, k\<lparr>used := i # used k\<rparr>)"
    using socket_call_cases(2) [OF i(3)] assms(2) by simp
  moreover have "\<not> FD_SETSIZE \<le> i" using assms(1) i(2) by (auto simp: kernel_ok_def)
  ultimately show ?thesis
    using that [of "[i]" "i # used k"] True assms by (simp add: UDP_init_def MAX_VPS_UDP_def numeral_2_eq_2)
next
  case False
  then have "socket_call k = (-1, k)" using socket_call_cases(2) [OF assms(1)] by simp
  then show ?thesis using that [of "[]" "used k"] False assms by (simp add: UDP_init_def MAX_VPS_UDP_def numeral_2_eq_2)
qed

lemma no_descriptor_waits: "listen_rounds a fdset (-1) rounds buf = Some None"
  by (induction rounds) (auto simp: ready_arrivals_def)

lemma recv_all_ok: "MAXBUFLEN \<le> length buf \<Longrightarrow> \<exists>n' ip' buf'. recv_all as n ip buf = Some (n', ip', buf') \<and> length buf' = length buf"
proof (induction as arbitrary: n ip buf)
  case (Cons a as)
  obtain fd ip1 d where a: "a = (fd, ip1, d)" by (cases a)
  have "length (take (MAXBUFLEN - 1) d @ [0]) \<le> length buf" using Cons.prems by (simp add: MAXBUFLEN_def)
  then obtain buf1 where "wrn buf 0 (take (MAXBUFLEN - 1) d @ [0]) = Some buf1" "length buf1 = length buf"
    using wrn_length by (cases "wrn buf 0 (take (MAXBUFLEN - 1) d @ [0])") (auto simp: wrn_None_iff)
  then show ?case
    using Cons.IH [of buf1 "Suc (min (length d) (MAXBUFLEN - Suc 0))" ip1] Cons.prems a by (simp add: get_ip_UDP_listen_def Let_def)
qed simp

lemma listen_rounds_ok: "MAXBUFLEN \<le> length buf \<Longrightarrow> listen_rounds a fdset fd_max rounds buf \<noteq> None"
proof (induction rounds arbitrary: buf)
  case (Cons as rounds)
  show ?case using recv_all_ok [OF Cons.prems, of "ready_arrivals fdset fd_max as" 0 "[]"] Cons by fastforce
qed simp

text \<open>Datagrams that come one by one to the second socket.\<close>

definition one_by_one :: "(string \<times> byte list) list \<Rightarrow> nat list \<Rightarrow> arrival list list" where
  "one_by_one ds fdset = (case fdset of [] \<Rightarrow> [] | s # _ \<Rightarrow> map (\<lambda>d. [(s, d)]) ds)"

lemma listen_one_by_one: "listen_rounds a [j, i] (int j) (map (\<lambda>d. [(j, d)]) ds) buf = EventListen_local a ds buf"
proof (induction ds arbitrary: buf)
  case (Cons d ds)
  obtain ip x where "d = (ip, x)" by (cases d)
  then show ?case using Cons by (cases "get_ip_UDP_listen x buf") (auto simp: ready_arrivals_def)
qed simp

lemma EventListen_fd_cases:
  assumes "kernel_ok k" and "\<And>p. bind_ok p" and "MAXBUFLEN \<le> length buf"
  obtains r us where "EventListen_fd a p0 p bind_ok rounds buf k = Some (r, k\<lparr>used := us\<rparr>)" and "kernel_ok (k\<lparr>used := us\<rparr>)"
    and "length us = min (fd_limit k) (length (used k) + 2)"
    and "fd_limit k < length (used k) + 2 \<Longrightarrow> r = None"
    and "\<And>ds. length (used k) + 2 \<le> fd_limit k \<Longrightarrow> rounds = one_by_one ds \<Longrightarrow> EventListen_local a ds buf = Some r"
proof (cases "length (used k) + 2 \<le> fd_limit k")
  case True
  obtain i j where ij: "UDP_init [p0, p] bind_ok k = Some (int j, [j, i], k\<lparr>used := j # i # used k\<rparr>)" "i \<noteq> j"
    "kernel_ok (k\<lparr>used := j # i # used k\<rparr>)"
    using UDP_init_ok [where bind_ok = bind_ok, OF assms(1) True assms(2,2)] .
  obtain r where "listen_rounds a [j, i] (int j) (rounds [j, i]) buf = Some r" using listen_rounds_ok [OF assms(3)] by blast
  moreover from this have "EventListen_local a ds buf = Some r" if "rounds = one_by_one ds" for ds
    using that by (simp add: one_by_one_def listen_one_by_one)
  ultimately show ?thesis using that [of r "j # i # used k"] ij True by (simp add: EventListen_fd_def)
next
  case False
  then have f: "fd_limit k < length (used k) + 2" by simp
  have "length (used k) \<le> fd_limit k"
    using assms(1) distinct_card [of "used k"] card_mono [of "{0..<fd_limit k}" "set (used k)"] by (simp add: kernel_ok_def)
  moreover obtain fdset us where "UDP_init [p0, p] bind_ok k = Some (-1, fdset, k\<lparr>used := us\<rparr>)"
    "length us = max (length (used k)) (fd_limit k)" "kernel_ok (k\<lparr>used := us\<rparr>)"
    using UDP_init_exhausted [where bind_ok = bind_ok, OF assms(1) f assms(2)] .
  ultimately show ?thesis
    using that [of None us] False by (simp add: EventListen_fd_def no_descriptor_waits)
qed

lemma listens_eq:
  assumes "kernel_ok k" and "\<And>p. bind_ok p" and "\<forall>q\<in>set qs. MAXBUFLEN \<le> length (lbuffer q)"
  shows "\<exists>rs k'. listens qs bind_ok k = Some (rs, k') \<and> length rs = length qs \<and>
    length (used k') = min (fd_limit k) (length (used k) + 2 * length qs) \<and>
    (\<forall>i<length qs. if length (used k) + 2 * i + 2 \<le> fd_limit k
       then (\<forall>ds. lrounds (qs ! i) = one_by_one ds \<longrightarrow> EventListen_local (lbridgeaddr (qs ! i)) ds (lbuffer (qs ! i)) = Some (rs ! i))
       else rs ! i = None)"
  using assms
proof (induction qs arbitrary: k)
  case Nil
  then have "length (used k) \<le> fd_limit k"
    using distinct_card [of "used k"] card_mono [of "{0..<fd_limit k}" "set (used k)"] by (simp add: kernel_ok_def)
  then show ?case by simp
next
  case (Cons q qs)
  obtain r us where r: "EventListen_fd (lbridgeaddr q) (lport0 q) (lport q) bind_ok (lrounds q) (lbuffer q) k = Some (r, k\<lparr>used := us\<rparr>)"
    "kernel_ok (k\<lparr>used := us\<rparr>)" "length us = min (fd_limit k) (length (used k) + 2)"
    "fd_limit k < length (used k) + 2 \<Longrightarrow> r = None"
    "\<And>ds. length (used k) + 2 \<le> fd_limit k \<Longrightarrow> lrounds q = one_by_one ds \<Longrightarrow> EventListen_local (lbridgeaddr q) ds (lbuffer q) = Some r"
    by (rule EventListen_fd_cases [where bind_ok = bind_ok, OF Cons.prems(1,2)]) (use Cons.prems(3) in auto)
  have "\<forall>q\<in>set qs. MAXBUFLEN \<le> length (lbuffer q)" using Cons.prems(3) by simp
  from Cons.IH [OF r(2) Cons.prems(2) this] obtain rs k' where IH: "listens qs bind_ok (k\<lparr>used := us\<rparr>) = Some (rs, k')"
    "length rs = length qs" "length (used k') = min (fd_limit k) (length us + 2 * length qs)"
    "\<And>i. i < length qs \<Longrightarrow> if length us + 2 * i + 2 \<le> fd_limit k
       then (\<forall>ds. lrounds (qs ! i) = one_by_one ds \<longrightarrow> EventListen_local (lbridgeaddr (qs ! i)) ds (lbuffer (qs ! i)) = Some (rs ! i))
       else rs ! i = None"
    by auto
  have "if length (used k) + 2 * i + 2 \<le> fd_limit k
       then (\<forall>ds. lrounds ((q # qs) ! i) = one_by_one ds \<longrightarrow>
         EventListen_local (lbridgeaddr ((q # qs) ! i)) ds (lbuffer ((q # qs) ! i)) = Some ((r # rs) ! i))
       else (r # rs) ! i = None" if "i < length (q # qs)" for i
  proof (cases i)
    case 0
    then show ?thesis using r(4,5) by auto
  next
    case (Suc n)
    then have "length us + 2 * n + 2 \<le> fd_limit k \<longleftrightarrow> length (used k) + 2 * i + 2 \<le> fd_limit k" using r(3) by auto
    then show ?thesis using IH(4) [of n] Suc that by simp
  qed
  moreover have "min (fd_limit k) (length us + 2 * length qs) = min (fd_limit k) (length (used k) + 2 * length (q # qs))"
    using r(3) by auto
  ultimately show ?case using r(1) IH(1-3) by simp
qed

section \<open>The properties\<close>

text \<open>
  C33. Every wait for a datagram of the bridge opens two sockets and closes none. In a sequence of such calls, the
  table of descriptors fills up: while it has room for both sockets, a call on whose port the datagrams come
  one by one gives what \<open>EventListen_local\<close> gives for them; from then on no call returns, whatever arrives.
\<close>

theorem bridge_reads_run_out:
  assumes "kernel_ok k" and "\<And>p. bind_ok p" and "\<forall>q\<in>set qs. MAXBUFLEN \<le> length (lbuffer q)"
  shows "\<exists>rs k'. listens qs bind_ok k = Some (rs, k') \<and> length rs = length qs \<and>
    length (used k') = min (fd_limit k) (length (used k) + 2 * length qs) \<and>
    (\<forall>i<length qs. if length (used k) + 2 * i + 2 \<le> fd_limit k
       then (\<forall>ds. lrounds (qs ! i) = one_by_one ds \<longrightarrow> EventListen_local (lbridgeaddr (qs ! i)) ds (lbuffer (qs ! i)) = Some (rs ! i))
       else rs ! i = None)"
  using listens_eq [where bind_ok = bind_ok, OF assms] .

definition demo_listen :: listen_request where
  "demo_listen = \<lparr>lbridgeaddr = ''10.0.0.1'', lport0 = 0, lport = 10001, lrounds = one_by_one [(''10.0.0.1'', [0x41])],
     lbuffer = replicate 512 0\<rparr>"

theorem bridge_reads_run_out_witness:
  "\<exists>rs k'. listens (replicate 511 demo_listen) (\<lambda>p. True) \<lparr>used = [0, 1, 2, 3], fd_limit = 1024\<rparr> = Some (rs, k') \<and>
    map_option fst (rs ! 509) = Some 2 \<and> rs ! 510 = None \<and> length (used k') = 1024"
proof -
  let ?k = "\<lparr>used = [0, 1, 2, 3], fd_limit = 1024\<rparr>"
  define qs where "qs = replicate 511 demo_listen"
  have q: "length qs = 511" "\<And>i. i < 511 \<Longrightarrow> qs ! i = demo_listen" "set qs \<subseteq> {demo_listen}" by (auto simp: qs_def)
  have "kernel_ok ?k" by (simp add: kernel_ok_def FD_SETSIZE_def)
  moreover have "\<forall>q\<in>set qs. MAXBUFLEN \<le> length (lbuffer q)" using q(3) by (auto simp: demo_listen_def MAXBUFLEN_def)
  ultimately have "\<exists>rs k'. listens qs (\<lambda>p. True) ?k = Some (rs, k') \<and> length rs = length qs \<and>
    length (used k') = min (fd_limit ?k) (length (used ?k) + 2 * length qs) \<and>
    (\<forall>i<length qs. if length (used ?k) + 2 * i + 2 \<le> fd_limit ?k
       then (\<forall>ds. lrounds (qs ! i) = one_by_one ds \<longrightarrow> EventListen_local (lbridgeaddr (qs ! i)) ds (lbuffer (qs ! i)) = Some (rs ! i))
       else rs ! i = None)"
    by (intro bridge_reads_run_out) simp_all
  then obtain rs k' where r: "listens qs (\<lambda>p. True) ?k = Some (rs, k')" "length (used k') = 1024"
    "\<And>i. i < 511 \<Longrightarrow> if 4 + 2 * i + 2 \<le> 1024
       then (\<forall>ds. lrounds (qs ! i) = one_by_one ds \<longrightarrow> EventListen_local (lbridgeaddr (qs ! i)) ds (lbuffer (qs ! i)) = Some (rs ! i))
       else rs ! i = None"
    by (elim exE conjE) (simp add: q(1))
  have "\<forall>ds. lrounds demo_listen = one_by_one ds \<longrightarrow> EventListen_local (lbridgeaddr demo_listen) ds (lbuffer demo_listen) = Some (rs ! 509)"
    using r(3) [of 509] q(2) [of 509] by simp
  from this [rule_format, of "[(''10.0.0.1'', [0x41])]"]
  have "EventListen_local ''10.0.0.1'' [(''10.0.0.1'', [0x41])] (replicate 512 0) = Some (rs ! 509)"
    by (simp only: demo_listen_def listen_request.simps)
  moreover have "get_ip_UDP_listen [0x41] (replicate 512 0) = Some (2, [0x41, 0] @ drop 2 (replicate 512 0))"
    by (simp add: get_ip_UDP_listen_def MAXBUFLEN_def wrn_def)
  ultimately have "Some (2, [0x41, 0] @ drop 2 (replicate 512 0)) = rs ! 509" by (simp del: append.simps drop_replicate)
  then have "map_option fst (rs ! 509) = Some 2" by (metis fst_conv option.map(2))
  moreover have "rs ! 510 = None" using r(3) [of 510] by simp
  ultimately show ?thesis using r(1,2) unfolding qs_def by blast
qed

text \<open>
  A connection that is made and closed gives its descriptor back; one that fails after the socket was made
  does not, and neither does a server whose port cannot be bound.
\<close>

theorem descriptors_balance:
  assumes "kernel_ok k" and "length (used k) < fd_limit k" and "0 \<in> set (used k)"
  shows "(resolved \<and> prt \<noteq> 0 \<and> connected \<longrightarrow> (\<exists>s k1. net_connect_fd resolved prt connected k = (s, k1) \<and> 0 < s \<and>
      snd (net_disconnect s k1) = k)) \<and>
    (\<not> (resolved \<and> prt \<noteq> 0 \<and> connected) \<longrightarrow> fst (net_connect_fd resolved prt connected k) \<le> 0 \<and>
      length (used (snd (net_connect_fd resolved prt connected k))) = length (used k) + 1) \<and>
    (bind_ok \<and> listen_ok \<longrightarrow> (\<exists>s k1. server_init_fd bind_ok listen_ok k = (s, k1) \<and> server_end True s k1 = (0, k))) \<and>
    (\<not> (bind_ok \<and> listen_ok) \<longrightarrow> fst (server_init_fd bind_ok listen_ok k) = -1 \<and>
      length (used (snd (server_init_fd bind_ok listen_ok k))) = length (used k) + 1)"
proof -
  obtain i where i: "socket_call k = (int i, k\<lparr>used := i # used k\<rparr>)" "i \<notin> set (used k)"
    using socket_call_cases(1) [OF assms(1,2)] by blast
  then have "0 < i" using assms(3) by (cases i) auto
  moreover have "close_call (int i) (k\<lparr>used := i # used k\<rparr>) = (0, k)" using i(2) by (simp add: close_call_def)
  ultimately show ?thesis
    by (auto simp: net_connect_fd_def net_connect_def net_disconnect_def server_init_fd_def server_end_def i(1))
qed

theorem descriptors_balance_witness:
  "\<exists>s k1. net_connect_fd True 80 True \<lparr>used = [0], fd_limit = 8\<rparr> = (s, k1) \<and> snd (net_disconnect s k1) = \<lparr>used = [0], fd_limit = 8\<rparr>"
  using descriptors_balance [of "\<lparr>used = [0], fd_limit = 8\<rparr>" True 80 True True True] by (auto simp: kernel_ok_def FD_SETSIZE_def)

text \<open>
  The set of descriptors of a port that starts well is not emptied: a bit of a closed descriptor below the socket
  makes every \<open>select\<close> of the task fail.
\<close>

theorem iptask_never_accepts:
  assumes "fd \<in> set garbage" and "int fd < s" and "fd \<notin> set (used k)" and "s < int FD_SETSIZE"
  shows "\<exists>fdset. iptask_fdset s garbage = Some fdset \<and> select_fails fdset (s + 1) k"
  using assms by (auto simp: iptask_fdset_def select_fails_def intro!: bexI [of _ fd])

text \<open>\<open>receive_data\<close> returns only when as many bytes as it was asked for have come; the end of a connection counts as bytes.\<close>

lemma receive_data_waits:
  "length (filter (\<lambda>x. x \<noteq> NotReady) xs) + cmd_len < maxlen \<Longrightarrow> maxlen \<le> length cmd \<Longrightarrow> receive_data xs maxlen cmd cmd_len = Some None"
proof (induction xs arbitrary: cmd cmd_len)
  case (Cons x xs)
  show ?case
  proof (cases x)
    case (Ready r)
    then obtain cmd1 where c: "(case r of None \<Rightarrow> Some cmd | Some b \<Rightarrow> wr cmd cmd_len b) = Some cmd1" "length cmd1 = length cmd"
      using Cons.prems by (cases r) (auto simp: wr_def)
    have "receive_data xs maxlen cmd1 (cmd_len + 1) = Some None" using Cons Ready c(2) by simp
    then show ?thesis using Ready Cons.prems c(1) by simp
  qed (use Cons in simp)
qed simp

theorem receive_data_line:
  "receive_data (map (\<lambda>b. Ready (Some b)) (bytes ''OK'' @ [0x0D, 0x0A])) 100 (replicate 100 0) 0 = Some None"
  by (rule receive_data_waits) simp_all

end
