(* ===== verification/GwPrograms.thy ===== *)
theory GwPrograms
  imports GwConfig Sockets
begin

text \<open>
  The two programs of \<open>DGWconfig\<close>: \<open>dvlcoauto.c\<close>, which sends the datagram of theory GwConfig to the gateway, and
  \<open>listener.c\<close>, which prints one datagram that comes to the port. The descriptors are those of theory Sockets; what
  the other system calls return is an input.
\<close>

section \<open>Sending the configuration\<close>

text \<open>
  What the system returns: whether the port is bound (the address is bound with a family that is never set), whether
  the option is set and the datagram sent, and \<open>errno\<close>; \<open>inet_addr\<close> and \<open>atoi\<close> read a text.
\<close>

record net_env =
  bind_ok :: bool
  setsockopt_ok :: bool
  sendto_ok :: bool
  errno :: int
  inet_addr :: "byte list \<Rightarrow> 32 word"
  atoi :: "byte list \<Rightarrow> int"

text \<open>How a program ends: with a value, or through \<open>exit\<close>.\<close>

datatype 'a ending = Ended 'a | Exit int

text \<open>The socket stays open. The datagram goes to the address and port in the second component.\<close>

type_synonym sent = "32 word \<times> 16 word \<times> byte list"

definition UDP_broadcast_gw :: "net_env \<Rightarrow> byte list \<Rightarrow> int \<Rightarrow> byte list \<Rightarrow> kernel \<Rightarrow> sent list \<times> int ending \<times> kernel" where
  "UDP_broadcast_gw e gwaddr prt message k =
     (let (fd, k1) = socket_call k in
      if fd < 0 then ([], Exit 1, k1)
      else if \<not> bind_ok e then ([], Exit (errno e), k1)
      else if \<not> setsockopt_ok e then ([], Exit 1, k1)
      else if \<not> sendto_ok e then ([], Exit 1, k1)
      else ([(inet_addr e gwaddr, word_of_int prt, message)], Ended 0, k1))"

text \<open>
  The arguments after the name of the program; their number is not looked at. \<open>memcmp\<close> compares six bytes, of
  which \<open>--help\<close> has no terminator, so that a shorter argument differs within its own bytes. \<open>message\<close> is the array
  on the stack.
\<close>

definition dvlco_main :: "net_env \<Rightarrow> byte list list \<Rightarrow> byte list \<Rightarrow> kernel \<Rightarrow> (sent list \<times> int ending \<times> kernel) option" where
  "dvlco_main e args message k = (case args of
     [] \<Rightarrow> None
   | p # rest \<Rightarrow>
       if take 6 p = bytes ''--help'' then Some ([], Ended 0, k)
       else (case rest of
         local_ip # gwaddr # _ \<Rightarrow> do { d \<leftarrow> dvlco_datagram local_ip message; Some (UDP_broadcast_gw e gwaddr (atoi e p) d k) }
       | _ \<Rightarrow> None))"

section \<open>Listening\<close>

text \<open>
  The addresses that \<open>getaddrinfo\<close> gives, each with whether a socket of its family can be made and bound; the
  first that can is used.
\<close>

fun bind_first :: "(bool \<times> bool) list \<Rightarrow> kernel \<Rightarrow> int option \<times> kernel" where
  "bind_first [] k = (None, k)"
| "bind_first ((family, bound) # ps) k =
     (let (fd, k1) = (if family then socket_call k else (-1, k)) in
      if fd = -1 then bind_first ps k1
      else if \<not> bound then bind_first ps (snd (close_call fd k1))
      else (Some fd, k1))"

text \<open>
  \<open>rv\<close> is the result of \<open>getaddrinfo\<close>, which is tested for one of its errors only; with another one the list is a
  pointer that was never set. \<open>received\<close> is the datagram, or nothing when the call fails. The result has the text that is
  printed.
\<close>

definition MAXBUFLEN_listener :: nat where "MAXBUFLEN_listener = 100"

definition listener_main :: "int \<Rightarrow> (bool \<times> bool) list \<Rightarrow> byte list option \<Rightarrow> byte list \<Rightarrow> kernel \<Rightarrow>
    (byte list option \<times> int ending \<times> kernel) option" where
  "listener_main rv servinfo received buf k =
     (if rv = -1 then Some (None, Ended 1, k)
      else if rv \<noteq> 0 then None
      else let (sockfd, k1) = bind_first servinfo k in
      case sockfd of
        None \<Rightarrow> Some (None, Ended 2, k1)
      | Some s \<Rightarrow> (case received of
          None \<Rightarrow> Some (None, Exit 1, k1)
        | Some d \<Rightarrow> do {
            b1 \<leftarrow> wrn buf 0 (take (MAXBUFLEN_listener - 1) d);
            b2 \<leftarrow> wr b1 (length (take (MAXBUFLEN_listener - 1) d)) 0;
            t \<leftarrow> cstr b2 0;
            Some (Some t, Ended 0, snd (close_call s k1))
          }))"

section \<open>Properties\<close>

lemma close_new: "i \<notin> set (used k) \<Longrightarrow> close_call (int i) (k\<lparr>used := i # used k\<rparr>) = (0, k)"
  by (simp add: close_call_def)

lemma bind_first_eq:
  assumes "kernel_ok k" and "length (used k) < fd_limit k"
  shows "if \<exists>p\<in>set ps. fst p \<and> snd p
    then \<exists>i. bind_first ps k = (Some (int i), k\<lparr>used := i # used k\<rparr>) \<and> i \<notin> set (used k)
    else bind_first ps k = (None, k)"
proof (induction ps)
  case (Cons p ps)
  obtain i where i: "socket_call k = (int i, k\<lparr>used := i # used k\<rparr>)" "i \<notin> set (used k)"
    using socket_call_cases(1) [OF assms] by blast
  obtain f b where "p = (f, b)" by (cases p)
  then show ?case using Cons.IH i(1) i(2) by (cases f; cases b) (auto simp: close_new [OF i(2)])
qed simp

lemma bind_first_full: "fd_limit k \<le> length (used k) \<Longrightarrow> kernel_ok k \<Longrightarrow> bind_first ps k = (None, k)"
  by (induction ps) (auto simp: socket_call_cases(2))

lemma printed_datagram:
  assumes "length buf = 100" and "t = take 99 d"
  shows "do { b1 \<leftarrow> wrn buf 0 t; b2 \<leftarrow> wr b1 (length t) 0; cstr b2 0 } = Some (takeWhile (\<lambda>c. c \<noteq> 0) t)"
proof -
  have l: "length t < length buf" using assms by simp
  then have w: "wrn buf 0 t = Some (t @ drop (length t) buf)" by (simp add: wrn_def)
  have "drop (length t) buf = buf ! length t # drop (Suc (length t)) buf" using l by (simp add: Cons_nth_drop_Suc)
  then have "wr (t @ drop (length t) buf) (length t) 0 = Some (t @ 0 # drop (Suc (length t)) buf)"
    using l by (simp add: wr_def list_update_append)
  moreover have "cstr (t @ 0 # r) 0 = Some (takeWhile (\<lambda>c. c \<noteq> 0) t)" for r
    by (simp add: cstr_def, induction t) auto
  ultimately show ?thesis by (simp add: w)
qed

text \<open>
  The listener with a descriptor left: it prints the text at the start of the datagram, at most 99 bytes and up to the first
  zero, when one of the addresses can be bound, and its descriptors are then as before; when the call fails with another
  code than the one that is tested, it reads a pointer that was never set.
\<close>

theorem listener_prints:
  assumes "kernel_ok k" and "length (used k) < fd_limit k" and "length buf = 100"
  shows "listener_main 0 servinfo (Some d) buf k =
      (if \<exists>p\<in>set servinfo. fst p \<and> snd p then Some (Some (takeWhile (\<lambda>c. c \<noteq> 0) (take 99 d)), Ended 0, k) else Some (None, Ended 2, k))"
proof (cases "\<exists>p\<in>set servinfo. fst p \<and> snd p")
  case True
  then obtain i where i: "bind_first servinfo k = (Some (int i), k\<lparr>used := i # used k\<rparr>)" "i \<notin> set (used k)"
    using bind_first_eq [OF assms(1,2), of servinfo] by auto
  obtain b1 b2 where "wrn buf 0 (take 99 d) = Some b1" "wr b1 (length (take 99 d)) 0 = Some b2" "cstr b2 0 = Some (takeWhile (\<lambda>c. c \<noteq> 0) (take 99 d))"
    using printed_datagram [OF assms(3) refl, of d] by (auto simp del: length_take split: bind_splits)
  then show ?thesis using True i by (simp add: listener_main_def MAXBUFLEN_listener_def close_new)
next
  case False
  then show ?thesis using bind_first_eq [OF assms(1,2), of servinfo] by (auto simp: listener_main_def)
qed

lemma listener_unset_list: "rv \<noteq> 0 \<Longrightarrow> rv \<noteq> -1 \<Longrightarrow> listener_main rv servinfo received buf k = None"
  by (simp add: listener_main_def)

lemma listener_no_descriptor:
  "kernel_ok k \<Longrightarrow> fd_limit k \<le> length (used k) \<Longrightarrow> listener_main 0 servinfo received buf k = Some (None, Ended 2, k)"
  by (simp add: listener_main_def bind_first_full)

text \<open>
  The configuration program: one datagram with the address of the host goes to the gateway, when the system lets it; a
  call with too few arguments is a crash.
\<close>

theorem dvlco_sends:
  assumes "kernel_ok k" and "length (used k) < fd_limit k" and "length message = 1000" and "length ip \<le> 61"
    and "take 6 p \<noteq> bytes ''--help''" and "bind_ok e" and "setsockopt_ok e" and "sendto_ok e"
  shows "\<exists>k1. dvlco_main e (p # ip # gw # rest) message k =
      Some ([(inet_addr e gw, word_of_int (atoi e p), config_front @ ip @ drop (length ip) (config_address @ config_back))], Ended 0, k1)"
    and "dvlco_main e [] message k = None" and "dvlco_main e [p] message k = None" and "dvlco_main e [p, ip] message k = None"
  using socket_call_cases(1) [OF assms(1,2)] assms(5-8)
  by (auto simp: dvlco_main_def dvlco_eq [OF assms(3,4)] UDP_broadcast_gw_def)

end
