(* ===== verification/ClientCommands.thy ===== *)
theory ClientCommands
  imports PutClient
begin

text \<open>
  The commands of \<open>hpclientPUT/mainPUT.c\<close>: \<open>XML\<close> prints the description of a service, \<open>GET\<close> reads its value, and \<open>PUT\<close>
  is the request of theory PutClient. \<open>argv\<close> has the arguments without the name of the program; an argument that
  is missing is a null pointer, which faults where it is used, as the \<open>exit\<close> of the tests is no call.

  \<open>fetch\<close> is the transfer of a URL: the chunks of the answer and the code of libcurl.
\<close>

datatype command_result =
  Xml_printed "byte list" "string option"
| Value_read "byte list"
| Put_done "byte list" "byte list option"
| Unsupported

definition argument :: "byte list list \<Rightarrow> nat \<Rightarrow> byte list option" where
  "argument argv i = (if 0 < i \<and> i \<le> length argv then Some (argv ! (i - 1)) else None)"

text \<open>The URL of \<open>GET\<close>, as that of \<open>PUT\<close>, is in the file when it starts with \<open>FILE\<close>.\<close>

definition url_argument :: "put_env \<Rightarrow> byte list \<Rightarrow> byte list option" where
  "url_argument e a = do {
     url \<leftarrow> (if take 4 a = bytes ''FILE'' then map_option snd (load_file_into_buffer (url_file e) (zeros 255)) else strcpy (zeros 255) a);
     cstr url 0
   }"

text \<open>
  \<open>null_ok\<close> says whether the parser of Mini-XML survives the null pointer that a failed transfer gives it. The value
  that \<open>GET\<close> reads is not printed.
\<close>

definition client_main :: "put_env \<Rightarrow> bool \<Rightarrow> (byte list \<Rightarrow> string list \<times> int) \<Rightarrow> byte list list \<Rightarrow> recv list \<Rightarrow> CBC \<Rightarrow> command_result option" where
  "client_main e null_ok fetch argv xs get_cbc = do {
     c \<leftarrow> argument argv 1;
     (if take 3 c = bytes ''XML'' then do {
        a \<leftarrow> argument argv 2;
        url \<leftarrow> strcat (zeros 255) a;
        url1 \<leftarrow> strcat url (bytes ''?x=1'');
        u \<leftarrow> cstr url1 0;
        (d, _) \<leftarrow> http_get_function (fst (fetch u)) (snd (fetch u)) get_cbc;
        Some (Xml_printed u d)
      }
      else if take 3 c = bytes ''GET'' then do {
        a \<leftarrow> argument argv 2;
        u \<leftarrow> url_argument e a;
        (d, _) \<leftarrow> http_get_function (fst (fetch u)) (snd (fetch u)) get_cbc;
        (if d = None \<and> \<not> null_ok then None else Some (Value_read u))
      }
      else if c = bytes ''PUT'' then do {
        a \<leftarrow> argument argv 2;
        v \<leftarrow> argument argv 3;
        (sent, val) \<leftarrow> put_main e a v xs;
        Some (Put_done sent val)
      }
      else Some Unsupported)
   }"

section \<open>Properties\<close>

lemma strcat_zeros:
  assumes "0 \<notin> set t" and "length t + length s < n" and "0 \<notin> set s"
  shows "strcat (t @ zeros (n - length t)) s = Some ((t @ s) @ zeros (n - length (t @ s)))"
proof -
  define k where "k = n - length t - 1"
  have k: "n - length t = Suc k" "length s \<le> k" using assms(2) by (auto simp: k_def)
  have z: "zeros (n - length t) = 0 # zeros k" by (simp add: k(1) zeros_def)
  have nul: "cstr (t @ 0 # zeros k) 0 = Some t" using cstr_append [of t "[]" "zeros k"] assms(1) by simp
  have "drop (Suc (length s)) (0 # zeros k) = zeros (k - length s)" by (simp add: zeros_def)
  then have "strcat (t @ 0 # zeros k) s = Some (t @ s @ 0 # zeros (k - length s))"
    using nul k(2) by (simp add: strcat_def wrn_def) (simp add: zeros_def)
  moreover have "zeros (n - length (t @ s)) = 0 # zeros (k - length s)"
    using k by (simp add: zeros_def k_def Suc_diff_le flip: replicate_Suc)
  ultimately show ?thesis by (simp add: z)
qed

lemma strcat_first: "length s < n \<Longrightarrow> 0 \<notin> set s \<Longrightarrow> strcat (zeros n) s = Some (s @ zeros (n - length s))"
  using strcat_zeros [of "[]" s n] by simp

text \<open>
  What each command does. \<open>XML\<close> asks for the description of the page and prints the answer, when the transfer succeeds and
  the answer fits into the 2048 bytes of the buffer; \<open>GET\<close> ends without printing; \<open>PUT\<close> is the request of the value; a
  command without its argument crashes.
\<close>

theorem client_commands:
  assumes "length b = 2048" and "0 \<notin> set a" and "length a < 250"
  shows "client_main e ok fetch [bytes ''XML'', a] xs (init_curl b) = Some (Xml_printed (a @ bytes ''?x=1'')
      (let (chunks, fin) = fetch (a @ bytes ''?x=1'') in
       if fin = CURLE_OK \<and> length (concat chunks) \<le> 2048 then Some (takeWhile (\<lambda>x. x \<noteq> CHR 0x00) (concat chunks)) else None))" (is ?xml)
    and "take 4 a \<noteq> bytes ''FILE'' \<Longrightarrow> client_main e True fetch [bytes ''GET'', a] xs (init_curl b) = Some (Value_read a)"
    and "client_main e ok fetch [bytes ''PUT'', a, v] xs (init_curl b) = map_option (\<lambda>(s, r). Put_done s r) (put_main e a v xs)"
    and "c \<in> {bytes ''XML'', bytes ''GET'', bytes ''PUT''} \<Longrightarrow> client_main e ok fetch [c] xs (init_curl b) = None"
proof -
  let ?q = "bytes ''?x=1''"
  have q: "length ?q = 4" "0 \<notin> set ?q" by (simp_all add: bytes_def)
  have cmd: "take 3 (bytes ''XML'') = bytes ''XML''" "bytes ''GET'' \<noteq> bytes ''XML''" "bytes ''PUT'' \<noteq> bytes ''XML''" "bytes ''PUT'' \<noteq> bytes ''GET''"
    "take 3 (bytes ''GET'') = bytes ''GET''" "take 3 (bytes ''PUT'') = bytes ''PUT''"
    by (simp_all add: bytes_def)
  have cat: "strcat (zeros 255) a = Some (a @ zeros (255 - length a))"
    "strcat (a @ zeros (255 - length a)) ?q = Some ((a @ ?q) @ zeros (255 - length (a @ ?q)))"
    using strcat_first [of a 255] strcat_zeros [of a ?q 255] assms(2,3) q by simp_all
  have z: "zeros (255 - length (a @ ?q)) = 0 # zeros (254 - length (a @ ?q))" "zeros (255 - length a) = 0 # zeros (254 - length a)"
    using assms(3) q(1) by (simp_all add: zeros_def flip: replicate_Suc)
  have url: "cstr ((a @ ?q) @ zeros (255 - length (a @ ?q))) 0 = Some (a @ ?q)"
    unfolding z(1) using cstr_append [of "a @ ?q" "[]"] assms(2) q(2) by simp
  then have url1: "cstr (a @ ?q @ zeros (251 - length a)) 0 = Some (a @ ?q)" using q(1) by simp
  obtain chunks fin where f: "fetch (a @ ?q) = (chunks, fin)" by force
  obtain d c1 where get: "http_get_function chunks fin (init_curl b) = Some (d, c1)"
    "d = (if fin = CURLE_OK \<and> length (concat chunks) \<le> 2048 then Some (takeWhile (\<lambda>x. x \<noteq> CHR 0x00) (concat chunks)) else None)"
    using http_get_eq [of "init_curl b" chunks fin] init_curl_ok [OF assms(1)] by auto
  show ?xml
    by (simp add: client_main_def argument_def cmd cat url1 f get q(1))
  show "client_main e True fetch [bytes ''GET'', a] xs (init_curl b) = Some (Value_read a)" if "take 4 a \<noteq> bytes ''FILE''"
  proof -
    have "strcpy (zeros 255) a = Some (a @ zeros (255 - length a))"
      using assms(3) by (simp add: strcpy_def wrn_def zeros_def flip: replicate_Suc)
    moreover have "cstr (a @ zeros (255 - length a)) 0 = Some a" unfolding z(2) using cstr_append [of a "[]"] assms(2) by simp
    ultimately have "url_argument e a = Some a" using that by (simp add: url_argument_def)
    moreover obtain d2 c2 where "http_get_function (fst (fetch a)) (snd (fetch a)) (init_curl b) = Some (d2, c2)"
      using http_get_eq [of "init_curl b" "fst (fetch a)" "snd (fetch a)"] init_curl_ok [OF assms(1)] by auto
    ultimately show ?thesis by (simp add: client_main_def argument_def cmd)
  qed
  show "client_main e ok fetch [bytes ''PUT'', a, v] xs (init_curl b) = map_option (\<lambda>(s, r). Put_done s r) (put_main e a v xs)"
    by (cases "put_main e a v xs") (auto simp: client_main_def argument_def cmd)
  show "client_main e ok fetch [c] xs (init_curl b) = None" if "c \<in> {bytes ''XML'', bytes ''GET'', bytes ''PUT''}"
    using that cmd by (auto simp: client_main_def argument_def)
qed

end
