(* ===== verification/ExampleProgram.thy ===== *)
theory ExampleProgram
  imports Gateway
begin

text \<open>
  The example program of the library (\<open>hpbridge/examples/hpd-example.c\<close>, without HTTPS): two lamps and two switches of one
  device, which are registered, unregistered at the end, and never destroyed.
\<close>

section \<open>Adapters\<close>

definition get_lamp :: "int \<times> string" where "get_lamp = (1, ''0'')"
definition put_lamp :: "string \<Rightarrow> int \<times> string" where "put_lamp put_value = (1, ''0'')"
definition get_switch :: "int \<times> string" where "get_switch = (1, ''0'')"

section \<open>The program\<close>

text \<open>
  The types are literals, at the addresses 0 and 1. The functions of the adapters are numbered: 0 lamp, 1 switch. Each
  service has a parameter of its own, created before it.
\<close>

definition example_strings :: "addr \<rightharpoonup> (bool \<times> string)" where
  "example_strings = [0 \<mapsto> (False, ''Lamp''), 1 \<mapsto> (False, ''Switch'')]"

definition example_service :: "string \<Rightarrow> string \<Rightarrow> addr \<Rightarrow> nat \<Rightarrow> nat option \<Rightarrow> addr option \<Rightarrow> hpd \<Rightarrow> (addr option \<times> hpd) option" where
  "example_service description ID ty get put d m =
     (let (p, m1) = create_parameter_struct (Some ''0'') None None None None None None None m in
      create_service_struct (Some description) (Some ID) (Some ty) (Some ''ON/OFF'') d (Some get) put p None m1)"

definition example_objects :: "hpd \<Rightarrow> (addr option list \<times> hpd) option" where
  "example_objects m =
     (let (d, m1) = create_device_struct (Some ''Example'') (Some ''1'') (Some ''0x01'') (Some ''0x01'') (Some ''V1'') None None
            (Some ''LivingRoom'') (Some ''Example'') 0 m
      in do {
        (s1, m2) \<leftarrow> example_service ''Lamp0'' ''0'' 0 0 (Some 0) d m1;
        (s2, m3) \<leftarrow> example_service ''Lamp1'' ''1'' 0 0 (Some 0) d m2;
        (s3, m4) \<leftarrow> example_service ''Switch0'' ''0'' 1 1 None d m3;
        (s4, m5) \<leftarrow> example_service ''Switch1'' ''1'' 1 1 None d m4;
        Some ([s1, s2, s3, s4], m5)
      })"

fun unregister_each :: "int \<Rightarrow> addr option list \<Rightarrow> home \<Rightarrow> home option" where
  "unregister_each avahi [] h = Some h"
| "unregister_each avahi (s # ss) h = do { (_, h1) \<leftarrow> HPD_unregister_service avahi s h; unregister_each avahi ss h1 }"

text \<open>\<open>main\<close>, with the result and with the state in which it waits for a key.\<close>

definition example_main :: "boot \<Rightarrow> int \<Rightarrow> home \<Rightarrow> (int \<times> home option \<times> home) option" where
  "example_main b avahi h = do {
     (rc, h1) \<leftarrow> HPD_start b HPD_USE_CFG_FILE (Some ''Homeport'') [HPD_OPTION_CFG_PATH, ArgStr (Some ''./hpd.cfg'')] h;
     (if rc \<noteq> 0 then Some (1, None, h1)
      else do {
        (ss, m) \<leftarrow> example_objects ((mem (srv h1))\<lparr>strs := example_strings, brk := 2\<rparr>);
        h2 \<leftarrow> register_each avahi ss (h1\<lparr>srv := (srv h1)\<lparr>mem := m\<rparr>\<rparr>);
        h3 \<leftarrow> unregister_each avahi ss h2;
        (_, h4) \<leftarrow> HPD_stop h3;
        Some (0, Some h2, h4)
      })
   }"

section \<open>Properties\<close>

lemma unregister_each_api: "unregister_each avahi ss h = run_api (map (\<lambda>s. (False, avahi, s)) ss) h"
proof (induction ss arbitrary: h)
  case (Cons s ss)
  then show ?case by (cases "HPD_unregister_service avahi s h") auto
qed simp

definition the_example :: "(addr option list \<times> hpd) option" where
  "the_example = example_objects (blank\<lparr>daemon := True, strs := example_strings, brk := 2\<rparr>)"

definition example_keys :: "(string \<times> string \<times> string \<times> string) list" where
  "example_keys = [(''Example'', ''1'', ''Lamp'', ''0''), (''Example'', ''1'', ''Lamp'', ''1''), (''Example'', ''1'', ''Switch'', ''0''),
     (''Example'', ''1'', ''Switch'', ''1'')]"

lemma the_example_eq: "map_option fst the_example = Some (map Some [4, 6, 8, 10])"
  by (simp add: the_example_def example_objects_def example_service_def blank_def example_strings_def creation)

lemma the_example_memory:
  "map_option (\<lambda>(_, m). (service_head m, daemon m, list_all (entry_ok m) [4, 6, 8, 10], map (the_key m) [4, 6, 8, 10],
      dom (services m))) the_example = Some ([], True, True, example_keys, {4, 6, 8, 10})"
  by (simp add: the_example_def example_objects_def example_service_def blank_def example_strings_def example_keys_def creation
      entry_ok_def describable_def the_device_def the_key_def four_tuple_def some_bool) auto

text \<open>
  C35. The run of the example with a complete configuration file: while it waits for a key exactly its four services are
  registered, in the web server and in the description; at the end none is, the daemon is stopped and \<open>main\<close> returns 0. The
  four services are never destroyed.
\<close>

theorem example_program_runs:
  assumes "alloc b" and "mhd_started b" and "avahi_result b = 0" and "mem (srv h) = blank" and "queue_list (events (srv h)) = []"
    and "config_file b ''./hpd.cfg'' = Some look" and "look ''hpdaemon.http_port'' = Some port"
    and "look ''hpdlog.max_log_size'' = Some msize" and "look ''hpdlog.log_level'' = Some level" and "\<not> log_freed h"
  shows "\<exists>h2 h4. example_main b 0 h = Some (0, Some h2, h4) \<and> server_ok (srv h2) \<and>
    registered (srv h2) = set example_keys \<and> xml_keys (xml (srv h2)) = set example_keys \<and>
    service_head (mem (srv h4)) = [] \<and> xml_tree (xml (srv h4)) = [] \<and> hpd_daemon h4 = Unset \<and>
    dom (services (mem (srv h4))) = {4, 6, 8, 10}"
proof -
  obtain h1 where h1: "HPD_start b HPD_USE_CFG_FILE (Some ''Homeport'') [HPD_OPTION_CFG_PATH, ArgStr (Some ''./hpd.cfg'')] h = Some (0, h1)"
    "HPD_config_get_port True h1 = Some (0, Some port)" "server_ok (srv h1)" "registered (srv h1) = {}"
    "mem (srv h1) = blank\<lparr>daemon := True\<rparr>" "cfg h1 = Live ()" "log_freed h1 = False"
    using HPD_start_file [of b h "''./hpd.cfg''" look port msize level "''Homeport''"] assms by (auto simp: blank_def)
  obtain d where d: "hpd_daemon h1 = Live d" using h1(2) by (cases "hpd_daemon h1") (auto simp: HPD_config_get_port_def)
  let ?as = "[4, 6, 8, 10 :: addr]"
  obtain m where m: "the_example = Some (map Some ?as, m)" using the_example_eq by (cases the_example) auto
  have mem: "service_head m = []" "daemon m" "list_all (entry_ok m) ?as" "map (the_key m) ?as = example_keys" "dom (services m) = {4, 6, 8, 10}"
    using the_example_memory unfolding m by simp_all
  let ?st = "(srv h1)\<lparr>mem := m\<rparr>"
  have ok: "server_ok ?st" using h1(3,5) mem(1,2) by (simp add: server_ok_def blank_def http_wf_def http_keys_def)
  have empty: "registered ?st = {}" using mem(1) by (simp add: registered_def http_keys_def)
  have keys: "set example_keys = the_key m ` set ?as" using arg_cong [OF mem(4), of set] by simp
  let ?on = "map (\<lambda>s. (True, 0 :: int, s)) ?as" and ?off = "map (\<lambda>s. (False, 0 :: int, s)) ?as"
  have "list_all (\<lambda>(b, avahi, s). entry_ok (mem ?st) s) ?on" using mem(3) by simp
  from run_server_ok [OF ok this] obtain s2 where s2: "run_server ?on ?st = Some s2" "server_ok s2" "xml_keys (xml s2) = registered s2"
    "registered s2 = fold (\<lambda>(b, avahi, s). track (the_key m) (b, s)) ?on (registered ?st)" "mem s2 = m\<lparr>service_head := service_head (mem s2)\<rparr>"
    by auto
  have r2: "registered s2 = set example_keys" unfolding s2(4) empty keys by (simp add: track_def insert_commute)
  have key2: "the_key (mem s2) = the_key m" "entry_ok (mem s2) s = entry_ok m s" for s by (subst s2(5), simp)+
  have "list_all (\<lambda>(b, avahi, s). entry_ok (mem s2) s) ?off" using mem(3) by (simp add: key2)
  from run_server_ok [OF s2(2) this] obtain s3 where s3: "run_server ?off s2 = Some s3" "server_ok s3"
    "registered s3 = fold (\<lambda>(b, avahi, s). track (the_key (mem s2)) (b, s)) ?off (registered s2)"
    "mem s3 = (mem s2)\<lparr>service_head := service_head (mem s3)\<rparr>" by auto
  have "registered s3 = {}" unfolding s3(3) key2 r2 keys by (auto simp: track_def)
  then have head3: "service_head (mem s3) = []" by (auto simp: registered_def http_keys_def)
  have "mem s3 = m\<lparr>service_head := []\<rparr>" using s3(4) s2(5) head3 by (metis (no_types, lifting) hpd.surjective hpd.update_convs(6))
  then have m3: "mem s3 = m" using mem(1) by simp
  let ?h2 = "h1\<lparr>srv := s2\<rparr>" and ?h3 = "h1\<lparr>srv := s3\<rparr>"
  have on: "register_each 0 (map Some ?as) (h1\<lparr>srv := ?st\<rparr>) = Some ?h2"
    using s2(1) by (simp add: register_each_api run_api_eq)
  have off: "unregister_each 0 (map Some ?as) ?h2 = Some ?h3"
    using s3(1) by (simp add: unregister_each_api run_api_eq)
  have "server_ok (s3\<lparr>hlog := None\<rparr>)" using s3(2) by (simp add: server_ok_def)
  then obtain e where "free_server_sent_events_ressources (events s3) = Some e"
    using free_ressources_ok by (fastforce simp: server_ok_def)
  then have "stop_server (s3\<lparr>hlog := None\<rparr>) = Some (0, s3\<lparr>hlog := None, mem := m, events := e, xml := (xml s3)\<lparr>xml_tree := [], saved := None\<rparr>\<rparr>)"
    using mem(1,2) m3 by (simp add: stop_server_def stop_unsecure_server_def free_unsecure_server_services_def)
  then have stop: "HPD_stop ?h3 = Some (0, ?h3\<lparr>hpd_daemon := Unset, cfg := Freed, log_freed := hlog s3 \<noteq> None,
      srv := s3\<lparr>hlog := None, mem := m, events := e, xml := (xml s3)\<lparr>xml_tree := [], saved := None\<rparr>\<rparr>\<rparr>)"
    using deinit_eq [of ?h3 d] d h1(6,7) by (simp add: HPD_stop_def)
  let ?h4 = "?h3\<lparr>hpd_daemon := Unset, cfg := Freed, log_freed := hlog s3 \<noteq> None,
      srv := s3\<lparr>hlog := None, mem := m, events := e, xml := (xml s3)\<lparr>xml_tree := [], saved := None\<rparr>\<rparr>\<rparr>"
  have "example_main b 0 h = Some (0, Some ?h2, ?h3\<lparr>hpd_daemon := Unset, cfg := Freed, log_freed := hlog s3 \<noteq> None,
      srv := s3\<lparr>hlog := None, mem := m, events := e, xml := (xml s3)\<lparr>xml_tree := [], saved := None\<rparr>\<rparr>\<rparr>)"
    using h1(1,5) m on off stop by (simp add: example_main_def the_example_def del: register_each.simps unregister_each.simps list.map)
  then show ?thesis using s2(2,3) r2 mem(1,5) by - (rule exI [of _ ?h2], rule exI [of _ ?h4], simp)
qed

theorem example_program_runs_witness:
  "\<exists>h2 h4. example_main demo_boot 0 (demo_home\<lparr>srv := (srv demo_home)\<lparr>mem := blank\<rparr>\<rparr>) = Some (0, Some h2, h4) \<and>
    registered (srv h2) = set example_keys \<and> service_head (mem (srv h4)) = []"
proof -
  have "alloc demo_boot" "mhd_started demo_boot" "avahi_result demo_boot = 0" by (simp_all add: demo_boot_def)
  moreover have "mem (srv (demo_home\<lparr>srv := (srv demo_home)\<lparr>mem := blank\<rparr>\<rparr>)) = blank"
    "queue_list (server.events (srv (demo_home\<lparr>srv := (srv demo_home)\<lparr>mem := blank\<rparr>\<rparr>))) = []"
    "\<not> log_freed (demo_home\<lparr>srv := (srv demo_home)\<lparr>mem := blank\<rparr>\<rparr>)" by (simp_all add: demo_home_def)
  moreover have "config_file demo_boot ''./hpd.cfg'' =
      Some [''hpdaemon.http_port'' \<mapsto> 8890, ''hpdlog.max_log_size'' \<mapsto> 2048, ''hpdlog.log_level'' \<mapsto> 2]" by (simp add: demo_boot_def)
  ultimately show ?thesis using example_program_runs by fastforce
qed

end
