(* ===== verification/Driver.thy ===== *)
theory Driver
  imports HP_Prelude
begin

text \<open>
  The example program that switches a service (\<open>Example/ztest.c\<close>) with the driver that translates its argument
  into a command of the device (\<open>ihaplite/parser.c\<close>). Everything is done by commands of the shell, written with
  \<open>sprintf\<close> into arrays of 255 characters, of whose output the first line is read (\<open>ihaplite/utils.c\<close>).

  The shell is an input: the output of a command, or \<open>None\<close> when it cannot be started. A function that runs
  commands has the list of commands as its result; a fault is \<open>None\<close>.
\<close>

definition sysstr :: "string \<Rightarrow> string option" where
  "sysstr s = (if length s < 255 then Some s else None)"

text \<open>
  The first line of the output, at most 254 characters of it, newline included; without output, the array
  keeps its text \<open>old\<close>. When the command cannot be started, the code goes on with a null pointer.
\<close>

definition newline :: char where "newline = CHR 0x0A"

definition first_line :: "string \<Rightarrow> string" where
  "first_line t = take 254 (takeWhile (\<lambda>c. c \<noteq> newline) t @ take 1 (dropWhile (\<lambda>c. c \<noteq> newline) t))"

definition syscall_pipe :: "(string \<Rightarrow> string option) \<Rightarrow> string \<Rightarrow> string \<Rightarrow> string option" where
  "syscall_pipe sh sys_str old = do { t \<leftarrow> sh sys_str; Some (if t = [] then old else first_line t) }"

section \<open>The driver\<close>

definition on_command :: string where "on_command = ''0401210600FF0403116701''"
definition off_command :: string where "off_command = ''0401210600FF0403116700''"

definition d_zigbee_device_on :: "(string \<Rightarrow> string option) \<Rightarrow> string \<Rightarrow> string list option" where
  "d_zigbee_device_on sh u = do {
     c \<leftarrow> sysstr (''hpclientPUT PUT '' @ u @ '' '' @ on_command);
     line \<leftarrow> syscall_pipe sh c [];
     Some [c]
   }"

definition d_zigbee_device_off :: "(string \<Rightarrow> string option) \<Rightarrow> string \<Rightarrow> string list option" where
  "d_zigbee_device_off sh u = do {
     c \<leftarrow> sysstr (''hpclientPUT PUT '' @ u @ '' '' @ off_command);
     line \<leftarrow> syscall_pipe sh c [];
     Some [c]
   }"

definition device_type :: string where
  "device_type = ''7A621A210401090001080000030004000500060002070A000900010604''"

definition starts_with :: "string \<Rightarrow> string \<Rightarrow> bool" where
  "starts_with p s \<longleftrightarrow> take (length p) s = p"

definition ODSDL_parser :: "(string \<Rightarrow> string option) \<Rightarrow> string \<Rightarrow> string \<Rightarrow> string \<Rightarrow> string list option" where
  "ODSDL_parser sh devicexml_path inputparm u =
     (if starts_with device_type devicexml_path then
        if starts_with ''Off'' inputparm then d_zigbee_device_off sh u else d_zigbee_device_on sh u
      else Some [])"

definition get_desc :: "(string \<Rightarrow> string option) \<Rightarrow> string \<Rightarrow> string \<Rightarrow> (string list \<times> string) option" where
  "get_desc sh u result = do {
     c \<leftarrow> sysstr (''hpclientPUT PUT '' @ u @ '' GETDESC_REQ21'');
     line \<leftarrow> syscall_pipe sh c result;
     Some ([c], line)
   }"

text \<open>\<open>devicetypeid\<close> is the text that the array of the description has before.\<close>

definition hp_ODSDL_parser :: "(string \<Rightarrow> string option) \<Rightarrow> string \<Rightarrow> string \<Rightarrow> string \<Rightarrow> string list option" where
  "hp_ODSDL_parser sh u inputparm devicetypeid = do {
     (cs, d) \<leftarrow> get_desc sh u devicetypeid;
     ds \<leftarrow> ODSDL_parser sh d inputparm u;
     Some (cs @ ds)
   }"

section \<open>The program\<close>

text \<open>\<open>sscanf\<close> with \<open>%s\<close>: the first word, when there is one; it must fit into the array of the URL.\<close>

definition is_space :: "char \<Rightarrow> bool" where
  "is_space c \<longleftrightarrow> c \<in> {CHR '' '', CHR 0x09, CHR 0x0A, CHR 0x0B, CHR 0x0C, CHR 0x0D}"

definition first_word :: "string \<Rightarrow> string" where
  "first_word s = takeWhile (\<lambda>c. \<not> is_space c) (dropWhile is_space s)"

definition find_service_at_location ::
  "(string \<Rightarrow> string option) \<Rightarrow> string \<Rightarrow> string \<Rightarrow> string \<Rightarrow> string \<Rightarrow> (string list \<times> string) option" where
  "find_service_at_location sh servicetype loc line resulturl = do {
     c \<leftarrow> sysstr (''./helper.sh '' @ servicetype @ '' '' @ loc);
     l \<leftarrow> syscall_pipe sh c line;
     Some ([c], if first_word l = [] then resulturl else first_word l)
   }"

text \<open>The arrays start with the texts \<open>line\<close>, \<open>outputurl\<close> and \<open>devicetypeid\<close>; without an argument the comparison crashes.\<close>

definition ztest_main ::
  "(string \<Rightarrow> string option) \<Rightarrow> string option \<Rightarrow> string \<Rightarrow> string \<Rightarrow> string \<Rightarrow> string list option" where
  "ztest_main sh arg line outputurl devicetypeid = do {
     (cs, u) \<leftarrow> find_service_at_location sh ''light_source'' ''outside'' line outputurl;
     a \<leftarrow> arg;
     ds \<leftarrow> hp_ODSDL_parser sh u a devicetypeid;
     Some (cs @ ds)
   }"

section \<open>Properties\<close>

lemma first_line_line: "newline \<notin> set s \<Longrightarrow> length s < 254 \<Longrightarrow> first_line (s @ newline # r) = s @ [newline]"
proof -
  assume a: "newline \<notin> set s" "length s < 254"
  then have "takeWhile (\<lambda>c. c \<noteq> newline) (s @ newline # r) = s" "dropWhile (\<lambda>c. c \<noteq> newline) (s @ newline # r) = newline # r"
    by (induction s) auto
  with a(2) show ?thesis by (simp add: first_line_def)
qed

lemma first_word_line: "s \<noteq> [] \<Longrightarrow> list_all (\<lambda>c. \<not> is_space c) s \<Longrightarrow> first_word (s @ [newline]) = s"
proof -
  assume a: "s \<noteq> []" "list_all (\<lambda>c. \<not> is_space c) s"
  then have "dropWhile is_space (s @ [newline]) = s @ [newline]" by (cases s) auto
  moreover have "takeWhile (\<lambda>c. \<not> is_space c) (s @ [newline]) = s"
    using a(2) by (induction s) (auto simp: is_space_def newline_def)
  ultimately show ?thesis by (simp add: first_word_def)
qed

text \<open>
  The example program, when the search prints the URL of a service and the device describes itself as the switch
  that the driver knows: it runs the search, asks the device for its description, and sends the service the
  command for off when its argument starts with \<open>Off\<close> and the one for on with any other argument.
\<close>

theorem ztest_switches:
  assumes "sh ''./helper.sh light_source outside'' = Some (u @ newline # rest)" and "u \<noteq> []" and "list_all (\<lambda>c. \<not> is_space c) u"
    and "length u \<le> 215" and "sh (''hpclientPUT PUT '' @ u @ '' GETDESC_REQ21'') = Some (device_type @ more)"
    and "\<And>v. sh (''hpclientPUT PUT '' @ u @ '' '' @ v) \<noteq> None"
  shows "ztest_main sh (Some a) line outputurl devicetypeid =
    Some [''./helper.sh light_source outside'', ''hpclientPUT PUT '' @ u @ '' GETDESC_REQ21'',
      ''hpclientPUT PUT '' @ u @ '' '' @ (if starts_with ''Off'' a then off_command else on_command)]"
proof -
  have nl: "newline \<notin> set u" using assms(3) by (auto simp: list_all_iff is_space_def newline_def)
  have found: "find_service_at_location sh ''light_source'' ''outside'' line outputurl = Some ([''./helper.sh light_source outside''], u)"
    using assms(1-4) first_line_line [OF nl, of rest] first_word_line [OF assms(2,3)]
    by (simp add: find_service_at_location_def sysstr_def syscall_pipe_def)
  have len: "length device_type = 58" "length on_command = 22" "length off_command = 22" by (simp_all add: device_type_def on_command_def off_command_def)
  have "newline \<notin> set device_type" by (simp add: device_type_def newline_def)
  then have "starts_with device_type (first_line (device_type @ more))"
    using len(1) by (simp add: starts_with_def first_line_def takeWhile_append dropWhile_append)
  moreover have "device_type \<noteq> []" by (simp add: device_type_def)
  moreover obtain x y where "sh (''hpclientPUT PUT '' @ u @ '' '' @ off_command) = Some x" "sh (''hpclientPUT PUT '' @ u @ '' '' @ on_command) = Some y"
    using assms(6) by blast
  ultimately show ?thesis
    using assms(4,5) len
    by (simp add: ztest_main_def found hp_ODSDL_parser_def get_desc_def ODSDL_parser_def sysstr_def syscall_pipe_def
        d_zigbee_device_on_def d_zigbee_device_off_def)
qed

text \<open>The URL is longer than the command leaves room for.\<close>

lemma long_url_overflows: "215 < length u \<Longrightarrow> d_zigbee_device_on sh u = None"
  by (simp add: d_zigbee_device_on_def sysstr_def on_command_def)

text \<open>Another device does nothing, without an error.\<close>

lemma unknown_device: "\<not> starts_with device_type d \<Longrightarrow> ODSDL_parser sh d a u = Some []"
  by (simp add: ODSDL_parser_def)

definition demo_shell :: "string \<Rightarrow> string option" where
  "demo_shell c = Some (if c = ''./helper.sh light_source outside'' then ''http://10.0.0.1:8889/Bridge/outside/light_source/1'' @ [newline]
     else device_type)"

theorem ztest_switches_witness:
  "ztest_main demo_shell (Some ''Off'') ''x'' ''y'' ''z'' =
    Some [''./helper.sh light_source outside'', ''hpclientPUT PUT http://10.0.0.1:8889/Bridge/outside/light_source/1 GETDESC_REQ21'',
      ''hpclientPUT PUT http://10.0.0.1:8889/Bridge/outside/light_source/1 0401210600FF0403116700'']"
  using ztest_switches [of demo_shell "''http://10.0.0.1:8889/Bridge/outside/light_source/1''" "[]" "[]" "''Off''" "''x''" "''y''" "''z''"]
  by (simp add: demo_shell_def is_space_def starts_with_def off_command_def)

end
