(* ===== verification/IeeeFloat.thy ===== *)
theory IeeeFloat
  imports HpdLog Driver Complex_Main "HOL-Library.Log_Nat"
begin

text \<open>
  The floating-point numbers of C that the adapters of the weather station use: \<open>float\<close> and \<open>double\<close>, \<open>atof\<close>,
  and \<open>sprintf\<close> with \<open>%6.0f\<close>.

  Floating-point numbers are those of IEEE 754: \<open>Fin neg x\<close> has the magnitude \<open>x\<close>, a rational, and a sign of its
  own, which zero has as well. The result of an operation is the exact one, rounded to the nearest number
  of the format, to the even one in the middle between two.
\<close>

section \<open>Floating-point numbers\<close>

datatype fl = Fin bool rat | Inf bool | NaN bool

definition half_even :: "rat \<Rightarrow> int" where
  "half_even x = (let k = \<lfloor>x\<rfloor>; d = x - of_int k in if d < 1 / 2 \<or> d = 1 / 2 \<and> even k then k else k + 1)"

text \<open>The exponent of the power of two below a positive number.\<close>

definition expo :: "rat \<Rightarrow> int" where
  "expo x = (let (a, b) = quotient_of x; k = int (floorlog 2 (nat a)) - int (floorlog 2 (nat b)) in
     if 2 powi k \<le> x then k else k - 1)"

text \<open>
  A format has \<open>precision\<close> bits of the significand, the exponent of its smallest number, and the exponent
  of the first power of two that is too large.
\<close>

record format =
  precision :: nat
  emin :: int
  emax :: int

definition binary32 :: format where "binary32 = \<lparr>precision = 24, emin = -149, emax = 128\<rparr>"
definition binary64 :: format where "binary64 = \<lparr>precision = 53, emin = -1074, emax = 1024\<rparr>"

definition ulp :: "format \<Rightarrow> rat \<Rightarrow> int" where
  "ulp fm x = max (emin fm) (expo x - int (precision fm) + 1)"

definition nearest :: "format \<Rightarrow> rat \<Rightarrow> rat" where
  "nearest fm x = (if x = 0 then 0 else of_int (half_even (x / 2 powi ulp fm x)) * 2 powi ulp fm x)"

definition rounded :: "format \<Rightarrow> bool \<Rightarrow> rat \<Rightarrow> fl" where
  "rounded fm neg x = (if nearest fm x < 2 powi emax fm then Fin neg (nearest fm x) else Inf neg)"

fun apply_fl :: "format \<Rightarrow> (rat \<Rightarrow> rat) \<Rightarrow> fl \<Rightarrow> fl" where
  "apply_fl fm f (Fin neg x) = rounded fm neg (f x)"
| "apply_fl fm f (Inf neg) = Inf neg"
| "apply_fl fm f (NaN neg) = NaN neg"

section \<open>Texts\<close>

text \<open>\<open>sprintf\<close> with \<open>%6.0f\<close>.\<close>

fun fl_text :: "fl \<Rightarrow> string" where
  "fl_text (Fin neg x) = (if neg then ''-'' else '''') @ decimal (nat (half_even x))"
| "fl_text (Inf neg) = (if neg then ''-inf'' else ''inf'')"
| "fl_text (NaN neg) = (if neg then ''-nan'' else ''nan'')"

definition sprintf_6_0f :: "fl \<Rightarrow> string" where
  "sprintf_6_0f v = pad (CHR '' '') 6 (fl_text v)"

text \<open>\<open>atof\<close>: a number in decimal or, behind \<open>0x\<close>, in hexadecimal, with its exponent; or infinity, or not a number.\<close>

definition digit :: "char \<Rightarrow> nat" where
  "digit c = (let k = of_char c in
     if 48 \<le> k \<and> k \<le> 57 then k - 48 else if 97 \<le> k \<and> k \<le> 102 then k - 87 else if 65 \<le> k \<and> k \<le> 70 then k - 55 else 16)"

definition lower :: "char \<Rightarrow> char" where
  "lower c = (let k = of_char c :: nat in if 65 \<le> k \<and> k \<le> 90 then char_of (k + 32) else c)"

definition digits_value :: "nat \<Rightarrow> string \<Rightarrow> nat" where
  "digits_value b s = foldl (\<lambda>v c. b * v + digit c) 0 s"

definition signed_text :: "string \<Rightarrow> bool \<times> string" where
  "signed_text s = (case s of [] \<Rightarrow> (False, []) | c # t \<Rightarrow>
     if c = CHR ''-'' then (True, t) else if c = CHR ''+'' then (False, t) else (False, s))"

definition exponent_part :: "char \<Rightarrow> string \<Rightarrow> int" where
  "exponent_part e s = (case s of [] \<Rightarrow> 0 | c # t \<Rightarrow>
     if lower c \<noteq> e then 0
     else let (neg, u) = signed_text t; k = int (digits_value 10 (takeWhile (\<lambda>c. digit c < 10) u)) in if neg then - k else k)"

text \<open>\<open>b\<close> is the base of the digits, \<open>e\<close> the letter of the exponent and \<open>p\<close> the base of its power.\<close>

definition number_text :: "nat \<Rightarrow> char \<Rightarrow> nat \<Rightarrow> string \<Rightarrow> rat option" where
  "number_text b e p s =
     (let isd = (\<lambda>c. digit c < b);
          ip = takeWhile isd s; r = dropWhile isd s;
          (fp, r1) = (if take 1 r = ''.'' then (takeWhile isd (tl r), dropWhile isd (tl r)) else ([], r))
      in if ip = [] \<and> fp = [] then None
         else Some (of_nat (digits_value b (ip @ fp)) / of_nat b ^ length fp * of_nat p powi exponent_part e r1))"

definition atof :: "string \<Rightarrow> fl" where
  "atof s =
     (let (neg, t) = signed_text (dropWhile is_space s); l = map lower t in
      if take 3 l = ''inf'' then Inf neg
      else if take 3 l = ''nan'' then NaN neg
      else case (if take 2 l = ''0x'' then number_text 16 (CHR ''p'') 2 (drop 2 t) else None) of
        Some x \<Rightarrow> rounded binary64 neg x
      | None \<Rightarrow> (case number_text 10 (CHR ''e'') 10 t of Some x \<Rightarrow> rounded binary64 neg x | None \<Rightarrow> Fin False 0))"

section \<open>Rounding\<close>

lemma half_even_error: "\<bar>of_int (half_even x) - x\<bar> \<le> 1 / 2"
proof -
  have "of_int \<lfloor>x\<rfloor> \<le> x" "x < of_int \<lfloor>x\<rfloor> + 1" by linarith+
  then show ?thesis by (auto simp: half_even_def Let_def abs_le_iff)
qed

lemma half_even_near: "\<bar>x - of_int n\<bar> < 1 / 2 \<Longrightarrow> half_even x = n"
proof -
  assume a: "\<bar>x - of_int n\<bar> < 1 / 2"
  have "\<bar>of_int (half_even x) - of_int n :: rat\<bar> < 1" using a half_even_error [of x] by linarith
  then have "\<bar>half_even x - n\<bar> < 1" by (simp flip: of_int_diff of_int_abs)
  then show ?thesis by linarith
qed

lemma floorlog_nat:
  assumes "0 < a"
  obtains k where "floorlog 2 (nat a) = Suc k" and "2 ^ k \<le> a" and "a < 2 ^ Suc k"
proof -
  have p: "0 < nat a" using assms by simp
  then have "floorlog 2 (nat a) \<noteq> 0" by (simp add: floorlog_eq_zero_iff)
  then obtain k where k: "floorlog 2 (nat a) = Suc k" by (cases "floorlog 2 (nat a)") auto
  have "2 ^ k \<le> nat a" "nat a < 2 ^ Suc k" using floorlog_bounds [of "nat a" 2, OF p] k by auto
  then have "2 ^ k \<le> a" "a < 2 ^ Suc k" using assms by (simp_all add: le_nat_iff nat_less_iff)
  with k show ?thesis using that by blast
qed

lemma expo_bounds:
  assumes "0 < x"
  shows "2 powi expo x \<le> x" and "x < 2 powi (expo x + 1)"
proof -
  obtain a b where q: "quotient_of x = (a, b)" by force
  then have x: "x = of_int a / of_int b" and b: "0 < b" using quotient_of_div quotient_of_denom_pos by blast+
  with assms have a: "0 < a" by (simp add: zero_less_divide_iff)
  obtain i where i: "floorlog 2 (nat a) = Suc i" "2 ^ i \<le> a" "a < 2 ^ Suc i" using floorlog_nat [OF a] .
  obtain j where j: "floorlog 2 (nat b) = Suc j" "2 ^ j \<le> b" "b < 2 ^ Suc j" using floorlog_nat [OF b] .
  have ri: "(2 :: rat) ^ i \<le> of_int a" "(of_int a :: rat) < 2 * 2 ^ i"
    using of_int_le_iff [of "2 ^ i" a, where 'a = rat] of_int_less_iff [of a "2 ^ Suc i", where 'a = rat] i by simp_all
  have rj: "(2 :: rat) ^ j \<le> of_int b" "(of_int b :: rat) < 2 * 2 ^ j"
    using of_int_le_iff [of "2 ^ j" b, where 'a = rat] of_int_less_iff [of b "2 ^ Suc j", where 'a = rat] j by simp_all
  have k: "2 powi (int i - int j) = (2 :: rat) ^ i / 2 ^ j" by (simp add: power_int_diff)
  have "x < 2 * 2 ^ i / 2 ^ j" unfolding x using ri rj a b by (intro frac_less) simp_all
  moreover have "2 ^ i / (2 * 2 ^ j) < x" unfolding x using ri rj b a by (intro frac_less2) simp_all
  ultimately have "x < 2 * 2 powi (int i - int j)" "2 powi (int i - int j) / 2 < x" by (simp_all add: k)
  then show "2 powi expo x \<le> x" "x < 2 powi (expo x + 1)"
    by (auto simp: expo_def q i j Let_def power_int_add power_int_diff mult.commute)
qed

lemma nearest_error:
  assumes "0 \<le> x"
  shows "\<bar>nearest fm x - x\<bar> \<le> x / 2 ^ precision fm + 2 powi emin fm / 2"
proof (cases "x = 0")
  case False
  then have x: "0 < x" using assms by simp
  let ?u = "(2 :: rat) powi ulp fm x"
  have u: "0 < ?u" by simp
  have "nearest fm x - x = (of_int (half_even (x / ?u)) - x / ?u) * ?u"
    using False u by (simp add: nearest_def left_diff_distrib)
  then have "\<bar>nearest fm x - x\<bar> \<le> 1 / 2 * ?u"
    using mult_right_mono [OF half_even_error [of "x / ?u"], of ?u] u by (simp add: abs_mult)
  moreover have "?u \<le> 2 * x / 2 ^ precision fm + 2 powi emin fm"
  proof (cases "emin fm \<le> expo x - int (precision fm) + 1")
    case True
    then have "?u = 2 powi expo x * 2 / 2 ^ precision fm" by (simp add: ulp_def max_def power_int_add power_int_diff)
    also have "\<dots> \<le> 2 * x / 2 ^ precision fm" using expo_bounds(1) [OF x] by (simp add: divide_right_mono)
    finally show ?thesis by (smt (verit) zero_less_power_int zero_less_numeral add.right_neutral add_mono less_imp_le)
  next
    case False
    then show ?thesis using x by (simp add: ulp_def max_def)
  qed
  ultimately show ?thesis by simp
qed (simp add: nearest_def)


lemma nearest_nonneg: "0 \<le> x \<Longrightarrow> 0 \<le> nearest fm x"
proof -
  assume x: "0 \<le> x"
  then have "0 \<le> half_even (x / 2 powi ulp fm x)" by (simp add: half_even_def Let_def)
  then show ?thesis by (simp add: nearest_def)
qed

text \<open>Both formats, with a bound that is the same for all small numbers.\<close>

lemma nearest32_error: "0 \<le> x \<Longrightarrow> \<bar>nearest binary32 x - x\<bar> \<le> x / 16777216 + 1 / 1000000"
proof -
  assume "0 \<le> x"
  then have "\<bar>nearest binary32 x - x\<bar> \<le> x / 2 ^ 24 + 2 powi (- 149) / 2"
    using nearest_error [of x binary32] by (simp add: binary32_def)
  moreover have "(2 :: rat) powi (- 149) / 2 \<le> 1 / 1000000" by (simp add: power_int_minus)
  ultimately show ?thesis by simp
qed

lemma nearest64_error: "0 \<le> x \<Longrightarrow> \<bar>nearest binary64 x - x\<bar> \<le> x / 16777216 / 16777216 + 1 / 1000000000"
proof -
  assume x: "0 \<le> x"
  then have "\<bar>nearest binary64 x - x\<bar> \<le> x / 2 ^ 53 + 2 powi (- 1074) / 2"
    using nearest_error [of x binary64] by (simp add: binary64_def)
  moreover have "(2 :: rat) powi (- 1074) / 2 \<le> 1 / 1000000000" by (simp add: power_int_minus)
  moreover have "x / 2 ^ 53 \<le> x / 16777216 / 16777216" using x by (simp add: frac_le)
  ultimately show ?thesis by simp
qed

lemma rounded_Fin: "nearest fm x < 2 powi emax fm \<Longrightarrow> rounded fm neg x = Fin neg (nearest fm x)"
  by (simp add: rounded_def)

section \<open>Numbers as texts\<close>

lemma digit_decimal: "k < 10 \<Longrightarrow> digit (char_of (48 + k :: nat)) = k"
  by (simp add: digit_def)

lemma digits_of_decimal: "set (map digit (decimal n)) \<subseteq> {0..<10}"
proof (induction n rule: decimal.induct)
  case (1 n)
  have "digit (char_of (48 + n mod 10)) < 10" using digit_decimal [of "n mod 10"] by simp
  then show ?case using 1 digit_decimal [of n] by (subst decimal.simps) auto
qed

lemma digits_value_decimal: "digits_value 10 (decimal n) = n"
proof (induction n rule: decimal.induct)
  case (1 n)
  show ?case
  proof (cases "n < 10")
    case True
    then show ?thesis by (simp add: decimal.simps [of n] digits_value_def digit_decimal)
  next
    case False
    then have "digits_value 10 (decimal n) = 10 * digits_value 10 (decimal (n div 10)) + digit (char_of (48 + n mod 10))"
      by (subst decimal.simps) (simp add: digits_value_def)
    then show ?thesis using 1 [OF False] digit_decimal [of "n mod 10"] by simp
  qed
qed

lemma decimal_not_Nil: "decimal n \<noteq> []"
  by (subst decimal.simps) simp

lemma number_text_decimal: "number_text 10 e p (decimal n) = Some (of_nat n)"
proof -
  have d: "\<forall>c\<in>set (decimal n). digit c < 10" using digits_of_decimal [of n] by auto
  then have all: "takeWhile (\<lambda>c. digit c < 10) (decimal n) = decimal n" "dropWhile (\<lambda>c. digit c < 10) (decimal n) = []"
    by simp_all
  show ?thesis by (simp add: all number_text_def Let_def decimal_not_Nil digits_value_decimal exponent_part_def)
qed

lemma digit_char:
  assumes "digit c < 10"
  obtains k where "c = char_of (48 + k :: nat)" and "k < 10"
proof -
  let ?n = "of_char c :: nat"
  have "48 \<le> ?n \<and> ?n \<le> 57" using assms by (auto simp: digit_def Let_def split: if_splits)
  then have "c = char_of (48 + (?n - 48))" "?n - 48 < 10" by (simp, linarith)
  then show ?thesis using that by blast
qed

text \<open>A digit is no blank, no sign and no letter.\<close>

lemma digit_facts:
  assumes "digit c < 10"
  shows "\<not> is_space c" and "c \<noteq> CHR ''-''" and "c \<noteq> CHR ''+''" and "lower c = c" and "c \<notin> {CHR 0x00, CHR ''i'', CHR ''n'', CHR ''x''}"
proof -
  obtain k where "c = char_of (48 + k :: nat)" "k < 10" using digit_char [OF assms] .
  then have "c \<in> set (map (\<lambda>k. char_of (48 + k :: nat)) [0..<10])" by auto
  moreover have "list_all (\<lambda>c. \<not> is_space c \<and> c \<noteq> CHR ''-'' \<and> c \<noteq> CHR ''+'' \<and> lower c = c \<and>
      c \<notin> {CHR 0x00, CHR ''i'', CHR ''n'', CHR ''x''}) (map (\<lambda>k. char_of (48 + k :: nat)) [0..<10])"
    by code_simp
  ultimately show "\<not> is_space c" "c \<noteq> CHR ''-''" "c \<noteq> CHR ''+''" "lower c = c" "c \<notin> {CHR 0x00, CHR ''i'', CHR ''n'', CHR ''x''}"
    by (blast dest: list_all_iff [THEN iffD1])+
qed

definition sign_text :: "bool \<Rightarrow> string" where
  "sign_text neg = (if neg then ''-'' else [])"

lemma atof_decimal: "atof (sign_text neg @ decimal n) = rounded binary64 neg (of_nat n)"
proof -
  let ?t = "decimal n"
  obtain c t where t: "?t = c # t" using decimal_not_Nil [of n] by (cases ?t) auto
  have d: "\<forall>c\<in>set ?t. digit c < 10" using digits_of_decimal [of n] by auto
  then have c: "digit c < 10" "\<forall>c\<in>set t. digit c < 10" using t by auto
  have s: "signed_text (dropWhile is_space (sign_text neg @ ?t)) = (neg, ?t)"
    using digit_facts(1-3) [OF c(1)] t by (simp add: sign_text_def signed_text_def is_space_def)
  have l: "map lower ?t = ?t" using d digit_facts(4) by (simp add: map_idI)
  have "take 2 ?t \<noteq> ''0x''"
  proof (cases t)
    case (Cons b u)
    then show ?thesis using t c(2) digit_facts(5) [of b] by auto
  qed (simp add: t)
  then have no: "take 3 ?t \<noteq> ''inf''" "take 3 ?t \<noteq> ''nan''" "take 2 ?t \<noteq> ''0x''"
    using t digit_facts(5) [OF c(1)] by auto
  show ?thesis by (simp add: atof_def s l no number_text_decimal)
qed

end
