(* ===== verification/Temperature.thy ===== *)
theory Temperature
  imports Gateway IeeeFloat
begin

text \<open>
  The temperatures of the weather station, the adapters \<open>get_temp\<close> and \<open>put_temp\<close> of
  \<open>hpbridge/examples/heating_example.c\<close>. A temperature is a \<open>float\<close> in degrees, which a client sets and reads in
  thousandths: it is set from a text with \<open>atof\<close> and printed with \<open>%6.0f\<close>, rounded four times on the way.
\<close>

section \<open>Adapters\<close>

record weather =
  temp0_state :: fl
  temp1_state :: fl

definition weather_init :: weather where
  "weather_init = \<lparr>temp0_state = Fin False 25, temp1_state = Fin False 26\<rparr>"

text \<open>The product is one of \<open>float\<close>, the quotient one of \<open>double\<close>, which is then stored into a \<open>float\<close>.\<close>

definition milli :: "fl \<Rightarrow> string" where
  "milli v = sprintf_6_0f (apply_fl binary32 (\<lambda>x. x * 1000) v)"

definition of_milli :: "string \<Rightarrow> fl" where
  "of_milli s = apply_fl binary32 (\<lambda>x. x) (apply_fl binary64 (\<lambda>x. x / 1000) (atof s))"

definition get_temp :: "string \<Rightarrow> weather \<Rightarrow> int \<times> string" where
  "get_temp ID w =
     (if ID = ''0'' then (let t = milli (temp0_state w) in (int (length t), t))
      else if ID = ''1'' then (let t = milli (temp1_state w) in (int (length t), t))
      else (0, []))"

text \<open>The text goes to the buffer of the service, of 255 bytes.\<close>

definition put_temp :: "string \<Rightarrow> string \<Rightarrow> weather \<Rightarrow> ((int \<times> string) \<times> weather) option" where
  "put_temp ID put_value w =
     (let w1 = (if ID = ''0'' then w\<lparr>temp0_state := of_milli put_value\<rparr>
                else if ID = ''1'' then w\<lparr>temp1_state := of_milli put_value\<rparr> else w)
      in if length put_value < 255 then Some ((int (length put_value), put_value), w1) else None)"

section \<open>What is set is what is read\<close>

text \<open>The four roundings together move a whole number of thousandths by less than a half.\<close>

lemma milli_of_milli:
  assumes "n \<le> 4000000"
  shows "milli (of_milli (sign_text neg @ decimal n)) = pad (CHR '' '') 6 (sign_text neg @ decimal n)"
proof -
  define x where "x = (of_nat n :: rat)"
  have x: "0 \<le> x" "x \<le> 4000000" using assms of_nat_le_iff [of n 4000000, where 'a = rat] by (simp_all add: x_def)
  define a where "a = nearest binary64 x"
  define b where "b = nearest binary64 (a / 1000)"
  define c where "c = nearest binary32 b"
  define d where "d = nearest binary32 (c * 1000)"
  have a: "0 \<le> a" "\<bar>a - x\<bar> \<le> x / 16777216 / 16777216 + 1 / 1000000000"
    using x nearest_nonneg nearest64_error by (auto simp: a_def)
  have b: "0 \<le> b" "\<bar>b - a / 1000\<bar> \<le> a / 1000 / 16777216 / 16777216 + 1 / 1000000000"
    using a nearest_nonneg nearest64_error [of "a / 1000"] by (auto simp: b_def)
  have c: "0 \<le> c" "\<bar>c - b\<bar> \<le> b / 16777216 + 1 / 1000000"
    using b nearest_nonneg nearest32_error by (auto simp: c_def)
  have d: "\<bar>d - c * 1000\<bar> \<le> c * 1000 / 16777216 + 1 / 1000000"
    using c nearest32_error [of "c * 1000"] by (simp add: d_def)
  have bounds: "a \<le> 5000000" "b \<le> 5000000" "c \<le> 5000000" "d \<le> 5000000" using a(2) b(2) c(2) d x by linarith+
  have big: "(5000000 :: rat) < 2 powi emax binary32" "(5000000 :: rat) < 2 powi emax binary64"
    by (simp_all add: binary32_def binary64_def)
  have "of_milli (sign_text neg @ decimal n) = Fin neg c"
    using bounds big by (simp add: of_milli_def atof_decimal rounded_Fin flip: x_def a_def b_def c_def)
  moreover have "apply_fl binary32 (\<lambda>x. x * 1000) (Fin neg c) = Fin neg d"
    using bounds big by (simp add: rounded_Fin flip: d_def)
  moreover have "\<bar>d - x\<bar> < 1 / 2" using a(2) b(2) c(2) d x by linarith
  then have "half_even d = int n" by (intro half_even_near) (simp add: x_def)
  ultimately show ?thesis by (simp add: milli_def sprintf_6_0f_def sign_text_def)
qed

lemma put_then_get:
  assumes "n \<le> 4000000" and "ID \<in> {''0'', ''1''}" and "t = sign_text neg @ decimal n"
  obtains w1 where "put_temp ID t w = Some ((int (length t), t), w1)"
    and "get_temp ID w1 = (int (length (pad (CHR '' '') 6 t)), pad (CHR '' '') 6 t)"
    and "\<And>ID'. ID' \<noteq> ID \<Longrightarrow> get_temp ID' w1 = get_temp ID' w"
proof -
  have "length (decimal n) \<le> 7" using assms(1) by (intro decimal_digits) simp_all
  then have "length t < 255" by (simp add: assms(3) sign_text_def)
  moreover have "milli (of_milli t) = pad (CHR '' '') 6 t" using milli_of_milli [OF assms(1)] by (simp add: assms(3))
  ultimately show ?thesis using assms(2) that by (auto simp: put_temp_def get_temp_def Let_def)
qed

text \<open>The adapters in the environment of the web server; a fault is not an answer.\<close>

definition weather_write :: "string \<Rightarrow> weather \<Rightarrow> string \<Rightarrow> int \<times> string" where
  "weather_write ID w x = (case put_temp ID x w of Some (answer, _) \<Rightarrow> answer | None \<Rightarrow> (0, []))"

lemma number_no_nul: "CHR 0x00 \<notin> set (sign_text neg @ decimal n)" "CHR 0x00 \<notin> set (pad (CHR '' '') 6 (sign_text neg @ decimal n))"
proof -
  have "CHR 0x00 \<notin> set (decimal n)" using digits_of_decimal [of n] digit_facts(5) by fastforce
  then show "CHR 0x00 \<notin> set (sign_text neg @ decimal n)" by (simp add: sign_text_def)
  then show "CHR 0x00 \<notin> set (pad (CHR '' '') 6 (sign_text neg @ decimal n))" by (simp add: pad_def)
qed

section \<open>The properties\<close>

text \<open>
  C14. A temperature over the web. A client sets a temperature to a whole number of thousandths of a degree, up to
  4000 degrees of either sign, and is answered with its text, which also goes to the event queue; a client that reads
  the service afterwards gets the same number, in a field of six characters: the four roundings of \<open>float\<close> and
  \<open>double\<close> on the way never change it. The other temperature stays as it is.
\<close>

theorem temperature_over_web:
  assumes put: "http_method r = ''PUT''" "upload r \<noteq> []" "made e" "tm_ok (now e)"
      "global_queue (events st) = Some g" "queues (events st) g = Some q"
      "set (service_head (mem st)) \<subseteq> dom (services (mem st))"
      "find (\<lambda>s. map_option value_url (services (mem st) s) = Some (url r)) (service_head (mem st)) = Some s"
      "services (mem st) s = Some sv" "put_function sv = Some f" "url r \<noteq> ''Log''"
      "parse_value e (takeWhile (\<lambda>c. c \<noteq> CHR 0x00) (upload r)) = Some t"
    and "write_device e f = weather_write (sID sv) w" and "sID sv \<in> {''0'', ''1''}"
    and "t = sign_text neg @ decimal n" and "n \<le> 4000000"
  shows "\<exists>w1 st1 q1 es. put_temp (sID sv) t w = Some ((int (length t), t), w1) \<and>
    answer_to_connection e r (Data (upload r)) st =
      (let a = send_xml e (print_value e t) in Some (fst a, snd a, Dangling, st1)) \<and>
    mem st1 = mem st \<and> queues (events st1) g = Some q1 \<and>
    event_queue_head q1 = event_queue_head q @ \<lparr>eid = Some (url r), edata = Some t\<rparr> # es \<and>
    (\<forall>ID. ID \<noteq> sID sv \<longrightarrow> get_temp ID w1 = get_temp ID w) \<and>
    (\<forall>e2 r2 st2. http_method r2 = ''GET'' \<and> url r2 = url r \<and> url r \<notin> {''/log'', ''/events'', ''/devices''} \<and>
       arg_x r2 \<noteq> Some ''1'' \<and> arg_p r2 \<noteq> Some ''1'' \<and> made e2 \<and> tm_ok (now e2) \<and> global_ok (events st2) \<and>
       mem st2 = mem st \<and> read_device e2 = (\<lambda>f. get_temp (sID sv) w1) \<longrightarrow>
       (\<exists>st3. answer_to_connection e2 r2 Aptr st2 =
         (let a = send_xml e2 (print_value e2 (pad (CHR '' '') 6 t)) in Some (fst a, snd a, Null, st3))))"
proof -
  let ?p = "pad (CHR '' '') 6 t"
  obtain w1 where w: "put_temp (sID sv) t w = Some ((int (length t), t), w1)" "get_temp (sID sv) w1 = (int (length ?p), ?p)"
    "\<And>ID'. ID' \<noteq> sID sv \<Longrightarrow> get_temp ID' w1 = get_temp ID' w"
    using put_then_get [OF assms(16,14,15)] by blast
  have len: "t \<noteq> []" "length t < 255" "length ?p < 255"
  proof -
    have "length (decimal n) \<le> 7" using assms(16) by (intro decimal_digits) simp_all
    then show "t \<noteq> []" "length t < 255" "length ?p < 255"
      using decimal_not_Nil [of n] by (auto simp: assms(15) sign_text_def pad_def)
  qed
  have out: "write_device e f t = (int (length t), t)" using assms(13) w(1) by (simp add: weather_write_def)
  have cut: "takeWhile (\<lambda>c. c \<noteq> CHR 0x00) (take (nat (int (length t))) t) = t"
    "takeWhile (\<lambda>c. c \<noteq> CHR 0x00) (take (nat (int (length ?p))) ?p) = ?p"
    using number_no_nul [of neg n] by (auto simp: assms(15) takeWhile_eq_all_conv)
  obtain st1 q1 es where web: "answer_to_connection e r (Data (upload r)) st =
      (let a = send_xml e (print_value e t) in Some (fst a, snd a, Dangling, st1))"
    "mem st1 = mem st" "queues (events st1) g = Some q1"
    "event_queue_head q1 = event_queue_head q @ \<lparr>eid = Some (url r), edata = Some t\<rparr> # es"
    unfolding Let_def using put_request_answered [OF put out, unfolded cut(1)] len by fastforce
  have get: "\<exists>st3. answer_to_connection e2 r2 Aptr st2 =
      (let a = send_xml e2 (print_value e2 ?p) in Some (fst a, snd a, Null, st3))"
    if r2: "http_method r2 = ''GET''" "url r2 = url r" "url r \<notin> {''/log'', ''/events'', ''/devices''}" "arg_x r2 \<noteq> Some ''1''"
      "arg_p r2 \<noteq> Some ''1''" "made e2" "tm_ok (now e2)" "global_ok (events st2)" "mem st2 = mem st"
      "read_device e2 = (\<lambda>f. get_temp (sID sv) w1)" for e2 r2 st2
  proof -
    have read: "read_device e2 k = (int (length ?p), ?p)" for k using r2(10) w(2) by simp
    have "?p \<noteq> []" using len(1) by (simp add: pad_def)
    have url2: "url r2 \<notin> {''/log'', ''/events'', ''/devices''}" and dom: "set (service_head (mem st2)) \<subseteq> dom (services (mem st2))"
      and bound: "\<And>k. 0 \<le> fst (read_device e2 k) \<and> fst (read_device e2 k) < 255"
      and found: "find (\<lambda>s. map_option value_url (services (mem st2) s) = Some (url r2)) (service_head (mem st2)) = Some s"
      using r2(2,3,9) put(7,8) len(3) read by simp_all
    obtain st3 a where "answer_to_connection e2 r2 Aptr st2 = Some (fst a, snd a, Null, st3)"
      "a = send_xml e2 (print_value e2 (takeWhile (\<lambda>c. c \<noteq> CHR 0x00) (take (nat (int (length ?p))) ?p)))"
      using get_request_answered [OF r2(1) url2 r2(4-8) dom bound, unfolded found] \<open>?p \<noteq> []\<close>
      by (simp only: read option.case prod.case of_nat_eq_0_iff length_0_conv if_False) blast
    then show ?thesis unfolding Let_def cut(2) by blast
  qed
  show ?thesis
  proof (intro exI [of _ w1] exI [of _ st1] exI [of _ q1] exI [of _ es] conjI)
    show "\<forall>ID. ID \<noteq> sID sv \<longrightarrow> get_temp ID w1 = get_temp ID w" using w(3) by simp
  qed (rule w(1) web | (intro allI impI, elim conjE, rule get, assumption+))+
qed

definition weather_env :: env where
  "weather_env = demo_env\<lparr>write_device := (\<lambda>f. weather_write ''0'' weather_init)\<rparr>"

definition reading_env :: "weather \<Rightarrow> env" where
  "reading_env w = demo_env\<lparr>read_device := (\<lambda>f. get_temp ''0'' w)\<rparr>"

lemma weather_env_sel [simp]:
  "made weather_env" "queued weather_env = 1" "tm_ok (now weather_env)" "print_value weather_env = Some"
  "parse_value weather_env = Some" "write_device weather_env f = weather_write ''0'' weather_init"
  "made (reading_env w)" "queued (reading_env w) = 1" "tm_ok (now (reading_env w))" "print_value (reading_env w) = Some"
  "read_device (reading_env w) = (\<lambda>f. get_temp ''0'' w)"
  by (simp_all add: weather_env_def reading_env_def demo_env_def tm_ok_def)

theorem temperature_over_web_witness:
  "\<exists>w1 st1 st3. put_temp ''0'' ''21500'' weather_init = Some ((5, ''21500''), w1) \<and>
    answer_to_connection weather_env \<lparr>url = ''/Lamp/1/Switch/0'', http_method = ''PUT'', arg_x = None, arg_p = None,
      cookie = None, upload = ''21500''\<rparr> (Data ''21500'') served = Some (1, Some (Response 200 ''21500'' None), Dangling, st1) \<and>
    answer_to_connection (reading_env w1) \<lparr>url = ''/Lamp/1/Switch/0'', http_method = ''GET'', arg_x = None, arg_p = None,
      cookie = None, upload = []\<rparr> Aptr served = Some (1, Some (Response 200 '' 21500'' None), Null, st3)"
proof -
  let ?r = "\<lparr>url = ''/Lamp/1/Switch/0'', http_method = ''PUT'', arg_x = None, arg_p = None, cookie = None, upload = ''21500''\<rparr>"
  let ?r2 = "\<lparr>url = ''/Lamp/1/Switch/0'', http_method = ''GET'', arg_x = None, arg_p = None, cookie = None, upload = []\<rparr>"
  have put: "http_method ?r = ''PUT''" "upload ?r \<noteq> []" "made weather_env" "tm_ok (now weather_env)"
    "global_queue (server.events served) = Some 0"
    "queues (server.events served) 0 = Some ((create_event_queue ''g'')\<lparr>send_log_events := HPD_YES\<rparr>)"
    "set (service_head (mem served)) \<subseteq> dom (services (mem served))"
    "find (\<lambda>s. map_option value_url (services (mem served) s) = Some (url ?r)) (service_head (mem served)) = Some 1"
    "services (mem served) 1 = Some (lamp\<lparr>put_function := Some 8\<rparr>)" "put_function (lamp\<lparr>put_function := Some 8\<rparr>) = Some 8"
    "url ?r \<noteq> ''Log''" "parse_value weather_env (takeWhile (\<lambda>c. c \<noteq> CHR 0x00) (upload ?r)) = Some ''21500''"
    by (simp_all add: two_sessions_def)
  have ID: "write_device weather_env 8 = weather_write (sID (lamp\<lparr>put_function := Some 8\<rparr>)) weather_init"
    "sID (lamp\<lparr>put_function := Some 8\<rparr>) \<in> {''0'', ''1''}" using first_port(2) by simp_all
  have num: "''21500'' = sign_text False @ decimal 21500" "21500 \<le> (4000000 :: nat)"
    by (simp_all add: sign_text_def decimal.simps) code_simp
  have p: "pad (CHR '' '') 6 ''21500'' = '' 21500''" by (simp add: pad_def)
  have send: "send_xml weather_env (print_value weather_env x) = (1, Some (Response 200 x None))"
    "send_xml (reading_env w) (print_value (reading_env w) x) = (1, Some (Response 200 x None))" for x w
    by (simp_all add: send_xml_def)
  have s: "sID (lamp\<lparr>put_function := Some 8\<rparr>) = ''0''" "int (length ''21500'') = 5" using first_port(2) by simp_all
  from temperature_over_web [OF put ID num, unfolded p s send Let_def fst_conv snd_conv] show ?thesis
  proof (elim exE conjE, goal_cases)
    case (1 w1 st1 q1 es)
    have "\<exists>st3. answer_to_connection (reading_env w1) ?r2 Aptr served = Some (1, Some (Response 200 '' 21500'' None), Null, st3)"
      using 1(7) [rule_format, of ?r2 "reading_env w1" served] global_ok_demo by (simp add: send_xml_def)
    with 1(1,2) show ?case by (simp only: request.simps) blast
  qed
qed

text \<open>
  Text that is no number sets the temperature to zero, although the client is answered with the text; a
  text of 255 characters or more is written behind the buffer.
\<close>

theorem put_temp_no_number:
  "put_temp ''0'' ''warm'' weather_init = Some ((4, ''warm''), weather_init\<lparr>temp0_state := Fin False 0\<rparr>)"
  by code_simp

theorem put_temp_overflow: "255 \<le> length put_value \<Longrightarrow> put_temp ID put_value w = None"
  by (simp add: put_temp_def)

end
