(* ===== verification/SList.thy ===== *)
theory SList
  imports CList "HOL-Library.Multiset"
begin

text \<open>
  The singly linked lists of the client, the \<open>LL_\<close> macros of \<open>hpclientSD/utlist.h\<close>: prepending, appending,
  concatenating, deleting, iterating, searching, and the merge sort. The heap maps the address of a node to its
  \<open>next\<close> pointer. \<open>lseg h p xs q\<close> says that the chain from \<open>p\<close> has the nodes \<open>xs\<close> and then \<open>q\<close>; the macros
  are shown to do on \<open>xs\<close> what their names say.

  A step over a pointer that is null, or to a node that is not there, is a fault (\<open>None\<close>), and so is a loop that
  does not end: the loops are \<open>partial_function\<close>s, which are shown to return on every list.
\<close>

type_synonym llheap = "nat \<rightharpoonup> nat option"

definition assign :: "llheap \<Rightarrow> nat \<Rightarrow> nat option \<Rightarrow> llheap option" where
  "assign h a v = (case h a of None \<Rightarrow> None | Some _ \<Rightarrow> Some (h(a \<mapsto> v)))"

definition LL_PREPEND :: "llheap \<Rightarrow> nat option \<Rightarrow> nat \<Rightarrow> (llheap \<times> nat option) option" where
  "LL_PREPEND h head add = do { h1 \<leftarrow> assign h add head; Some (h1, Some add) }"

text \<open>The loop \<open>while (_tmp->next) _tmp = _tmp->next\<close>.\<close>

partial_function (option) last_node :: "llheap \<Rightarrow> nat \<Rightarrow> nat option" where
  "last_node h tmp = do { n \<leftarrow> h tmp; (case n of None \<Rightarrow> Some tmp | Some t \<Rightarrow> last_node h t) }"

definition LL_CONCAT :: "llheap \<Rightarrow> nat option \<Rightarrow> nat option \<Rightarrow> (llheap \<times> nat option) option" where
  "LL_CONCAT h head1 head2 = (case head1 of
     Some p \<Rightarrow> do { t \<leftarrow> last_node h p; h1 \<leftarrow> assign h t head2; Some (h1, head1) }
   | None \<Rightarrow> Some (h, head2))"

definition LL_APPEND :: "llheap \<Rightarrow> nat option \<Rightarrow> nat \<Rightarrow> (llheap \<times> nat option) option" where
  "LL_APPEND h head add = do {
     h1 \<leftarrow> assign h add None;
     (case head of
        Some p \<Rightarrow> do { t \<leftarrow> last_node h1 p; h2 \<leftarrow> assign h1 t (Some add); Some (h2, head) }
      | None \<Rightarrow> Some (h1, Some add))
   }"

text \<open>The loop of \<open>LL_DELETE\<close>, which stops before the node or at the last one.\<close>

partial_function (option) before_node :: "llheap \<Rightarrow> nat \<Rightarrow> nat \<Rightarrow> nat option" where
  "before_node h del tmp = do {
     n \<leftarrow> h tmp;
     (case n of None \<Rightarrow> Some tmp | Some t \<Rightarrow> if t = del then Some tmp else before_node h del t)
   }"

definition LL_DELETE :: "llheap \<Rightarrow> nat option \<Rightarrow> nat \<Rightarrow> (llheap \<times> nat option) option" where
  "LL_DELETE h head del =
     (if head = Some del then do { n \<leftarrow> h del; Some (h, n) }
      else do {
        p \<leftarrow> head;
        t \<leftarrow> before_node h del p;
        n \<leftarrow> h t;
        (if n \<noteq> None then do { d \<leftarrow> h del; h1 \<leftarrow> assign h t d; Some (h1, head) } else Some (h, head))
      })"

text \<open>
  The nodes that \<open>LL_FOREACH\<close> visits. A body that releases its node makes the step to the next one a fault;
  \<open>LL_FOREACH_SAFE\<close> reads the pointer before the body. \<open>body\<close> changes the heap and the head.
\<close>

partial_function (option) LL_FOREACH :: "(nat \<Rightarrow> llheap \<times> nat option \<Rightarrow> (llheap \<times> nat option) option) \<Rightarrow> nat option \<Rightarrow>
    llheap \<times> nat option \<Rightarrow> (llheap \<times> nat option) option" where
  "LL_FOREACH body el s = (case el of
     None \<Rightarrow> Some s
   | Some a \<Rightarrow> do { s1 \<leftarrow> body a s; n \<leftarrow> fst s1 a; LL_FOREACH body n s1 })"

partial_function (option) LL_FOREACH_SAFE :: "(nat \<Rightarrow> llheap \<times> nat option \<Rightarrow> (llheap \<times> nat option) option) \<Rightarrow> nat option \<Rightarrow>
    llheap \<times> nat option \<Rightarrow> (llheap \<times> nat option) option" where
  "LL_FOREACH_SAFE body el s = (case el of
     None \<Rightarrow> Some s
   | Some a \<Rightarrow> do { n \<leftarrow> fst s a; s1 \<leftarrow> body a s; LL_FOREACH_SAFE body n s1 })"

partial_function (option) LL_SEARCH :: "llheap \<Rightarrow> (nat \<Rightarrow> int) \<Rightarrow> nat option \<Rightarrow> nat option option" where
  "LL_SEARCH h cmp out = (case out of
     None \<Rightarrow> Some None
   | Some a \<Rightarrow> do { n \<leftarrow> h a; (if cmp a = 0 then Some (Some a) else LL_SEARCH h cmp n) })"

text \<open>How a list is emptied (\<open>destroy_request_service_list\<close>): every node is unlinked and released.\<close>

definition unlink_free :: "nat \<Rightarrow> llheap \<times> nat option \<Rightarrow> (llheap \<times> nat option) option" where
  "unlink_free a s = do { (h, head) \<leftarrow> LL_DELETE (fst s) (snd s) a; Some (h(a := None), head) }"

section \<open>The merge sort\<close>

text \<open>
  \<open>cmp\<close> compares the contents of two nodes. The sizes are numbers of nodes (\<open>int\<close> in the code).
  \<open>ls_split\<close> is the loop that moves \<open>q\<close> over at most \<open>insize\<close> nodes.
\<close>

fun ls_split :: "llheap \<Rightarrow> nat \<Rightarrow> nat option \<Rightarrow> nat \<Rightarrow> (nat option \<times> nat) option" where
  "ls_split h 0 q psize = Some (q, psize)"
| "ls_split h (Suc k) q psize = do {
     a \<leftarrow> q;
     n \<leftarrow> h a;
     (if n = None then Some (None, Suc psize) else ls_split h k n (Suc psize))
   }"

text \<open>The node \<open>e\<close> goes to the end of the list that is built.\<close>

definition ls_emit :: "llheap \<Rightarrow> nat option \<Rightarrow> nat option \<Rightarrow> nat \<Rightarrow> (llheap \<times> nat option) option" where
  "ls_emit h list tail e = (case tail of
     Some t \<Rightarrow> do { h1 \<leftarrow> assign h t (Some e); Some (h1, list) }
   | None \<Rightarrow> Some (h, Some e))"

text \<open>The choice of the next node, with the pointers and the sizes after it.\<close>

definition ls_take :: "(nat \<Rightarrow> nat \<Rightarrow> int) \<Rightarrow> llheap \<Rightarrow> nat option \<Rightarrow> nat option \<Rightarrow> nat \<Rightarrow> nat \<Rightarrow>
    (nat \<times> nat option \<times> nat option \<times> nat \<times> nat) option" where
  "ls_take cmp h p q psize qsize =
     (if psize = 0 then do { e \<leftarrow> q; n \<leftarrow> h e; Some (e, p, n, psize, qsize - 1) }
      else if qsize = 0 \<or> q = None then do { e \<leftarrow> p; n \<leftarrow> h e; Some (e, n, q, psize - 1, qsize) }
      else do {
        a \<leftarrow> p;
        b \<leftarrow> q;
        (if cmp a b \<le> 0 then do { n \<leftarrow> h a; Some (a, n, q, psize - 1, qsize) }
         else do { n \<leftarrow> h b; Some (b, p, n, psize, qsize - 1) })
      })"

partial_function (option) ls_merge :: "(nat \<Rightarrow> nat \<Rightarrow> int) \<Rightarrow> llheap \<Rightarrow> nat option \<Rightarrow> nat option \<Rightarrow> nat option \<Rightarrow> nat option \<Rightarrow>
    nat \<Rightarrow> nat \<Rightarrow> (llheap \<times> nat option \<times> nat option \<times> nat option) option" where
  "ls_merge cmp h list tail p q psize qsize =
     (if 0 < psize \<or> 0 < qsize \<and> q \<noteq> None then do {
        (e, p1, q1, psize1, qsize1) \<leftarrow> ls_take cmp h p q psize qsize;
        (h1, list1) \<leftarrow> ls_emit h list tail e;
        ls_merge cmp h1 list1 (Some e) p1 q1 psize1 qsize1
      } else Some (h, list, tail, q))"

partial_function (option) ls_pass :: "(nat \<Rightarrow> nat \<Rightarrow> int) \<Rightarrow> nat \<Rightarrow> llheap \<Rightarrow> nat option \<Rightarrow> nat option \<Rightarrow> nat option \<Rightarrow> nat \<Rightarrow>
    (llheap \<times> nat option \<times> nat option \<times> nat) option" where
  "ls_pass cmp insize h list tail p nmerges = (case p of
     None \<Rightarrow> Some (h, list, tail, nmerges)
   | Some a \<Rightarrow> do {
       (q, psize) \<leftarrow> ls_split h insize p 0;
       (h1, list1, tail1, q1) \<leftarrow> ls_merge cmp h list tail p q psize insize;
       ls_pass cmp insize h1 list1 tail1 q1 (Suc nmerges)
     })"

partial_function (option) ls_loop :: "(nat \<Rightarrow> nat \<Rightarrow> int) \<Rightarrow> nat \<Rightarrow> llheap \<Rightarrow> nat option \<Rightarrow> (llheap \<times> nat option) option" where
  "ls_loop cmp insize h list = do {
     (h1, list1, tail, nmerges) \<leftarrow> ls_pass cmp insize h None None list 0;
     t \<leftarrow> tail;
     h2 \<leftarrow> assign h1 t None;
     (if nmerges \<le> 1 then Some (h2, list1) else ls_loop cmp (insize * 2) h2 list1)
   }"

definition LL_SORT :: "(nat \<Rightarrow> nat \<Rightarrow> int) \<Rightarrow> llheap \<Rightarrow> nat option \<Rightarrow> (llheap \<times> nat option) option" where
  "LL_SORT cmp h list = (if list = None then Some (h, None) else ls_loop cmp 1 h list)"

section \<open>Chains\<close>

fun lseg :: "llheap \<Rightarrow> nat option \<Rightarrow> nat list \<Rightarrow> nat option \<Rightarrow> bool" where
  "lseg h p [] q \<longleftrightarrow> p = q"
| "lseg h p (x # xs) q \<longleftrightarrow> p = Some x \<and> (\<exists>n. h x = Some n \<and> lseg h n xs q)"

definition ll :: "llheap \<Rightarrow> nat option \<Rightarrow> nat list \<Rightarrow> bool" where
  "ll h head xs \<longleftrightarrow> distinct xs \<and> lseg h head xs None"

lemma lseg_append: "lseg h p (xs @ ys) q \<longleftrightarrow> (\<exists>m. lseg h p xs m \<and> lseg h m ys q)"
  by (induction xs arbitrary: p) auto

lemma lseg_frame: "\<forall>x\<in>set xs. h' x = h x \<Longrightarrow> lseg h' p xs q = lseg h p xs q"
  by (induction xs arbitrary: p) auto

lemma lseg_upd [simp]: "a \<notin> set xs \<Longrightarrow> lseg (h(a := v)) p xs q = lseg h p xs q"
  by (rule lseg_frame) auto

lemma lseg_dom: "lseg h p xs q \<Longrightarrow> set xs \<subseteq> dom h"
  by (induction xs arbitrary: p) auto

lemma lseg_first: "lseg h p xs None \<Longrightarrow> p = first xs"
  by (cases xs) auto

lemma lseg_snoc: "lseg h p (xs @ [t]) q \<Longrightarrow> t \<notin> set xs \<Longrightarrow> lseg (h(t \<mapsto> q')) p (xs @ [t]) q'"
  by (auto simp: lseg_append)

lemma last_node_lseg: "lseg h (Some p) (xs @ [t]) None \<Longrightarrow> last_node h p = Some t"
proof (induction xs arbitrary: p)
  case Nil
  then show ?case by (subst last_node.simps) auto
next
  case (Cons x xs)
  then obtain n where "p = x" "h x = Some n" "lseg h n (xs @ [t]) None" by auto
  moreover from this obtain m where "n = Some m" by (cases n; cases xs) auto
  ultimately show ?case using Cons.IH by (simp add: last_node.simps [of h x])
qed

lemma ll_last: "ll h head xs \<Longrightarrow> xs \<noteq> [] \<Longrightarrow> \<exists>p. head = Some p \<and> last_node h p = Some (last xs)"
  using last_node_lseg [of h _ "butlast xs" "last xs"] by (cases xs) (auto simp: ll_def)

section \<open>What the macros do on the list\<close>

lemma ll_prepend:
  assumes "ll h head xs" and "a \<notin> set xs" and "h a \<noteq> None"
  shows "\<exists>h'. LL_PREPEND h head a = Some (h', Some a) \<and> ll h' (Some a) (a # xs)"
  using assms by (auto simp: LL_PREPEND_def assign_def ll_def)

lemma ll_concat:
  assumes "ll h head1 xs" and "ll h head2 ys" and "set xs \<inter> set ys = {}"
  shows "\<exists>h' head'. LL_CONCAT h head1 head2 = Some (h', head') \<and> ll h' head' (xs @ ys)"
proof (cases xs rule: rev_cases)
  case Nil
  then show ?thesis using assms by (simp add: LL_CONCAT_def ll_def)
next
  case (snoc zs t)
  then obtain p where p: "head1 = Some p" "last_node h p = Some t" using ll_last [OF assms(1)] by auto
  have "h t \<noteq> None" using assms(1) lseg_dom [of h head1 xs None] snoc by (auto simp: ll_def)
  moreover have "lseg (h(t \<mapsto> head2)) (Some p) xs head2"
    using assms(1) p(1) snoc lseg_snoc [of h "Some p" zs t None head2] by (simp add: ll_def)
  moreover have "lseg (h(t \<mapsto> head2)) head2 ys None" using assms(2,3) snoc by (auto simp: ll_def)
  ultimately show ?thesis using assms p by (auto simp: LL_CONCAT_def assign_def ll_def lseg_append)
qed

lemma ll_append:
  assumes "ll h head xs" and "a \<notin> set xs" and "h a \<noteq> None"
  shows "\<exists>h' head'. LL_APPEND h head a = Some (h', head') \<and> ll h' head' (xs @ [a])"
proof -
  let ?h = "h(a \<mapsto> None)"
  have "ll ?h head xs" "ll ?h (Some a) [a]" using assms by (simp_all add: ll_def)
  then obtain h' head' where "LL_CONCAT ?h head (Some a) = Some (h', head')" "ll h' head' (xs @ [a])"
    using ll_concat [of ?h head xs "Some a" "[a]"] assms(2) by auto
  moreover have "LL_APPEND h head a = LL_CONCAT ?h head (Some a)"
    using assms(3) by (auto simp: LL_APPEND_def LL_CONCAT_def assign_def split: option.split)
  ultimately show ?thesis by simp
qed

lemma before_node_lseg:
  "lseg h (Some p) (xs @ [t]) (Some d) \<Longrightarrow> d \<notin> set (xs @ [t]) \<Longrightarrow> before_node h d p = Some t"
proof (induction xs arbitrary: p)
  case Nil
  then show ?case by (subst before_node.simps) auto
next
  case (Cons x xs)
  then obtain n where n: "p = x" "h x = Some n" "lseg h n (xs @ [t]) (Some d)" by auto
  moreover from this obtain m where "n = Some m" "m \<noteq> d" using Cons.prems(2) by (cases n; cases xs) auto
  ultimately show ?case using Cons by (simp add: before_node.simps [of h d x])
qed

lemma ll_delete:
  assumes "ll h head xs" and "a \<in> set xs"
  shows "\<exists>h' head'. LL_DELETE h head a = Some (h', head') \<and> ll h' head' (remove1 a xs) \<and> (\<forall>b. b \<notin> set xs \<longrightarrow> h' b = h b)"
proof -
  obtain ys zs where xs: "xs = ys @ a # zs" "a \<notin> set ys" using split_list_first [OF assms(2)] by blast
  then have a: "a \<notin> set zs" "distinct (ys @ zs)" using assms(1) by (auto simp: ll_def)
  obtain n where n: "lseg h head ys (Some a)" "h a = Some n" "lseg h n zs None" using assms(1) xs(1) by (auto simp: ll_def lseg_append)
  have r: "remove1 a xs = ys @ zs" using xs by (simp add: remove1_append)
  show ?thesis
  proof (cases ys rule: rev_cases)
    case Nil
    then show ?thesis using n a r by (auto simp: LL_DELETE_def ll_def)
  next
    case (snoc us t)
    obtain p where p: "head = Some p" "p \<noteq> a" using n(1) snoc xs(2) by (cases us) auto
    have t: "before_node h a p = Some t" using before_node_lseg [of h p us t a] n(1) p snoc xs(2) by simp
    have ht: "h t = Some (Some a)" using n(1) snoc by (auto simp: lseg_append)
    have "lseg (h(t \<mapsto> n)) (Some p) ys n"
      using lseg_snoc [of h "Some p" us t "Some a" n] n(1) p(1) a(2) snoc by simp
    moreover have "lseg (h(t \<mapsto> n)) n zs None" using n(3) a(2) snoc by auto
    ultimately show ?thesis
      using p t ht n(2) r a(2) xs snoc by (auto simp: LL_DELETE_def assign_def ll_def lseg_append)
  qed
qed

section \<open>The sort on the list\<close>

text \<open>What the sort does on the list of nodes, step by step: a merge, a pass over all pairs of blocks, the doubling.\<close>

fun lmerge :: "(nat \<Rightarrow> nat \<Rightarrow> int) \<Rightarrow> nat list \<Rightarrow> nat list \<Rightarrow> nat list" where
  "lmerge cmp [] [] = []"
| "lmerge cmp [] (y # ys) = y # lmerge cmp [] ys"
| "lmerge cmp (x # xs) [] = x # lmerge cmp xs []"
| "lmerge cmp (x # xs) (y # ys) = (if cmp x y \<le> 0 then x # lmerge cmp xs (y # ys) else y # lmerge cmp (x # xs) ys)"

function lpass :: "(nat \<Rightarrow> nat \<Rightarrow> int) \<Rightarrow> nat \<Rightarrow> nat list \<Rightarrow> nat list" where
  "lpass cmp k xs = (if k = 0 \<or> xs = [] then [] else lmerge cmp (take k xs) (take k (drop k xs)) @ lpass cmp k (drop k (drop k xs)))"
  by auto
termination by (relation "measure (\<lambda>(cmp, k, xs). length xs)") auto

function pieces :: "nat \<Rightarrow> nat list \<Rightarrow> nat" where
  "pieces k xs = (if k = 0 \<or> xs = [] then 0 else Suc (pieces k (drop k (drop k xs))))"
  by auto
termination by (relation "measure (\<lambda>(k, xs). length xs)") auto

function lsort :: "(nat \<Rightarrow> nat \<Rightarrow> int) \<Rightarrow> nat \<Rightarrow> nat list \<Rightarrow> nat list" where
  "lsort cmp k xs = (if k = 0 \<or> length xs \<le> 2 * k then lpass cmp k xs else lsort cmp (2 * k) (lpass cmp k xs))"
  by auto

declare lpass.simps [simp del] pieces.simps [simp del]

lemma mset_lmerge [simp]: "mset (lmerge cmp xs ys) = mset xs + mset ys"
  by (induction cmp xs ys rule: lmerge.induct) auto

lemma length_lmerge [simp]: "length (lmerge cmp xs ys) = length xs + length ys"
  by (metis mset_lmerge size_mset size_union)

lemma set_lmerge [simp]: "set (lmerge cmp xs ys) = set xs \<union> set ys"
  by (metis mset_lmerge set_mset_mset set_mset_union)

lemma mset_lpass: "0 < k \<Longrightarrow> mset (lpass cmp k xs) = mset xs"
proof (induction cmp k xs rule: lpass.induct)
  case (1 cmp k xs)
  have "mset xs = mset (take k xs) + (mset (take k (drop k xs)) + mset (drop k (drop k xs)))"
    by (metis append_take_drop_id mset_append)
  then show ?case using 1 by (subst lpass.simps) (auto simp: add.assoc)
qed

lemma length_lpass: "0 < k \<Longrightarrow> length (lpass cmp k xs) = length xs"
  by (metis mset_lpass size_mset)

termination lsort
  by (relation "measure (\<lambda>(cmp, k, xs). length xs - k)") (auto simp: length_lpass)

declare lsort.simps [simp del]

lemma pieces_le_1: "0 < k \<Longrightarrow> pieces k xs \<le> 1 \<longleftrightarrow> length xs \<le> 2 * k"
  by (subst pieces.simps, subst pieces.simps) auto

section \<open>The heap follows the list\<close>

definition built :: "llheap \<Rightarrow> nat option \<Rightarrow> nat option \<Rightarrow> nat list \<Rightarrow> bool" where
  "built h list tail out \<longleftrightarrow> (\<exists>m. lseg h list out m) \<and>
     (if out = [] then list = None \<and> tail = None else tail = Some (last out))"

lemma ls_emit_built:
  assumes "built h list tail out" and "distinct (out @ [e])" and "h e = Some n"
  obtains h1 list1 where "ls_emit h list tail e = Some (h1, list1)" and "built h1 list1 (Some e) (out @ [e])"
    and "\<And>b. b \<notin> set out \<Longrightarrow> h1 b = h b"
proof (cases out rule: rev_cases)
  case Nil
  then show ?thesis using assms that [of h "Some e"] by (auto simp: ls_emit_def built_def)
next
  case (snoc us t)
  obtain m where m: "lseg h list out m" "tail = Some t" using assms(1) snoc by (auto simp: built_def)
  have "h t \<noteq> None" using lseg_dom [OF m(1)] snoc by auto
  moreover have "lseg (h(t \<mapsto> Some e)) list out (Some e)" using lseg_snoc [of h list us t m] m(1) assms(2) snoc by simp
  ultimately show ?thesis
    using that [of "h(t \<mapsto> Some e)" list] m(2) assms snoc by (auto simp: ls_emit_def assign_def built_def lseg_append)
qed

text \<open>What is left of the second block, \<open>qs\<close>, and what comes behind it.\<close>

definition block :: "nat \<Rightarrow> nat list \<Rightarrow> nat list \<Rightarrow> bool" where
  "block qsize qs rest \<longleftrightarrow> length qs = qsize \<or> length qs < qsize \<and> rest = []"

lemma ls_take_lmerge:
  assumes "lseg h p ps m" and "lseg h q (qs @ rest) None" and "block qsize qs rest" and "ps \<noteq> [] \<or> qs \<noteq> []"
  obtains e n p1 q1 ps1 qs1 qsize1 where "ls_take cmp h p q (length ps) qsize = Some (e, p1, q1, length ps1, qsize1)"
    and "lmerge cmp ps qs = e # lmerge cmp ps1 qs1" and "h e = Some n"
    and "lseg h p1 ps1 (if ps1 = [] then p1 else m)" and "lseg h q1 (qs1 @ rest) None" and "block qsize1 qs1 rest"
    and "mset (ps @ qs) = add_mset e (mset (ps1 @ qs1))"
proof -
  show ?thesis
  proof (cases ps)
    case Nil
    then obtain y ys where ys: "qs = y # ys" using assms(4) by (cases qs) auto
    then obtain k where "q = Some y" "h y = Some k" "lseg h k (ys @ rest) None" using assms(2) by auto
    then show ?thesis
      using Nil ys assms(3) that [of y p k "[]" "qsize - 1" ys k] by (auto simp: ls_take_def block_def less_diff_conv)
  next
    case (Cons x xs)
    then obtain n where x: "p = Some x" "h x = Some n" "lseg h n xs m" using assms(1) by auto
    have n: "lseg h n xs (if xs = [] then n else m)" using x(3) by auto
    show ?thesis
    proof (cases qs)
      case Nil
      then have "qsize = 0 \<or> q = None" using assms(2,3) by (auto simp: block_def)
      then show ?thesis
        using Nil Cons x n assms that [of x n q xs qsize "[]" n] by (auto simp: ls_take_def)
    next
      case (Cons y ys)
      then obtain k where y: "q = Some y" "h y = Some k" "lseg h k (ys @ rest) None" using assms(2) by auto
      have q: "qsize \<noteq> 0" "block (qsize - 1) ys rest" using assms(3) Cons by (auto simp: block_def)
      show ?thesis
      proof (cases "cmp x y \<le> 0")
        case True
        then show ?thesis
          using \<open>ps = x # xs\<close> Cons x n y q assms that [of x n q xs qsize qs n] by (auto simp: ls_take_def)
      next
        case False
        then show ?thesis
          using \<open>ps = x # xs\<close> Cons x y q assms that [of y p k ps "qsize - 1" ys k] by (auto simp: ls_take_def)
      qed
    qed
  qed
qed

lemma ls_merge_lmerge:
  assumes "built h list tail out" and "lseg h p ps m" and "lseg h q (qs @ rest) None" and "block qsize qs rest"
    and "distinct (out @ ps @ qs @ rest)"
  shows "\<exists>h' list' tail' q'. ls_merge cmp h list tail p q (length ps) qsize = Some (h', list', tail', q') \<and>
    built h' list' tail' (out @ lmerge cmp ps qs) \<and> lseg h' q' rest None \<and>
    (\<forall>b. b \<notin> set (out @ ps @ qs) \<longrightarrow> h' b = h b)"
  using assms
proof (induction "length ps + length qs" arbitrary: h list tail out p ps q qs qsize m)
  case 0
  then have "ps = []" "qs = []" by simp_all
  moreover have "qsize = 0 \<or> q = None" using 0(4,5) \<open>qs = []\<close> by (auto simp: block_def)
  ultimately show ?case using 0 by (subst ls_merge.simps) auto
next
  case (Suc k)
  then have ne: "ps \<noteq> [] \<or> qs \<noteq> []" by auto
  obtain e n p1 q1 ps1 qs1 qsize1 where s: "ls_take cmp h p q (length ps) qsize = Some (e, p1, q1, length ps1, qsize1)"
    "lmerge cmp ps qs = e # lmerge cmp ps1 qs1" "h e = Some n" "lseg h p1 ps1 (if ps1 = [] then p1 else m)"
    "lseg h q1 (qs1 @ rest) None" "block qsize1 qs1 rest" "mset (ps @ qs) = add_mset e (mset (ps1 @ qs1))"
    by (rule ls_take_lmerge [OF Suc.prems(2-4) ne]) (rule that)
  have sets: "set ps \<union> set qs = insert e (set ps1 \<union> set qs1)"
    using arg_cong [OF s(7), of set_mset] by simp
  have "mset (out @ ps @ qs @ rest) = mset ((out @ [e]) @ ps1 @ qs1 @ rest)" using s(7) by simp
  then have d: "distinct ((out @ [e]) @ ps1 @ qs1 @ rest)" using Suc.prems(5) mset_eq_imp_distinct_iff by blast
  obtain h1 list1 where em: "ls_emit h list tail e = Some (h1, list1)" "built h1 list1 (Some e) (out @ [e])"
    "\<And>b. b \<notin> set out \<Longrightarrow> h1 b = h b"
    using ls_emit_built [OF Suc.prems(1) _ s(3)] d by auto
  have "set out \<inter> set ps1 = {}" "set out \<inter> set (qs1 @ rest) = {}" using d by auto
  then have same: "\<forall>x\<in>set ps1. h1 x = h x" "\<forall>x\<in>set (qs1 @ rest). h1 x = h x" using em(3) by blast+
  have l: "lseg h1 p1 ps1 (if ps1 = [] then p1 else m)" "lseg h1 q1 (qs1 @ rest) None"
    using s(4,5) lseg_frame [of ps1 h1 h, OF same(1)] lseg_frame [of "qs1 @ rest" h1 h, OF same(2)] by simp_all
  have len: "k = length ps1 + length qs1" using Suc.hyps(2) arg_cong [OF s(7), of size] by simp
  obtain h' list' tail' q' where r: "ls_merge cmp h1 list1 (Some e) p1 q1 (length ps1) qsize1 = Some (h', list', tail', q')"
    "built h' list' tail' ((out @ [e]) @ lmerge cmp ps1 qs1)" "lseg h' q' rest None"
    "\<forall>b. b \<notin> set ((out @ [e]) @ ps1 @ qs1) \<longrightarrow> h' b = h1 b"
    using Suc.hyps(1) [OF len em(2) l s(6) d] by blast
  have "0 < length ps \<or> 0 < qsize \<and> q \<noteq> None" using ne Suc.prems(3,4) by (cases qs) (auto simp: block_def)
  then have "ls_merge cmp h list tail p q (length ps) qsize = Some (h', list', tail', q')"
    by (subst ls_merge.simps) (simp add: s(1) em(1) r(1))
  moreover have "\<forall>b. b \<notin> set (out @ ps @ qs) \<longrightarrow> h' b = h b" using r(4) em(3) sets by auto
  ultimately show ?case using r(2,3) s(2) by simp
qed

lemma ls_split_lseg:
  assumes "lseg h p xs None" and "xs \<noteq> [] \<or> k = 0"
  shows "\<exists>q. ls_split h k p n = Some (q, n + length (take k xs)) \<and> lseg h p (take k xs) q \<and> lseg h q (drop k xs) None"
  using assms
proof (induction k arbitrary: p xs n)
  case 0
  then show ?case by simp
next
  case (Suc k)
  then obtain x ys where xs: "xs = x # ys" by (cases xs) auto
  then obtain m where m: "p = Some x" "h x = Some m" "lseg h m ys None" using Suc.prems(1) by auto
  show ?case
  proof (cases "m = None")
    case True
    then have "ys = []" using m(3) by (cases ys) auto
    then show ?thesis using True xs m by simp
  next
    case False
    then have "ys \<noteq> []" using m(3) by auto
    then obtain q where "ls_split h k m (Suc n) = Some (q, Suc n + length (take k ys))" "lseg h m (take k ys) q" "lseg h q (drop k ys) None"
      using Suc.IH [OF m(3)] by blast
    then show ?thesis using False xs m by auto
  qed
qed

lemma ls_pass_lpass:
  assumes "built h list tail out" and "lseg h p xs None" and "distinct (out @ xs)" and "0 < k"
  shows "\<exists>h' list' tail'. ls_pass cmp k h list tail p n = Some (h', list', tail', n + pieces k xs) \<and>
    built h' list' tail' (out @ lpass cmp k xs) \<and> (\<forall>b. b \<notin> set (out @ xs) \<longrightarrow> h' b = h b)"
  using assms
proof (induction "length xs" arbitrary: h list tail out p xs n rule: less_induct)
  case less
  show ?case
  proof (cases xs)
    case Nil
    then show ?thesis using less.prems by (subst ls_pass.simps) (simp add: lpass.simps pieces.simps)
  next
    case (Cons x ys)
    let ?a = "take k xs" and ?b = "take k (drop k xs)" and ?c = "drop k (drop k xs)"
    obtain q where q: "ls_split h k p 0 = Some (q, length ?a)" "lseg h p ?a q" "lseg h q (drop k xs) None"
      using ls_split_lseg [OF less.prems(2), of k 0] Cons by auto
    have q': "lseg h q (?b @ ?c) None" using q(3) by (simp only: append_take_drop_id)
    have abc: "xs = ?a @ ?b @ ?c" by (metis append_take_drop_id)
    then have d: "distinct (out @ ?a @ ?b @ ?c)" using less.prems(3) by metis
    have bl: "block k ?b ?c" by (auto simp: block_def)
    obtain h1 list1 tail1 q1 where m: "ls_merge cmp h list tail p q (length ?a) k = Some (h1, list1, tail1, q1)"
      "built h1 list1 tail1 (out @ lmerge cmp ?a ?b)" "lseg h1 q1 ?c None" "\<forall>b. b \<notin> set (out @ ?a @ ?b) \<longrightarrow> h1 b = h b"
      using ls_merge_lmerge [OF less.prems(1) q(2) q' bl d] by blast
    have shorter: "length ?c < length xs" using Cons less.prems(4) by simp
    have "mset ((out @ lmerge cmp ?a ?b) @ ?c) = mset (out @ ?a @ ?b @ ?c)" by simp
    then have d1: "distinct ((out @ lmerge cmp ?a ?b) @ ?c)" using d mset_eq_imp_distinct_iff by blast
    obtain h' list' tail' where r: "ls_pass cmp k h1 list1 tail1 q1 (Suc n) = Some (h', list', tail', Suc n + pieces k ?c)"
      "built h' list' tail' ((out @ lmerge cmp ?a ?b) @ lpass cmp k ?c)"
      "\<forall>b. b \<notin> set ((out @ lmerge cmp ?a ?b) @ ?c) \<longrightarrow> h' b = h1 b"
      using less.hyps [OF shorter m(2,3) d1 less.prems(4)] by blast
    have ne: "\<not> (k = 0 \<or> xs = [])" using Cons less.prems(4) by simp
    have lp: "lpass cmp k xs = lmerge cmp ?a ?b @ lpass cmp k ?c" by (subst lpass.simps) (simp only: ne if_False)
    have np: "pieces k xs = Suc (pieces k ?c)" by (subst pieces.simps) (simp only: ne if_False)
    have "p = Some x" using less.prems(2) Cons by simp
    then have "ls_pass cmp k h list tail p n = Some (h', list', tail', n + pieces k xs)"
      by (subst ls_pass.simps) (simp add: q(1) [unfolded \<open>p = Some x\<close>] m(1) [unfolded \<open>p = Some x\<close>] r(1) np del: length_take drop_drop)
    moreover have "\<forall>b. b \<notin> set (out @ xs) \<longrightarrow> h' b = h b"
    proof (intro allI impI)
      fix b assume "b \<notin> set (out @ xs)"
      then have "b \<notin> set (out @ ?a @ ?b @ ?c)" using abc by metis
      then show "h' b = h b" using r(3) m(4) by simp
    qed
    ultimately show ?thesis using r(2) lp by simp
  qed
qed

lemma ls_loop_lsort:
  assumes "ll h list xs" and "xs \<noteq> []" and "0 < k"
  shows "\<exists>h' list'. ls_loop cmp k h list = Some (h', list') \<and> ll h' list' (lsort cmp k xs) \<and> (\<forall>b. b \<notin> set xs \<longrightarrow> h' b = h b)"
  using assms
proof (induction cmp k xs arbitrary: h list rule: lsort.induct)
  case (1 cmp k xs)
  have "built h None None []" by (simp add: built_def)
  moreover have "lseg h list xs None" "distinct ([] @ xs)" using 1(2) by (simp_all add: ll_def)
  ultimately obtain h1 list1 tail where p: "ls_pass cmp k h None None list 0 = Some (h1, list1, tail, pieces k xs)"
    "built h1 list1 tail (lpass cmp k xs)" "\<forall>b. b \<notin> set xs \<longrightarrow> h1 b = h b"
    using ls_pass_lpass [of h None None "[]" list xs k cmp 0] 1(4) by auto
  let ?ys = "lpass cmp k xs"
  have ms: "mset ?ys = mset xs" using mset_lpass 1(4) .
  then have ys: "?ys \<noteq> []" "distinct ?ys" "set ?ys = set xs"
    using 1(2,3) mset_eq_imp_distinct_iff [OF ms] mset_eq_setD [OF ms] by (auto simp: ll_def)
  obtain m where m: "lseg h1 list1 ?ys m" "tail = Some (last ?ys)" using p(2) ys(1) by (auto simp: built_def)
  have t: "h1 (last ?ys) \<noteq> None" "last ?ys \<in> set xs" using lseg_dom [OF m(1)] ys last_in_set [OF ys(1)] by auto
  define h2 where "h2 = h1(last ?ys \<mapsto> None)"
  have l2: "ll h2 list1 ?ys"
    using lseg_snoc [of h1 list1 "butlast ?ys" "last ?ys" m None] m(1) ys(1,2)
    by (simp add: ll_def h2_def) (metis append_butlast_last_id distinct_butlast not_distinct_conv_prefix)
  have frame: "\<forall>b. b \<notin> set xs \<longrightarrow> h2 b = h b" using p(3) t(2) by (auto simp: h2_def)
  have step: "ls_loop cmp k h list = (if length xs \<le> 2 * k then Some (h2, list1) else ls_loop cmp (2 * k) h2 list1)"
    using pieces_le_1 [OF 1(4), of xs] t(1) m(2) by (subst ls_loop.simps) (auto simp: p(1) assign_def mult.commute h2_def)
  show ?case
  proof (cases "length xs \<le> 2 * k")
    case True
    then show ?thesis using step l2 frame by (subst lsort.simps) auto
  next
    case False
    then have "\<exists>h' list'. ls_loop cmp (2 * k) h2 list1 = Some (h', list') \<and> ll h' list' (lsort cmp (2 * k) ?ys) \<and>
        (\<forall>b. b \<notin> set ?ys \<longrightarrow> h' b = h2 b)"
      using 1(1) [OF _ l2 ys(1)] 1(4) by simp
    then show ?thesis using step False frame ys(3) 1(4) by (subst lsort.simps) auto
  qed
qed

section \<open>The list is sorted\<close>

text \<open>All blocks of \<open>k\<close> nodes are sorted.\<close>

function blocks :: "(nat \<Rightarrow> 'k::linorder) \<Rightarrow> nat \<Rightarrow> nat list \<Rightarrow> bool" where
  "blocks key k xs = (if k = 0 \<or> xs = [] then True else sorted (map key (take k xs)) \<and> blocks key k (drop k xs))"
  by auto
termination by (relation "measure (\<lambda>(key, k, xs). length xs)") auto

declare blocks.simps [simp del]

lemma Nil_simps [simp]: "blocks key k []" "lpass cmp k [] = []"
  by (subst blocks.simps, simp) (subst lpass.simps, simp)

definition by_key :: "(nat \<Rightarrow> nat \<Rightarrow> int) \<Rightarrow> (nat \<Rightarrow> 'k::linorder) \<Rightarrow> bool" where
  "by_key cmp key \<longleftrightarrow> (\<forall>a b. cmp a b \<le> 0 \<longleftrightarrow> key a \<le> key b)"

lemma lmerge_sorted:
  "by_key cmp key \<Longrightarrow> sorted (map key xs) \<Longrightarrow> sorted (map key ys) \<Longrightarrow> sorted (map key (lmerge cmp xs ys))"
proof (induction cmp xs ys rule: lmerge.induct)
  case (4 cmp x xs y ys)
  then have "cmp x y \<le> 0 \<longleftrightarrow> key x \<le> key y" by (simp add: by_key_def)
  then show ?case using 4 by (cases "cmp x y \<le> 0") (auto dest: order_trans)
qed auto

text \<open>Nodes with the same key keep their order.\<close>

lemma lmerge_stable:
  "by_key cmp key \<Longrightarrow> sorted (map key xs) \<Longrightarrow> sorted (map key ys) \<Longrightarrow>
   filter (\<lambda>a. key a = v) (lmerge cmp xs ys) = filter (\<lambda>a. key a = v) xs @ filter (\<lambda>a. key a = v) ys"
proof (induction cmp xs ys rule: lmerge.induct)
  case (4 cmp x xs y ys)
  show ?case
  proof (cases "cmp x y \<le> 0")
    case True
    then show ?thesis using 4 by simp
  next
    case False
    then have lt: "key y < key x" using 4(3) unfolding by_key_def by (metis not_le)
    then have "filter (\<lambda>a. key a = key y) (x # xs) = []" using 4(4) by (auto simp: filter_empty_conv)
    then show ?thesis using False 4 lt by auto
  qed
qed auto

lemma blocks_append: "length xs = k \<Longrightarrow> 0 < k \<Longrightarrow> blocks key k (xs @ ys) \<longleftrightarrow> sorted (map key xs) \<and> blocks key k ys"
  by (subst blocks.simps) auto

lemma lpass_sorted: "by_key cmp key \<Longrightarrow> 0 < k \<Longrightarrow> blocks key k xs \<Longrightarrow>
    blocks key (2 * k) (lpass cmp k xs) \<and>
    (\<forall>v. filter (\<lambda>a. key a = v) (lpass cmp k xs) = filter (\<lambda>a. key a = v) xs)"
proof (induction cmp k xs rule: lpass.induct)
  case (1 cmp k xs)
  show ?case
  proof (cases "xs = []")
    case True
    then show ?thesis by simp
  next
    case False
    let ?a = "take k xs" and ?b = "take k (drop k xs)" and ?c = "drop k (drop k xs)"
    have ne: "\<not> (k = 0 \<or> xs = [])" using False 1(3) by simp
    have lp: "lpass cmp k xs = lmerge cmp ?a ?b @ lpass cmp k ?c" by (subst lpass.simps) (simp only: ne if_False)
    have b1: "sorted (map key ?a)" "blocks key k (drop k xs)" using 1(4) ne blocks.simps [of key k xs] by auto
    have b2: "sorted (map key ?b)" "blocks key k ?c"
      using b1(2) 1(3) blocks.simps [of key k "drop k xs"] by (cases "drop k xs = []"; simp)+
    have IH: "blocks key (2 * k) (lpass cmp k ?c)" "\<And>v. filter (\<lambda>a. key a = v) (lpass cmp k ?c) = filter (\<lambda>a. key a = v) ?c"
      using 1(1) [OF ne 1(2,3) b2(2)] by blast+
    have srt: "sorted (map key (lmerge cmp ?a ?b))" using lmerge_sorted [OF 1(2) b1(1) b2(1)] .
    have "blocks key (2 * k) (lpass cmp k xs)"
    proof (cases "2 * k \<le> length xs")
      case True
      then have "length (lmerge cmp ?a ?b) = 2 * k" by simp
      then show ?thesis using blocks_append [of "lmerge cmp ?a ?b" "2 * k" key "lpass cmp k ?c"] srt IH(1) 1(3) by (simp add: lp)
    next
      case False
      then have "lpass cmp k ?c = []" by (subst lpass.simps) simp
      moreover have "length (lmerge cmp ?a ?b) \<le> 2 * k" by simp
      ultimately show ?thesis using srt lp by (subst blocks.simps) simp
    qed
    moreover have "filter (\<lambda>a. key a = v) (lpass cmp k xs) = filter (\<lambda>a. key a = v) xs" for v
    proof -
      have "filter (\<lambda>a. key a = v) xs = filter (\<lambda>a. key a = v) (?a @ ?b @ ?c)" by (simp only: append_take_drop_id)
      then show ?thesis using lp IH(2) lmerge_stable [OF 1(2) b1(1) b2(1)] by simp
    qed
    ultimately show ?thesis by blast
  qed
qed

lemma lsort_sorted: "by_key cmp key \<Longrightarrow> 0 < k \<Longrightarrow> blocks key k xs \<Longrightarrow>
    sorted (map key (lsort cmp k xs)) \<and> mset (lsort cmp k xs) = mset xs \<and>
    (\<forall>v. filter (\<lambda>a. key a = v) (lsort cmp k xs) = filter (\<lambda>a. key a = v) xs)"
proof (induction cmp k xs rule: lsort.induct)
  case (1 cmp k xs)
  note pass = lpass_sorted [OF 1(2-4)]
  show ?case
  proof (cases "length xs \<le> 2 * k")
    case True
    then have "length (lpass cmp k xs) \<le> 2 * k" using length_lpass [OF 1(3)] by simp
    then have "sorted (map key (lpass cmp k xs))"
      using pass 1(3) blocks.simps [of key "2 * k" "lpass cmp k xs"] by (cases "lpass cmp k xs = []") auto
    moreover have "lsort cmp k xs = lpass cmp k xs" using True by (subst lsort.simps) simp
    ultimately show ?thesis using pass mset_lpass [OF 1(3)] by simp
  next
    case False
    then have "lsort cmp k xs = lsort cmp (2 * k) (lpass cmp k xs)" using 1(3) by (subst lsort.simps) simp
    then show ?thesis using 1(1) [OF _ 1(2)] 1(3) False pass mset_lpass [OF 1(3), of cmp xs] by simp
  qed
qed

lemma blocks_1: "blocks key 1 xs"
proof (induction xs)
  case (Cons x xs)
  then show ?case by (subst blocks.simps) simp
qed simp

lemma lsort_sort_key: "by_key cmp key \<Longrightarrow> lsort cmp 1 xs = sort_key key xs"
  using lsort_sorted [OF _ _ blocks_1, of cmp key] by (intro properties_for_sort_key [symmetric]) (auto simp: eq_commute)

section \<open>Iteration, search and release\<close>

lemma ll_search: "lseg h head xs None \<Longrightarrow> LL_SEARCH h cmp head = Some (find (\<lambda>a. cmp a = 0) xs)"
proof (induction xs arbitrary: head)
  case Nil
  then show ?case by (simp add: LL_SEARCH.simps)
next
  case (Cons x xs)
  then show ?case by (auto simp: LL_SEARCH.simps [of h cmp "Some x"])
qed

lemma foreach_safe_frees:
  "ll h head xs \<Longrightarrow> \<exists>h'. LL_FOREACH_SAFE unlink_free head (h, head) = Some (h', None) \<and>
    (\<forall>b. h' b = (if b \<in> set xs then None else h b))"
proof (induction xs arbitrary: h head)
  case Nil
  then show ?case by (simp add: ll_def LL_FOREACH_SAFE.simps)
next
  case (Cons x xs)
  then obtain n where n: "head = Some x" "h x = Some n" "lseg h n xs None" "x \<notin> set xs" "distinct xs"
    by (auto simp: ll_def)
  then have "unlink_free x (h, head) = Some (h(x := None), n)" by (simp add: unlink_free_def LL_DELETE_def)
  moreover have "ll (h(x := None)) n xs" using n by (simp add: ll_def)
  moreover from this obtain h' where h': "LL_FOREACH_SAFE unlink_free n (h(x := None), n) = Some (h', None)"
    "\<forall>b. h' b = (if b \<in> set xs then None else (h(x := None)) b)"
    using Cons.IH by blast
  ultimately have "LL_FOREACH_SAFE unlink_free head (h, head) = Some (h', None)"
    using n(1,2) by (simp add: LL_FOREACH_SAFE.simps [of unlink_free "Some x"])
  then show ?case using h'(2) n(4) by auto
qed

text \<open>The plain iteration reads the pointer of a node that its body has released.\<close>

lemma foreach_frees_faults: "ll h head xs \<Longrightarrow> xs \<noteq> [] \<Longrightarrow> LL_FOREACH unlink_free head (h, head) = None"
  by (cases xs) (auto simp: ll_def LL_FOREACH.simps unlink_free_def LL_DELETE_def)

section \<open>The properties\<close>

text \<open>
  C36. The macros of the client do on the list of nodes what their names say: an append or a deletion changes
  the list by its node, a search finds the first match, and the safe iteration that unlinks and releases every
  node leaves an empty list and the other nodes as they were, where the plain one crashes.
\<close>

theorem sutlist_refines:
  assumes "ll h head xs"
  shows "(a \<notin> set xs \<longrightarrow> h a \<noteq> None \<longrightarrow> (\<exists>h' head'. LL_APPEND h head a = Some (h', head') \<and> ll h' head' (xs @ [a]))) \<and>
    (d \<in> set xs \<longrightarrow> (\<exists>h' head'. LL_DELETE h head d = Some (h', head') \<and> ll h' head' (remove1 d xs))) \<and>
    LL_SEARCH h cmp head = Some (find (\<lambda>a. cmp a = 0) xs) \<and>
    (\<exists>h'. LL_FOREACH_SAFE unlink_free head (h, head) = Some (h', None) \<and> (\<forall>b. h' b = (if b \<in> set xs then None else h b))) \<and>
    (xs \<noteq> [] \<longrightarrow> LL_FOREACH unlink_free head (h, head) = None)"
  using ll_append [OF assms] ll_delete [OF assms, of d] ll_search [of h head xs cmp] foreach_safe_frees [OF assms]
    foreach_frees_faults [OF assms] assms unfolding ll_def by blast

theorem sutlist_refines_witness:
  "\<exists>h' head'. LL_DELETE [1 \<mapsto> Some 2, 2 \<mapsto> Some 3, 3 \<mapsto> None] (Some 1) 2 = Some (h', head') \<and> ll h' head' [1, 3]"
proof -
  have "ll [1 \<mapsto> Some 2, 2 \<mapsto> Some 3, 3 \<mapsto> None] (Some 1) [1, 2, 3]" by (simp add: ll_def)
  from sutlist_refines [OF this] show ?thesis by fastforce
qed

text \<open>
  The merge sort returns on every list: with a comparison by a key, the list is the stable sort of the library,
  and the nodes that are not on the list are untouched.
\<close>

lemma LL_SORT_eq:
  assumes "ll h list xs" and "by_key cmp key"
  shows "\<exists>h' list'. LL_SORT cmp h list = Some (h', list') \<and> ll h' list' (sort_key key xs) \<and> (\<forall>b. b \<notin> set xs \<longrightarrow> h' b = h b)"
proof (cases "xs = []")
  case True
  then show ?thesis using assms by (simp add: LL_SORT_def ll_def)
next
  case False
  then have "list \<noteq> None" using assms(1) by (auto simp: ll_def neq_Nil_conv)
  then show ?thesis
    using ls_loop_lsort [OF assms(1) False, of 1 cmp] lsort_sort_key [OF assms(2), of xs] by (auto simp: LL_SORT_def)
qed

end
