(* ===== verification/DList.thy ===== *)
theory DList
  imports SList
begin

text \<open>
  The rest of \<open>hpdaemon/utlist.h\<close>: prepending and concatenating doubly linked lists, the macros for circular lists, and the
  merge sort of both kinds. The sorts share with \<open>LL_SORT\<close> the splitting and the choice of the next node; they set the
  \<open>prev\<close> pointers as they go.
\<close>

definition DL_PREPEND :: "dlheap \<Rightarrow> nat option \<Rightarrow> nat \<Rightarrow> (dlheap \<times> nat option) option" where
  "DL_PREPEND h head add = do {
     h1 \<leftarrow> set_next h add head;
     h2 \<leftarrow> (case head of
       Some p \<Rightarrow> do { n \<leftarrow> h1 p; h2 \<leftarrow> set_prev h1 add (prev n); set_prev h2 p (Some add) }
     | None \<Rightarrow> set_prev h1 add (Some add));
     Some (h2, Some add)
   }"

definition DL_CONCAT :: "dlheap \<Rightarrow> nat option \<Rightarrow> nat option \<Rightarrow> (dlheap \<times> nat option) option" where
  "DL_CONCAT h head1 head2 = (case head2 of
     None \<Rightarrow> Some (h, head1)
   | Some b \<Rightarrow> (case head1 of
       None \<Rightarrow> Some (h, head2)
     | Some a \<Rightarrow> do {
         nb \<leftarrow> h b;
         na \<leftarrow> h a;
         h1 \<leftarrow> set_prev h b (prev na);
         na1 \<leftarrow> h1 a;
         l \<leftarrow> prev na1;
         h2 \<leftarrow> set_next h1 l head2;
         h3 \<leftarrow> set_prev h2 a (prev nb);
         Some (h3, head1)
       }))"

section \<open>Circular lists\<close>

definition CDL_PREPEND :: "dlheap \<Rightarrow> nat option \<Rightarrow> nat \<Rightarrow> (dlheap \<times> nat option) option" where
  "CDL_PREPEND h head add = (case head of
     Some p \<Rightarrow> do {
       n \<leftarrow> h p;
       h1 \<leftarrow> set_prev h add (prev n);
       h2 \<leftarrow> set_next h1 add head;
       h3 \<leftarrow> set_prev h2 p (Some add);
       m \<leftarrow> h3 add;
       l \<leftarrow> prev m;
       h4 \<leftarrow> set_next h3 l (Some add);
       Some (h4, Some add)
     }
   | None \<Rightarrow> do { h1 \<leftarrow> set_prev h add (Some add); h2 \<leftarrow> set_next h1 add (Some add); Some (h2, Some add) })"

definition CDL_DELETE :: "dlheap \<Rightarrow> nat option \<Rightarrow> nat \<Rightarrow> (dlheap \<times> nat option) option" where
  "CDL_DELETE h head del = do {
     alone \<leftarrow> (if head = Some del then map_option (\<lambda>n. nxt n = head) (h del) else Some False);
     (if alone then Some (h, None)
      else do {
        n \<leftarrow> h del;
        b \<leftarrow> nxt n;
        h1 \<leftarrow> set_prev h b (prev n);
        n1 \<leftarrow> h1 del;
        p \<leftarrow> prev n1;
        h2 \<leftarrow> set_next h1 p (nxt n1);
        n2 \<leftarrow> h2 del;
        Some (h2, if head = Some del then nxt n2 else head)
      })
   }"

text \<open>
  The \<open>next\<close> pointers as the loops and the sorts of circular lists read them: a pointer to \<open>old\<close>, the head, is the end.
\<close>

definition view :: "nat option \<Rightarrow> dlheap \<Rightarrow> llheap" where
  "view old h a = map_option (\<lambda>n. if nxt n = old then None else nxt n) (h a)"

text \<open>The loop ends when it is back at the head; \<open>cmp\<close> is the comparison of \<open>CDL_SEARCH\<close>.\<close>

partial_function (option) CDL_FOREACH :: "dlheap \<Rightarrow> nat option \<Rightarrow> nat option \<Rightarrow> nat list option" where
  "CDL_FOREACH h head el = (case el of
     None \<Rightarrow> Some []
   | Some a \<Rightarrow> do {
       n \<leftarrow> view head h a;
       as \<leftarrow> CDL_FOREACH h head n;
       Some (a # as)
     })"

definition CDL_SEARCH :: "dlheap \<Rightarrow> nat option \<Rightarrow> (nat \<Rightarrow> int) \<Rightarrow> nat option option" where
  "CDL_SEARCH h head cmp = LL_SEARCH (view head h) cmp head"

section \<open>The sorts\<close>

definition dls_emit :: "dlheap \<Rightarrow> nat option \<Rightarrow> nat option \<Rightarrow> nat \<Rightarrow> (dlheap \<times> nat option) option" where
  "dls_emit h list tail e = do {
     (h1, list1) \<leftarrow> (case tail of Some t \<Rightarrow> map_option (\<lambda>h1. (h1, list)) (set_next h t (Some e)) | None \<Rightarrow> Some (h, Some e));
     h2 \<leftarrow> set_prev h1 e tail;
     Some (h2, list1)
   }"

partial_function (option) dls_merge :: "(nat \<Rightarrow> nat \<Rightarrow> int) \<Rightarrow> nat option \<Rightarrow> dlheap \<Rightarrow> nat option \<Rightarrow> nat option \<Rightarrow> nat option \<Rightarrow> nat option \<Rightarrow>
    nat \<Rightarrow> nat \<Rightarrow> (dlheap \<times> nat option \<times> nat option \<times> nat option) option" where
  "dls_merge cmp old h list tail p q psize qsize =
     (if 0 < psize \<or> 0 < qsize \<and> q \<noteq> None then do {
        (e, p1, q1, psize1, qsize1) \<leftarrow> ls_take cmp (view old h) p q psize qsize;
        (h1, list1) \<leftarrow> dls_emit h list tail e;
        dls_merge cmp old h1 list1 (Some e) p1 q1 psize1 qsize1
      } else Some (h, list, tail, q))"

partial_function (option) dls_pass :: "(nat \<Rightarrow> nat \<Rightarrow> int) \<Rightarrow> nat option \<Rightarrow> nat \<Rightarrow> dlheap \<Rightarrow> nat option \<Rightarrow> nat option \<Rightarrow> nat option \<Rightarrow> nat \<Rightarrow>
    (dlheap \<times> nat option \<times> nat option \<times> nat) option" where
  "dls_pass cmp old insize h list tail p nmerges = (case p of
     None \<Rightarrow> Some (h, list, tail, nmerges)
   | Some a \<Rightarrow> do {
       (q, psize) \<leftarrow> ls_split (view old h) insize p 0;
       (h1, list1, tail1, q1) \<leftarrow> dls_merge cmp old h list tail p q psize insize;
       dls_pass cmp old insize h1 list1 tail1 q1 (Suc nmerges)
     })"

partial_function (option) dl_loop :: "(nat \<Rightarrow> nat \<Rightarrow> int) \<Rightarrow> nat \<Rightarrow> dlheap \<Rightarrow> nat option \<Rightarrow> (dlheap \<times> nat option) option" where
  "dl_loop cmp insize h list = do {
     (h1, list1, tail, nmerges) \<leftarrow> dls_pass cmp None insize h None None list 0;
     l \<leftarrow> list1;
     h2 \<leftarrow> set_prev h1 l tail;
     t \<leftarrow> tail;
     h3 \<leftarrow> set_next h2 t None;
     (if nmerges \<le> 1 then Some (h3, list1) else dl_loop cmp (insize * 2) h3 list1)
   }"

definition DL_SORT :: "(nat \<Rightarrow> nat \<Rightarrow> int) \<Rightarrow> dlheap \<Rightarrow> nat option \<Rightarrow> (dlheap \<times> nat option) option" where
  "DL_SORT cmp h list = (if list = None then Some (h, None) else dl_loop cmp 1 h list)"

partial_function (option) cdl_loop :: "(nat \<Rightarrow> nat \<Rightarrow> int) \<Rightarrow> nat \<Rightarrow> dlheap \<Rightarrow> nat option \<Rightarrow> (dlheap \<times> nat option) option" where
  "cdl_loop cmp insize h list = do {
     (h1, list1, tail, nmerges) \<leftarrow> dls_pass cmp list insize h None None list 0;
     l \<leftarrow> list1;
     h2 \<leftarrow> set_prev h1 l tail;
     t \<leftarrow> tail;
     h3 \<leftarrow> set_next h2 t list1;
     (if nmerges \<le> 1 then Some (h3, list1) else cdl_loop cmp (insize * 2) h3 list1)
   }"

definition CDL_SORT :: "(nat \<Rightarrow> nat \<Rightarrow> int) \<Rightarrow> dlheap \<Rightarrow> nat option \<Rightarrow> (dlheap \<times> nat option) option" where
  "CDL_SORT cmp h list = (if list = None then Some (h, None) else cdl_loop cmp 1 h list)"

section \<open>Lists that are built\<close>

text \<open>A circular list: \<open>next\<close> of the last node is the head.\<close>

definition cdl :: "dlheap \<Rightarrow> nat option \<Rightarrow> nat list \<Rightarrow> bool" where
  "cdl h head xs \<longleftrightarrow> distinct xs \<and> head = first xs \<and> seg h (if xs = [] then 0 else last xs) xs head"

text \<open>A list whose last \<open>next\<close> and first \<open>prev\<close> pointers are not set yet.\<close>

fun bseg :: "dlheap \<Rightarrow> nat option \<Rightarrow> nat list \<Rightarrow> bool" where
  "bseg h prv [] \<longleftrightarrow> True"
| "bseg h prv (x # xs) \<longleftrightarrow> (\<exists>n. h x = Some n \<and> prev n = prv \<and> (xs \<noteq> [] \<longrightarrow> nxt n = first xs)) \<and> bseg h (Some x) xs"

definition dbuilt :: "dlheap \<Rightarrow> nat option \<Rightarrow> nat option \<Rightarrow> nat list \<Rightarrow> bool" where
  "dbuilt h list tail out \<longleftrightarrow> bseg h None out \<and> list = first out \<and> tail = (if out = [] then None else Some (last out))"

lemma bseg_frame: "\<forall>x\<in>set xs. h' x = h x \<Longrightarrow> bseg h' prv xs = bseg h prv xs"
  by (induction xs arbitrary: prv) auto

lemma bseg_append: "bseg h prv (xs @ [e]) \<longleftrightarrow> bseg h prv xs \<and>
    (xs \<noteq> [] \<longrightarrow> (\<exists>n. h (last xs) = Some n \<and> nxt n = Some e)) \<and>
    (\<exists>n. h e = Some n \<and> prev n = (if xs = [] then prv else Some (last xs)))"
  by (induction xs arbitrary: prv) (auto simp: first_def split: list.splits)

lemma bseg_dom: "bseg h prv xs \<Longrightarrow> set xs \<subseteq> dom h"
  by (induction xs arbitrary: prv) auto

lemma bseg_next: "bseg h prv (xs @ [t]) \<Longrightarrow> t \<notin> set xs \<Longrightarrow> h t = Some n \<Longrightarrow> bseg (h(t \<mapsto> n\<lparr>nxt := v\<rparr>)) prv (xs @ [t])"
  using bseg_frame [of xs "h(t \<mapsto> n\<lparr>nxt := v\<rparr>)" h prv] by (auto simp: bseg_append)

lemma dls_emit_built:
  assumes "dbuilt h list tail out" and "distinct (out @ [e])" and "h e = Some n"
  obtains h1 list1 where "dls_emit h list tail e = Some (h1, list1)" and "dbuilt h1 list1 (Some e) (out @ [e])"
    and "\<And>b. b \<notin> set (out @ [e]) \<Longrightarrow> h1 b = h b"
proof (cases out rule: rev_cases)
  case Nil
  then show ?thesis
    using assms that [of "h(e \<mapsto> n\<lparr>prev := None\<rparr>)" "Some e"] by (auto simp: dls_emit_def dbuilt_def set_prev_def)
next
  case (snoc us t)
  obtain m where m: "h t = Some m" "tail = Some t" using assms(1) snoc bseg_dom [of h None out] by (auto simp: dbuilt_def)
  have t: "t \<noteq> e" "t \<notin> set us" "e \<notin> set us" using assms(2) snoc by auto
  let ?h1 = "h(t \<mapsto> m\<lparr>nxt := Some e\<rparr>)" and ?h2 = "h(t \<mapsto> m\<lparr>nxt := Some e\<rparr>, e \<mapsto> n\<lparr>prev := Some t\<rparr>)"
  have "bseg ?h1 None out" using bseg_next [of h None us t m "Some e"] t(2) m(1) assms(1) snoc by (simp add: dbuilt_def)
  then have "bseg ?h2 None out" using bseg_frame [of out ?h2 ?h1 None] t snoc by auto
  then have "bseg ?h2 None (out @ [e])" using snoc t(1) by (subst bseg_append) auto
  then show ?thesis
    using that [of ?h2 list] m t snoc assms by (auto simp: dls_emit_def dbuilt_def set_prev_def set_next_def)
qed

lemma view_eq: "h' a = h a \<Longrightarrow> view old h' a = view old h a"
  by (simp add: view_def)

lemma view_Some: "view old h a = Some k \<Longrightarrow> \<exists>n. h a = Some n"
  by (auto simp: view_def)

lemma view_frame: "\<forall>x\<in>set xs. h' x = h x \<Longrightarrow> lseg (view old h') p xs q = lseg (view old h) p xs q"
  by (rule lseg_frame) (simp add: view_def)

lemma dls_merge_lmerge:
  assumes "dbuilt h list tail out" and "lseg (view old h) p ps m" and "lseg (view old h) q (qs @ rest) None"
    and "block qsize qs rest" and "distinct (out @ ps @ qs @ rest)"
  shows "\<exists>h' list' tail' q'. dls_merge cmp old h list tail p q (length ps) qsize = Some (h', list', tail', q') \<and>
    dbuilt h' list' tail' (out @ lmerge cmp ps qs) \<and> lseg (view old h') q' rest None \<and>
    (\<forall>b. b \<notin> set (out @ ps @ qs) \<longrightarrow> h' b = h b)"
  using assms
proof (induction "length ps + length qs" arbitrary: h list tail out p ps q qs qsize m)
  case 0
  then have "ps = []" "qs = []" by simp_all
  moreover have "qsize = 0 \<or> q = None" using 0(4,5) \<open>qs = []\<close> by (auto simp: block_def)
  ultimately show ?case using 0 by (subst dls_merge.simps) auto
next
  case (Suc k)
  then have ne: "ps \<noteq> [] \<or> qs \<noteq> []" by auto
  obtain e n p1 q1 ps1 qs1 qsize1 where s: "ls_take cmp (view old h) p q (length ps) qsize = Some (e, p1, q1, length ps1, qsize1)"
    "lmerge cmp ps qs = e # lmerge cmp ps1 qs1" "view old h e = Some n" "lseg (view old h) p1 ps1 (if ps1 = [] then p1 else m)"
    "lseg (view old h) q1 (qs1 @ rest) None" "block qsize1 qs1 rest" "mset (ps @ qs) = add_mset e (mset (ps1 @ qs1))"
    by (rule ls_take_lmerge [OF Suc.prems(2-4) ne]) (rule that)
  have sets: "set ps \<union> set qs = insert e (set ps1 \<union> set qs1)"
    using arg_cong [OF s(7), of set_mset] by simp
  have "mset (out @ ps @ qs @ rest) = mset ((out @ [e]) @ ps1 @ qs1 @ rest)" using s(7) by simp
  then have d: "distinct ((out @ [e]) @ ps1 @ qs1 @ rest)" using Suc.prems(5) mset_eq_imp_distinct_iff by blast
  obtain en where en: "h e = Some en" using s(3) by (auto simp: view_def)
  have de: "distinct (out @ [e])" using d by auto
  obtain h1 list1 where em: "dls_emit h list tail e = Some (h1, list1)" "dbuilt h1 list1 (Some e) (out @ [e])"
    "\<And>b. b \<notin> set (out @ [e]) \<Longrightarrow> h1 b = h b"
    using dls_emit_built [OF Suc.prems(1) de en] by blast
  have "set (out @ [e]) \<inter> set ps1 = {}" "set (out @ [e]) \<inter> set (qs1 @ rest) = {}" using d by auto
  then have same: "\<forall>x\<in>set ps1. h1 x = h x" "\<forall>x\<in>set (qs1 @ rest). h1 x = h x" using em(3) by blast+
  have l: "lseg (view old h1) p1 ps1 (if ps1 = [] then p1 else m)" "lseg (view old h1) q1 (qs1 @ rest) None"
    using s(4,5) view_frame [of ps1 h1 h, OF same(1)] view_frame [of "qs1 @ rest" h1 h, OF same(2)] by simp_all
  have len: "k = length ps1 + length qs1" using Suc.hyps(2) arg_cong [OF s(7), of size] by simp
  obtain h' list' tail' q' where r: "dls_merge cmp old h1 list1 (Some e) p1 q1 (length ps1) qsize1 = Some (h', list', tail', q')"
    "dbuilt h' list' tail' ((out @ [e]) @ lmerge cmp ps1 qs1)" "lseg (view old h') q' rest None"
    "\<forall>b. b \<notin> set ((out @ [e]) @ ps1 @ qs1) \<longrightarrow> h' b = h1 b"
    using Suc.hyps(1) [OF len em(2) l s(6) d] by blast
  have "0 < length ps \<or> 0 < qsize \<and> q \<noteq> None" using ne Suc.prems(3,4) by (cases qs) (auto simp: block_def)
  then have "dls_merge cmp old h list tail p q (length ps) qsize = Some (h', list', tail', q')"
    by (subst dls_merge.simps) (simp add: s(1) em(1) r(1))
  moreover have "\<forall>b. b \<notin> set (out @ ps @ qs) \<longrightarrow> h' b = h b"
  proof (intro allI impI)
    fix b assume "b \<notin> set (out @ ps @ qs)"
    then have "b \<notin> set ((out @ [e]) @ ps1 @ qs1)" "b \<notin> set (out @ [e])" using sets by auto
    then show "h' b = h b" using r(4) em(3) by simp
  qed
  ultimately show ?case using r(2,3) s(2) by simp
qed

lemma dls_pass_lpass:
  assumes "dbuilt h list tail out" and "lseg (view old h) p xs None" and "distinct (out @ xs)" and "0 < k"
  shows "\<exists>h' list' tail'. dls_pass cmp old k h list tail p n = Some (h', list', tail', n + pieces k xs) \<and>
    dbuilt h' list' tail' (out @ lpass cmp k xs) \<and> (\<forall>b. b \<notin> set (out @ xs) \<longrightarrow> h' b = h b)"
  using assms
proof (induction "length xs" arbitrary: h list tail out p xs n rule: less_induct)
  case less
  show ?case
  proof (cases xs)
    case Nil
    then show ?thesis using less.prems by (subst dls_pass.simps) (simp add: lpass.simps pieces.simps)
  next
    case (Cons x ys)
    let ?a = "take k xs" and ?b = "take k (drop k xs)" and ?c = "drop k (drop k xs)"
    obtain q where q: "ls_split (view old h) k p 0 = Some (q, length ?a)" "lseg (view old h) p ?a q" "lseg (view old h) q (drop k xs) None"
      using ls_split_lseg [OF less.prems(2), of k 0] Cons by auto
    have q': "lseg (view old h) q (?b @ ?c) None" using q(3) by (simp only: append_take_drop_id)
    have abc: "xs = ?a @ ?b @ ?c" by (metis append_take_drop_id)
    then have d: "distinct (out @ ?a @ ?b @ ?c)" using less.prems(3) by metis
    have bl: "block k ?b ?c" by (auto simp: block_def)
    obtain h1 list1 tail1 q1 where m: "dls_merge cmp old h list tail p q (length ?a) k = Some (h1, list1, tail1, q1)"
      "dbuilt h1 list1 tail1 (out @ lmerge cmp ?a ?b)" "lseg (view old h1) q1 ?c None" "\<forall>b. b \<notin> set (out @ ?a @ ?b) \<longrightarrow> h1 b = h b"
      using dls_merge_lmerge [OF less.prems(1) q(2) q' bl d] by blast
    have shorter: "length ?c < length xs" using Cons less.prems(4) by simp
    have "mset ((out @ lmerge cmp ?a ?b) @ ?c) = mset (out @ ?a @ ?b @ ?c)" by simp
    then have d1: "distinct ((out @ lmerge cmp ?a ?b) @ ?c)" using d mset_eq_imp_distinct_iff by blast
    obtain h' list' tail' where r: "dls_pass cmp old k h1 list1 tail1 q1 (Suc n) = Some (h', list', tail', Suc n + pieces k ?c)"
      "dbuilt h' list' tail' ((out @ lmerge cmp ?a ?b) @ lpass cmp k ?c)"
      "\<forall>b. b \<notin> set ((out @ lmerge cmp ?a ?b) @ ?c) \<longrightarrow> h' b = h1 b"
      using less.hyps [OF shorter m(2,3) d1 less.prems(4)] by blast
    have ne: "\<not> (k = 0 \<or> xs = [])" using Cons less.prems(4) by simp
    have lp: "lpass cmp k xs = lmerge cmp ?a ?b @ lpass cmp k ?c" by (subst lpass.simps) (simp only: ne if_False)
    have np: "pieces k xs = Suc (pieces k ?c)" by (subst pieces.simps) (simp only: ne if_False)
    have px: "p = Some x" using less.prems(2) Cons by simp
    then have "dls_pass cmp old k h list tail p n = Some (h', list', tail', n + pieces k xs)"
      by (subst dls_pass.simps) (simp add: q(1) [unfolded px] m(1) [unfolded px] r(1) np del: length_take drop_drop)
    moreover have "\<forall>b. b \<notin> set (out @ xs) \<longrightarrow> h' b = h b"
    proof (intro allI impI)
      fix b assume "b \<notin> set (out @ xs)"
      then have "b \<notin> set (out @ ?a @ ?b @ ?c)" using abc by metis
      then show "h' b = h b" using r(3) m(4) by simp
    qed
    ultimately show ?thesis using r(2) lp by simp
  qed
qed

text \<open>The end of a pass sets the two pointers that are missing.\<close>

lemma bseg_seg:
  "bseg h prv (xs @ [t]) \<Longrightarrow> t \<notin> set xs \<Longrightarrow> prv = Some p \<Longrightarrow> \<exists>n. h t = Some n \<and> seg (h(t \<mapsto> n\<lparr>nxt := q\<rparr>)) p (xs @ [t]) q"
proof (induction xs arbitrary: prv p)
  case (Cons x xs)
  then obtain m n where m: "h x = Some m" "prev m = Some p" "nxt m = first (xs @ [t])" "h t = Some n"
    "seg (h(t \<mapsto> n\<lparr>nxt := q\<rparr>)) x (xs @ [t]) q" by fastforce
  define g where "g = h(t \<mapsto> n\<lparr>nxt := q\<rparr>)"
  have "m = \<lparr>prev = Some p, nxt = first (xs @ [t])\<rparr>" using m(2,3) by (cases m) simp
  moreover have "g x = h x" using Cons.prems(2) by (auto simp: g_def)
  ultimately have "seg g p ((x # xs) @ [t]) q" using m(1,5) g_def by simp
  then show ?case using m(4) g_def by blast
qed (auto intro: dlnode.equality)

lemma pass_end:
  assumes "dbuilt h list tail xs" and "xs \<noteq> []" and "distinct xs"
  shows "\<exists>h2 h3. list = Some (hd xs) \<and> tail = Some (last xs) \<and> set_prev h (hd xs) tail = Some h2 \<and> set_next h2 (last xs) q = Some h3 \<and>
    seg h3 (last xs) xs q \<and> (\<forall>b. b \<notin> set xs \<longrightarrow> h3 b = h b)"
proof -
  obtain ys t where t: "xs = ys @ [t]" using assms(2) by (cases xs rule: rev_cases) auto
  obtain x zs where x: "xs = x # zs" using assms(2) by (cases xs) auto
  obtain n where n: "h x = Some n" using assms(1) x by (auto simp: dbuilt_def)
  define h2 where "h2 = h(x \<mapsto> n\<lparr>prev := Some t\<rparr>)"
  have "bseg h2 (Some t) xs"
    using assms(1,3) n bseg_frame [of zs h2 h "Some x"] x by (auto simp: dbuilt_def h2_def)
  then obtain m where m: "h2 t = Some m" "seg (h2(t \<mapsto> m\<lparr>nxt := q\<rparr>)) t xs q"
    using bseg_seg [of h2 "Some t" ys t t q] t assms(3) by auto
  have hl: "hd xs = x" "last xs = t" using x by simp (simp add: t)
  then have lt: "list = Some (hd xs)" "tail = Some (last xs)" "hd xs = x" "last xs = t" using assms(1,2) x by (simp_all add: dbuilt_def)
  have "set_prev h (hd xs) tail = Some h2" using lt n by (simp add: set_prev_def h2_def)
  moreover have "set_next h2 (last xs) q = Some (h2(t \<mapsto> m\<lparr>nxt := q\<rparr>))" using lt m(1) by (simp add: set_next_def)
  moreover have "\<forall>b. b \<notin> set xs \<longrightarrow> (h2(t \<mapsto> m\<lparr>nxt := q\<rparr>)) b = h b"
  proof -
    have "t \<in> set xs" using t by simp
    then show ?thesis using x by (auto simp: h2_def)
  qed
  ultimately show ?thesis using lt m(2) by metis
qed

section \<open>The sorts are those of the list\<close>

lemma seg_view:
  "seg h p xs q \<Longrightarrow> old = q \<Longrightarrow> (\<And>x. x \<in> set (tl xs) \<Longrightarrow> old \<noteq> Some x) \<Longrightarrow> lseg (view old h) (first xs) xs None"
proof (induction xs arbitrary: p)
  case (Cons x xs)
  have "view old h x = Some (first xs)" using Cons.prems by (cases xs) (auto simp: view_def)
  moreover have "\<And>y. y \<in> set (tl xs) \<Longrightarrow> old \<noteq> Some y" using Cons.prems(3) by (cases xs) auto
  ultimately show ?case using Cons.IH [of x] Cons.prems(1,2) by simp
qed simp

lemma sort_pass:
  assumes "seg h p xs old" and "xs \<noteq> []" and "distinct xs" and "old = None \<or> old = first xs" and "0 < k"
  shows "\<exists>h1 tail h2 h3. dls_pass cmp old k h None None (first xs) 0 = Some (h1, first (lpass cmp k xs), tail, pieces k xs) \<and>
    tail = Some (last (lpass cmp k xs)) \<and> set_prev h1 (hd (lpass cmp k xs)) tail = Some h2 \<and>
    set_next h2 (last (lpass cmp k xs)) q = Some h3 \<and> seg h3 (last (lpass cmp k xs)) (lpass cmp k xs) q \<and>
    (\<forall>b. b \<notin> set xs \<longrightarrow> h3 b = h b)"
proof -
  let ?ys = "lpass cmp k xs"
  have "\<And>x. x \<in> set (tl xs) \<Longrightarrow> old \<noteq> Some x" using assms(2,3,4) by (cases xs) auto
  then have l: "lseg (view old h) (first xs) xs None" using seg_view [OF assms(1)] by blast
  have ms: "mset ?ys = mset xs" using mset_lpass assms(5) .
  then have ys: "?ys \<noteq> []" "distinct ?ys" "set ?ys = set xs"
    using assms(2,3) mset_eq_imp_distinct_iff [OF ms] mset_eq_setD [OF ms] by auto
  obtain h1 list1 tail where p: "dls_pass cmp old k h None None (first xs) 0 = Some (h1, list1, tail, pieces k xs)"
    "dbuilt h1 list1 tail ?ys" "\<forall>b. b \<notin> set xs \<longrightarrow> h1 b = h b"
    using dls_pass_lpass [OF _ l _ assms(5), of None None "[]" cmp 0] assms(3) by (auto simp: dbuilt_def)
  obtain h2 h3 where e: "tail = Some (last ?ys)" "set_prev h1 (hd ?ys) tail = Some h2" "set_next h2 (last ?ys) q = Some h3"
    "seg h3 (last ?ys) ?ys q" "\<forall>b. b \<notin> set ?ys \<longrightarrow> h3 b = h1 b"
    using pass_end [OF p(2) ys(1,2), of q] by blast
  have "list1 = first ?ys" using p(2) by (simp add: dbuilt_def)
  then show ?thesis using p(1,3) e ys(3) by auto
qed

lemma first_hd: "xs \<noteq> [] \<Longrightarrow> first xs = Some (hd xs)"
  by (cases xs) auto

lemma dl_loop_lsort:
  assumes "seg h (last xs) xs None" and "xs \<noteq> []" and "distinct xs" and "0 < k"
  shows "\<exists>h'. dl_loop cmp k h (first xs) = Some (h', first (lsort cmp k xs)) \<and>
    seg h' (last (lsort cmp k xs)) (lsort cmp k xs) None \<and> (\<forall>b. b \<notin> set xs \<longrightarrow> h' b = h b)"
  using assms
proof (induction cmp k xs arbitrary: h rule: lsort.induct)
  case (1 cmp k xs)
  let ?ys = "lpass cmp k xs"
  have ms: "mset ?ys = mset xs" using mset_lpass 1(5) .
  then have ys: "?ys \<noteq> []" "distinct ?ys" "set ?ys = set xs"
    using 1(3,4) mset_eq_imp_distinct_iff [OF ms] mset_eq_setD [OF ms] by auto
  obtain h1 tail h2 h3 where p: "dls_pass cmp None k h None None (first xs) 0 = Some (h1, first ?ys, tail, pieces k xs)"
    "tail = Some (last ?ys)" "set_prev h1 (hd ?ys) tail = Some h2" "set_next h2 (last ?ys) None = Some h3"
    "seg h3 (last ?ys) ?ys None" "\<forall>b. b \<notin> set xs \<longrightarrow> h3 b = h b"
    using sort_pass [OF 1(2-4) disjI1 [OF refl] 1(5), of cmp None] by blast
  have step: "dl_loop cmp k h (first xs) = (if length xs \<le> 2 * k then Some (h3, first ?ys) else dl_loop cmp (2 * k) h3 (first ?ys))"
    using pieces_le_1 [OF 1(5), of xs] p(2-4)
    by (subst dl_loop.simps) (auto simp: p(1) first_hd [OF ys(1)] mult.commute)
  show ?case
  proof (cases "length xs \<le> 2 * k")
    case True
    then have "lsort cmp k xs = ?ys" by (subst lsort.simps) simp
    then show ?thesis using step p(5,6) True by auto
  next
    case False
    then have "lsort cmp k xs = lsort cmp (2 * k) ?ys" using 1(5) by (subst lsort.simps) simp
    moreover have "\<exists>h'. dl_loop cmp (2 * k) h3 (first ?ys) = Some (h', first (lsort cmp (2 * k) ?ys)) \<and>
        seg h' (last (lsort cmp (2 * k) ?ys)) (lsort cmp (2 * k) ?ys) None \<and> (\<forall>b. b \<notin> set ?ys \<longrightarrow> h' b = h3 b)"
      using 1(1) [OF _ p(5) ys(1,2)] 1(5) False by simp
    ultimately show ?thesis using step False p(6) ys(3) by auto
  qed
qed

lemma cdl_loop_lsort:
  assumes "seg h (last xs) xs (first xs)" and "xs \<noteq> []" and "distinct xs" and "0 < k"
  shows "\<exists>h'. cdl_loop cmp k h (first xs) = Some (h', first (lsort cmp k xs)) \<and>
    seg h' (last (lsort cmp k xs)) (lsort cmp k xs) (first (lsort cmp k xs)) \<and> (\<forall>b. b \<notin> set xs \<longrightarrow> h' b = h b)"
  using assms
proof (induction cmp k xs arbitrary: h rule: lsort.induct)
  case (1 cmp k xs)
  let ?ys = "lpass cmp k xs"
  have ms: "mset ?ys = mset xs" using mset_lpass 1(5) .
  then have ys: "?ys \<noteq> []" "distinct ?ys" "set ?ys = set xs"
    using 1(3,4) mset_eq_imp_distinct_iff [OF ms] mset_eq_setD [OF ms] by auto
  obtain h1 tail h2 h3 where p: "dls_pass cmp (first xs) k h None None (first xs) 0 = Some (h1, first ?ys, tail, pieces k xs)"
    "tail = Some (last ?ys)" "set_prev h1 (hd ?ys) tail = Some h2" "set_next h2 (last ?ys) (first ?ys) = Some h3"
    "seg h3 (last ?ys) ?ys (first ?ys)" "\<forall>b. b \<notin> set xs \<longrightarrow> h3 b = h b"
    using sort_pass [OF 1(2-4) disjI2 [OF refl] 1(5), of cmp "first ?ys"] by blast
  have step: "cdl_loop cmp k h (first xs) = (if length xs \<le> 2 * k then Some (h3, first ?ys) else cdl_loop cmp (2 * k) h3 (first ?ys))"
    using pieces_le_1 [OF 1(5), of xs] p(2-4)
    by (subst cdl_loop.simps) (auto simp: p(1) first_hd [OF ys(1)] mult.commute)
  show ?case
  proof (cases "length xs \<le> 2 * k")
    case True
    then have "lsort cmp k xs = ?ys" by (subst lsort.simps) simp
    then show ?thesis using step p(5,6) True by auto
  next
    case False
    then have "lsort cmp k xs = lsort cmp (2 * k) ?ys" using 1(5) by (subst lsort.simps) simp
    moreover have "\<exists>h'. cdl_loop cmp (2 * k) h3 (first ?ys) = Some (h', first (lsort cmp (2 * k) ?ys)) \<and>
        seg h' (last (lsort cmp (2 * k) ?ys)) (lsort cmp (2 * k) ?ys) (first (lsort cmp (2 * k) ?ys)) \<and>
        (\<forall>b. b \<notin> set ?ys \<longrightarrow> h' b = h3 b)"
      using 1(1) [OF _ p(5) ys(1,2)] 1(5) False by simp
    ultimately show ?thesis using step False p(6) ys(3) by auto
  qed
qed

section \<open>The other macros on the list\<close>

lemma dl_prepend:
  assumes "dl h head xs" and "a \<notin> set xs" and "h a \<noteq> None"
  shows "\<exists>h'. DL_PREPEND h head a = Some (h', Some a) \<and> dl h' (Some a) (a # xs)"
proof -
  obtain n where n: "h a = Some n" using assms(3) by blast
  show ?thesis
  proof (cases xs)
    case Nil
    then show ?thesis using assms n by (auto simp: dl_def DL_PREPEND_def set_prev_def set_next_def)
  next
    case (Cons x ys)
    then show ?thesis using assms n by (cases ys) (auto simp: dl_def DL_PREPEND_def set_prev_def set_next_def)
  qed
qed

lemma cdl_prepend:
  assumes "cdl h head xs" and "a \<notin> set xs" and "h a \<noteq> None"
  shows "\<exists>h'. CDL_PREPEND h head a = Some (h', Some a) \<and> cdl h' (Some a) (a # xs)"
proof -
  obtain n where n: "h a = Some n" using assms(3) by blast
  show ?thesis
  proof (cases xs rule: rev_cases)
    case Nil
    then show ?thesis using assms n by (auto simp: cdl_def CDL_PREPEND_def set_prev_def set_next_def)
  next
    case (snoc ys l)
    show ?thesis
    proof (cases ys)
      case Nil
      then show ?thesis using assms n snoc by (auto simp: cdl_def CDL_PREPEND_def set_prev_def set_next_def)
    next
      case (Cons x zs)
      then have "x \<noteq> l" "x \<noteq> a" "l \<noteq> a" "x \<notin> set zs" "l \<notin> set zs" "a \<notin> set zs"
        using assms(1,2) snoc by (auto simp: cdl_def)
      then show ?thesis
        using assms n snoc Cons by (cases zs) (auto simp: cdl_def CDL_PREPEND_def set_prev_def set_next_def seg_append)
    qed
  qed
qed

lemma cdl_lseg:
  assumes "cdl h head xs"
  shows "lseg (view head h) head xs None"
proof (cases xs)
  case (Cons x ys)
  have "\<And>y. y \<in> set (tl xs) \<Longrightarrow> head \<noteq> Some y" using assms Cons by (auto simp: cdl_def)
  moreover have "seg h (last xs) xs head" using assms Cons unfolding cdl_def by (metis list.distinct(1))
  moreover have "head = first xs" using assms unfolding cdl_def by blast
  ultimately show ?thesis using seg_view [of h "last xs" xs head head] by metis
qed (use assms in \<open>simp add: cdl_def\<close>)

lemma cdl_foreach: "lseg (view head h) el xs None \<Longrightarrow> CDL_FOREACH h head el = Some xs"
  by (induction xs arbitrary: el) (auto simp: CDL_FOREACH.simps)

lemma cdl_search: "cdl h head xs \<Longrightarrow> CDL_SEARCH h head cmp = Some (find (\<lambda>a. cmp a = 0) xs)"
  using ll_search [OF cdl_lseg] by (simp add: CDL_SEARCH_def)

lemma dl_concat:
  assumes "dl h head1 xs" and "dl h head2 ys" and "set xs \<inter> set ys = {}"
  shows "\<exists>h' head'. DL_CONCAT h head1 head2 = Some (h', head') \<and> dl h' head' (xs @ ys)"
proof (cases "xs = [] \<or> ys = []")
  case True
  then show ?thesis using assms by (auto simp: DL_CONCAT_def dl_def split: list.splits option.splits)
next
  case False
  obtain xs' l where xs: "xs = xs' @ [l]" using False by (cases xs rule: rev_cases) auto
  obtain b ys' where ys: "ys = b # ys'" using False by (cases ys) auto
  obtain a where a: "head1 = Some a" using False assms(1) by (cases xs) (auto simp: dl_def)
  have d: "l \<notin> set xs'" "l \<notin> set ys" "b \<notin> set xs" "b \<notin> set ys'" "distinct (xs @ ys)"
    using assms xs ys by (auto simp: dl_def)
  show ?thesis
  proof (cases xs')
    case Nil
    then show ?thesis
      using assms xs ys a d by (auto simp: dl_def DL_CONCAT_def set_prev_def set_next_def)
  next
    case (Cons x zs)
    then have "x = a" "a \<noteq> l" "a \<notin> set zs" "a \<notin> set ys" using assms xs a d by (auto simp: dl_def)
    then show ?thesis
      using assms xs ys a d Cons by (cases zs) (auto simp: dl_def DL_CONCAT_def set_prev_def set_next_def seg_append)
  qed
qed

lemma cdl_delete:
  assumes "cdl h head xs" and "x \<in> set xs"
  shows "\<exists>h' head'. CDL_DELETE h head x = Some (h', head') \<and> cdl h' head' (remove1 x xs)"
proof -
  obtain as bs where xs: "xs = as @ x # bs" using assms(2) by (meson split_list)
  have dist: "distinct (as @ x # bs)" and head: "head = first (as @ x # bs)" and seg: "seg h (last (as @ x # bs)) (as @ x # bs) head"
    using assms(1) xs by (auto simp: cdl_def)
  have rem: "remove1 x xs = as @ bs" using dist xs by (auto simp: remove1_append)
  show ?thesis
  proof (cases as rule: rev_cases)
    case Nil
    then have hd: "head = Some x" using head by simp
    show ?thesis
    proof (cases bs rule: rev_cases)
      case Nil
      then show ?thesis using \<open>as = []\<close> rem hd seg by (auto simp: CDL_DELETE_def cdl_def)
    next
      case (snoc cs l)
      then have d: "l \<noteq> x" "x \<notin> set cs" "l \<notin> set cs" using Nil dist by auto
      show ?thesis
      proof (cases cs)
        case Nil
        then show ?thesis using \<open>as = []\<close> snoc rem hd seg d
          by (auto simp: CDL_DELETE_def cdl_def set_prev_def set_next_def)
      next
        case (Cons b cs')
        then have "b \<noteq> l" "b \<noteq> x" "b \<notin> set cs'" using d dist snoc by auto
        then show ?thesis using Cons \<open>as = []\<close> snoc rem hd seg d dist
          by (cases cs') (auto simp: CDL_DELETE_def cdl_def set_prev_def set_next_def seg_append)
      qed
    qed
  next
    case (snoc as' a)
    then have ne: "head \<noteq> Some x" "a \<noteq> x" "x \<notin> set as'" "a \<notin> set as'" using head dist by (cases as'; auto)+
    show ?thesis
    proof (cases bs)
      case Nil
      show ?thesis
      proof (cases as')
        case Nil
        then show ?thesis using snoc \<open>bs = []\<close> ne rem head seg
          by (auto simp: CDL_DELETE_def cdl_def set_prev_def set_next_def)
      next
        case (Cons f as'')
        then have "f \<noteq> a" "f \<noteq> x" "f \<notin> set as''" using ne dist snoc by auto
        then show ?thesis using Cons snoc \<open>bs = []\<close> ne rem head seg dist
          by (cases as'') (auto simp: CDL_DELETE_def cdl_def set_prev_def set_next_def seg_append)
      qed
    next
      case (Cons b bs')
      then have "b \<noteq> x" "b \<noteq> a" "b \<notin> set bs'" using dist snoc by auto
      then show ?thesis using snoc Cons ne rem head seg dist
        by (cases as') (auto simp: CDL_DELETE_def cdl_def set_prev_def set_next_def seg_append)
    qed
  qed
qed

lemma first_None: "first xs = None \<longleftrightarrow> xs = []"
  by (cases xs) auto

lemma dl_sort: "dl h list xs \<Longrightarrow> \<exists>h' list'. DL_SORT cmp h list = Some (h', list') \<and> dl h' list' (lsort cmp 1 xs) \<and>
    (\<forall>b. b \<notin> set xs \<longrightarrow> h' b = h b)" if "mset (lsort cmp 1 xs) = mset xs" for h list xs
proof (cases "xs = []")
  case True
  moreover assume "dl h list xs"
  ultimately show ?thesis using that by (simp add: DL_SORT_def dl_def)
next
  case False
  assume d: "dl h list xs"
  then obtain h' where "dl_loop cmp 1 h list = Some (h', first (lsort cmp 1 xs))"
    "seg h' (last (lsort cmp 1 xs)) (lsort cmp 1 xs) None" "\<forall>b. b \<notin> set xs \<longrightarrow> h' b = h b"
    using dl_loop_lsort [of h xs 1 cmp] False by (auto simp: dl_def)
  moreover have "list \<noteq> None" using d False by (simp add: dl_def first_None)
  moreover have "distinct (lsort cmp 1 xs)" using mset_eq_imp_distinct_iff [OF that] d by (simp add: dl_def)
  ultimately show ?thesis by (auto simp: DL_SORT_def dl_def)
qed

lemma cdl_sort: "cdl h list xs \<Longrightarrow> \<exists>h' list'. CDL_SORT cmp h list = Some (h', list') \<and> cdl h' list' (lsort cmp 1 xs) \<and>
    (\<forall>b. b \<notin> set xs \<longrightarrow> h' b = h b)" if "mset (lsort cmp 1 xs) = mset xs" for h list xs
proof (cases "xs = []")
  case True
  moreover assume "cdl h list xs"
  ultimately show ?thesis using that by (simp add: CDL_SORT_def cdl_def)
next
  case False
  assume d: "cdl h list xs"
  then obtain h' where "cdl_loop cmp 1 h list = Some (h', first (lsort cmp 1 xs))"
    "seg h' (last (lsort cmp 1 xs)) (lsort cmp 1 xs) (first (lsort cmp 1 xs))" "\<forall>b. b \<notin> set xs \<longrightarrow> h' b = h b"
    using cdl_loop_lsort [of h xs 1 cmp] False by (auto simp: cdl_def)
  moreover have "list \<noteq> None" using d False by (simp add: cdl_def first_None)
  moreover have "distinct (lsort cmp 1 xs)" using mset_eq_imp_distinct_iff [OF that] d by (simp add: cdl_def)
  ultimately show ?thesis by (auto simp: CDL_SORT_def cdl_def)
qed

section \<open>The properties\<close>

text \<open>
  C38. The three merge sorts return on every list and agree: with a comparison by a key, what a list holds afterwards is its
  stable sort, with all its pointers in order, and the nodes that are not on it are untouched.
\<close>

theorem utlist_sorts:
  assumes "by_key cmp key"
  shows "(ll g list xs \<longrightarrow> (\<exists>g' list'. LL_SORT cmp g list = Some (g', list') \<and> ll g' list' (sort_key key xs) \<and>
      (\<forall>b. b \<notin> set xs \<longrightarrow> g' b = g b))) \<and>
    (dl h list xs \<longrightarrow> (\<exists>h' list'. DL_SORT cmp h list = Some (h', list') \<and> dl h' list' (sort_key key xs) \<and>
      (\<forall>b. b \<notin> set xs \<longrightarrow> h' b = h b))) \<and>
    (cdl h list xs \<longrightarrow> (\<exists>h' list'. CDL_SORT cmp h list = Some (h', list') \<and> cdl h' list' (sort_key key xs) \<and>
      (\<forall>b. b \<notin> set xs \<longrightarrow> h' b = h b)))"
proof -
  have s: "lsort cmp 1 xs = sort_key key xs" using lsort_sort_key [OF assms] .
  then have m: "mset (lsort cmp 1 xs) = mset xs" by simp
  show ?thesis using LL_SORT_eq [OF _ assms, of g list xs] dl_sort [OF m, of h list] cdl_sort [OF m, of h list] unfolding s by blast
qed

theorem utlist_sorts_witness:
  "\<exists>h' list'. CDL_SORT (\<lambda>a b. int (a mod 2) - int (b mod 2)) [1 \<mapsto> \<lparr>prev = Some 3, nxt = Some 2\<rparr>,
      2 \<mapsto> \<lparr>prev = Some 1, nxt = Some 3\<rparr>, 3 \<mapsto> \<lparr>prev = Some 2, nxt = Some 1\<rparr>] (Some 1) = Some (h', list') \<and>
    cdl h' list' [2, 1, 3]"
proof -
  let ?h = "[1 \<mapsto> \<lparr>prev = Some 3, nxt = Some 2\<rparr>, 2 \<mapsto> \<lparr>prev = Some 1, nxt = Some 3\<rparr>, 3 \<mapsto> \<lparr>prev = Some 2, nxt = Some 1\<rparr>] :: dlheap"
  have "cdl ?h (Some 1) [1, 2, 3]" by (simp add: cdl_def)
  moreover have "by_key (\<lambda>a b. int (a mod 2) - int (b mod 2)) (\<lambda>a. a mod 2)" by (auto simp: by_key_def)
  moreover have "sort_key (\<lambda>a. a mod 2) [1, 2, 3 :: nat] = [2, 1, 3]" by (simp add: insort_key.simps)
  ultimately show ?thesis using utlist_sorts [where xs = "[1, 2, 3]"] by metis
qed

end
