(* ===== verification/HttpsServer.thy ===== *)
theory HttpsServer
  imports HpdConfig
begin

text \<open>
  The secure web server of the daemon (\<open>hpdaemon/hpd_https_web_server.c\<close>), which is built with
  \<open>HPD_HTTPS\<close>: the certificate of a client, the connection handler, the list of secure services with
  its calls from \<open>hpd_web_server.c\<close>, and the files with the key and the certificates.

  The memory, the description and the event queues are those of the HTTP server, \<open>base\<close>. What GnuTLS says
  about the other side of a connection is a record; the pointer that libmicrohttpd keeps between the
  calls for one request is \<open>Aptr\<close> when it is the address of \<open>secure_continue\<close>. A crash is \<open>None\<close>.
\<close>

abbreviation (input) HPD_E_SSL_CERT_ERROR :: int where "HPD_E_SSL_CERT_ERROR \<equiv> -20"
abbreviation (input) HPD_E_CLIENT_CERT_ERROR :: int where "HPD_E_CLIENT_CERT_ERROR \<equiv> -24"
abbreviation (input) GNUTLS_E_CERTIFICATE_ERROR :: int where "GNUTLS_E_CERTIFICATE_ERROR \<equiv> -43"
abbreviation (input) MHD_HTTP_UNAUTHORIZED :: int where "MHD_HTTP_UNAUTHORIZED \<equiv> 401"

record secure_server =
  base :: server
  secure_service_head :: "addr list"
  secure_d :: bool
  root_pem :: "string pointer"
  key_pem :: "string pointer"
  cert_pem :: "string pointer"

section \<open>Files\<close>

text \<open>What the calls for one file return; the file may change between the two times it is opened.\<close>

record disk_file =
  seek_ok :: bool
  ftell_result :: int
  reopened :: bool
  allocated :: bool
  contents :: string

definition get_file_size :: "disk_file option \<Rightarrow> int" where
  "get_file_size f = (case f of
     None \<Rightarrow> 0
   | Some x \<Rightarrow> if \<not> seek_ok x \<or> ftell_result x = -1 then 0 else ftell_result x)"

definition load_file :: "disk_file option \<Rightarrow> string option" where
  "load_file f = (case f of
     None \<Rightarrow> None
   | Some x \<Rightarrow>
       let n = get_file_size f in
       if n = 0 \<or> \<not> reopened x \<or> \<not> allocated x then None
       else let b = take (nat n) (contents x) in if int (length b) \<noteq> n then None else Some b)"

section \<open>The certificate of the client\<close>

text \<open>
  \<open>verified\<close>, \<open>crt_init\<close> and \<open>crt_import\<close> are results of GnuTLS, negative on failure; the flags are the
  bits of the status that \<open>verified\<close> came with.
\<close>

record tls_session =
  verified :: int
  cert_invalid :: bool
  signer_not_found :: bool
  revoked :: bool
  expired :: bool
  not_activated :: bool
  is_x509 :: bool
  crt_init :: int
  has_peers :: bool
  crt_import :: int

definition verify_certificate :: "tls_session option \<Rightarrow> int" where
  "verify_certificate session = (case session of
     None \<Rightarrow> HPD_E_NULL_POINTER
   | Some t \<Rightarrow>
       if verified t < 0 then GNUTLS_E_CERTIFICATE_ERROR
       else if cert_invalid t then HPD_E_CLIENT_CERT_ERROR
       else if signer_not_found t then HPD_E_CLIENT_CERT_ERROR
       else if revoked t then HPD_E_CLIENT_CERT_ERROR
       else if expired t then HPD_E_CLIENT_CERT_ERROR
       else if not_activated t then HPD_E_CLIENT_CERT_ERROR
       else if \<not> is_x509 t then GNUTLS_E_CERTIFICATE_ERROR
       else if crt_init t < 0 then GNUTLS_E_CERTIFICATE_ERROR
       else if \<not> has_peers t then GNUTLS_E_CERTIFICATE_ERROR
       else if crt_import t < 0 then GNUTLS_E_CERTIFICATE_ERROR
       else HPD_E_SUCCESS)"

text \<open>What a client must have: a certificate of which GnuTLS reports no defect.\<close>

definition trusted :: "tls_session option \<Rightarrow> bool" where
  "trusted session \<longleftrightarrow> (\<exists>t. session = Some t \<and> 0 \<le> verified t \<and>
     \<not> (cert_invalid t \<or> signer_not_found t \<or> revoked t \<or> expired t \<or> not_activated t) \<and>
     is_x509 t \<and> 0 \<le> crt_init t \<and> has_peers t \<and> 0 \<le> crt_import t)"

lemma verify_trusted: "verify_certificate s = 0 \<longleftrightarrow> trusted s"
  by (cases s) (auto simp: verify_certificate_def trusted_def)

section \<open>Requests\<close>

definition secure_error_text :: "int \<Rightarrow> string" where
  "secure_error_text code =
     (if code = MHD_HTTP_NOT_FOUND then ''<html><head><title>Not Found</title></head></html>''
      else if code = MHD_HTTP_BAD_REQUEST then ''<html><head><title>Bad Request</title></head></html>''
      else if code = MHD_HTTP_UNAUTHORIZED then ''<html><head><title>Unauthorized</title></head></html>''
      else if code = MHD_HTTP_INTERNAL_SERVER_ERROR then ''Internal Server Error''
      else ''<html><head><title>Unknown Error</title></head></html>'')"

definition secure_send_error :: "env \<Rightarrow> int \<Rightarrow> int \<times> response option" where
  "secure_send_error v code =
     (if made v then (queued v, Some (Response code (secure_error_text code) None)) else (MHD_NO, None))"

text \<open>The length of the text is taken before it is looked at, so \<open>NULL\<close> is a crash.\<close>

definition secure_send_xml :: "env \<Rightarrow> string option \<Rightarrow> (int \<times> response option) option" where
  "secure_send_xml v xmlbuff = do {
     t \<leftarrow> xmlbuff;
     Some (if made v then (queued v, Some (Response MHD_HTTP_OK t None)) else (MHD_NO, None))
   }"

definition answer_with :: "(int \<times> response option) option \<Rightarrow> con \<Rightarrow> server \<Rightarrow> outcome" where
  "answer_with a c st = do { (rc, p) \<leftarrow> a; Some (rc, p, c, st) }"

text \<open>A device that reads nothing makes a second entry in the log.\<close>

definition secure_get_service_value :: "env \<Rightarrow> request \<Rightarrow> addr \<Rightarrow> service \<Rightarrow> server \<Rightarrow> outcome" where
  "secure_get_service_value v r s sv st =
     (if arg_x r = Some ''1'' then do {
        st1 \<leftarrow> log_request v r (Some ''x=1'') st;
        x \<leftarrow> extract_service_xml (mem st1) s (xml st1);
        answer_with (secure_send_xml v (case x of None \<Rightarrow> None | Some t \<Rightarrow> print_service v t)) Null st1
      }
      else if arg_p r = Some ''1'' then do {
        st1 \<leftarrow> log_request v r (Some ''p=1'') st;
        (rc, a, e) \<leftarrow> subscribe_to_service (print_subscription v) (cookie r) (new_id v) sv HPD_IS_SECURE_CONNECTION (events st1);
        Some (rc, subscription_answer a, Null, st1\<lparr>events := e\<rparr>)
      }
      else do {
        st1 \<leftarrow> log_request v r None st;
        let (n, buf) = read_device v (get_function sv);
        (if n = 0 then do {
           st2 \<leftarrow> log_request v r None st1;
           answer_with (Some (secure_send_error v MHD_HTTP_INTERNAL_SERVER_ERROR)) Null st2
         }
         else do {
           x \<leftarrow> terminated n buf;
           answer_with (secure_send_xml v (print_value v x)) Null st1
         })
      })"

definition secure_answer_get :: "env \<Rightarrow> request \<Rightarrow> addr list \<Rightarrow> server \<Rightarrow> outcome" where
  "secure_answer_get v r head st =
     (if url r = ''/log'' then do {
        st1 \<leftarrow> log_request v r None st;
        (rc, a, e) \<leftarrow> subscribe_to_log_events (print_subscription v) (cookie r) (new_id v) HPD_IS_SECURE_CONNECTION (events st1);
        Some (rc, subscription_answer a, Null, st1\<lparr>events := e\<rparr>)
      }
      else if url r = ''/events'' then do {
        st1 \<leftarrow> log_request v r None st;
        (rc, a, e) \<leftarrow> set_up_server_sent_event_connection (made v) (queued v) (cookie r) (new_id v) HPD_IS_SECURE_CONNECTION (events st1);
        answer_with (Some (if rc = MHD_HTTP_NOT_FOUND then secure_send_error v MHD_HTTP_NOT_FOUND
          else (rc, if made v then Some (EventStream a) else None))) Null (st1\<lparr>events := e\<rparr>)
      }
      else if url r = ''/devices'' then do {
        st1 \<leftarrow> log_request v r None st;
        answer_with (secure_send_xml v (print_list v (get_xml_device_list (xml st1)))) Null st1
      }
      else do {
        e \<leftarrow> matching_service (mem st) head (url r);
        (case e of
           None \<Rightarrow> answer_with (Some (secure_send_error v MHD_HTTP_NOT_FOUND)) Null st
         | Some s \<Rightarrow> do { sv \<leftarrow> services (mem st) s; secure_get_service_value v r s sv st })
      })"

text \<open>The data of the request are freed before the value in them is looked at.\<close>

definition secure_put_service_value :: "env \<Rightarrow> request \<Rightarrow> string \<Rightarrow> nat \<Rightarrow> service \<Rightarrow> server \<Rightarrow> outcome" where
  "secure_put_service_value v r d f sv st = (case parse_value v (takeWhile (\<lambda>c. c \<noteq> CHR 0x00) d) of
     None \<Rightarrow> answer_with (Some (secure_send_error v MHD_HTTP_BAD_REQUEST)) Dangling st
   | Some x \<Rightarrow>
       let (n, buf) = write_device v f x in
       if n = 0 then do {
         st1 \<leftarrow> log_request v r None st;
         answer_with (Some (secure_send_error v MHD_HTTP_INTERNAL_SERVER_ERROR)) Dangling st1
       }
       else do {
         y \<leftarrow> terminated n buf;
         (rc, e) \<leftarrow> send_event_of_value_change (Some sv) (Some y) (events st);
         answer_with (secure_send_xml v (print_value v y)) Dangling (st\<lparr>events := e\<rparr>)
       })"

definition secure_answer_put :: "env \<Rightarrow> request \<Rightarrow> con \<Rightarrow> addr list \<Rightarrow> server \<Rightarrow> outcome" where
  "secure_answer_put v r c head st =
     (if c = Aptr then Some (MHD_YES, None, if upload r = [] then Aptr else Data (upload r), st)
      else do {
        e \<leftarrow> matching_service (mem st) head (url r);
        (case e of
           None \<Rightarrow> answer_with (Some (secure_send_error v MHD_HTTP_NOT_FOUND)) c st
         | Some s \<Rightarrow> do {
             sv \<leftarrow> services (mem st) s;
             st1 \<leftarrow> log_request v r None st;
             (case put_function sv of
                None \<Rightarrow> answer_with (Some (secure_send_error v MHD_HTTP_BAD_REQUEST)) c st1
              | Some f \<Rightarrow> (case c of Data d \<Rightarrow> secure_put_service_value v r d f sv st1 | _ \<Rightarrow> None))
           })
      })"

type_synonym secure_outcome = "(int \<times> response option \<times> con \<times> secure_server) option"

definition secure_answer_to_connection ::
  "tls_session option \<Rightarrow> env \<Rightarrow> request \<Rightarrow> con \<Rightarrow> secure_server \<Rightarrow> secure_outcome" where
  "secure_answer_to_connection session v r c ss =
     (if c = Null then
        (if verify_certificate session \<noteq> 0
         then let a = secure_send_error v MHD_HTTP_UNAUTHORIZED in Some (fst a, snd a, Null, ss)
         else Some (MHD_YES, None, Aptr, ss))
      else map_option (\<lambda>(rc, a, c1, st). (rc, a, c1, ss\<lparr>base := st\<rparr>))
        (if http_method r = ''GET'' then secure_answer_get v r (secure_service_head ss) (base ss)
         else if http_method r = ''PUT'' then secure_answer_put v r c (secure_service_head ss) (base ss)
         else Some (MHD_NO, None, c, base ss)))"

section \<open>The list of secure services\<close>

definition register_service_in_secure_server :: "addr option \<Rightarrow> secure_server \<Rightarrow> int \<times> secure_server" where
  "register_service_in_secure_server ser ss = (case ser of
     None \<Rightarrow> (HPD_E_NULL_POINTER, ss)
   | Some s \<Rightarrow> (HPD_E_SUCCESS, ss\<lparr>secure_service_head := secure_service_head ss @ [s]\<rparr>))"

definition unregister_service_in_secure_server :: "addr \<Rightarrow> secure_server \<Rightarrow> (int \<times> secure_server) option" where
  "unregister_service_in_secure_server s ss =
     (if \<not> secure_d ss then None
      else do {
        e \<leftarrow> search (\<lambda>i. cmp_ServiceElement (mem (base ss)) i s) (secure_service_head ss);
        Some (HPD_E_SUCCESS, case e of None \<Rightarrow> ss
          | Some i \<Rightarrow> ss\<lparr>secure_service_head := remove1 i (secure_service_head ss)\<rparr>)
      })"

definition is_secure_service_registered :: "addr \<Rightarrow> secure_server \<Rightarrow> bool option" where
  "is_secure_service_registered s ss =
     (if \<not> secure_d ss then None
      else do {
        r \<leftarrow> search (\<lambda>e. do { x \<leftarrow> four_tuple (mem (base ss)) e; y \<leftarrow> four_tuple (mem (base ss)) s; Some (x = y) })
          (secure_service_head ss);
        Some (r \<noteq> None)
      })"

definition get_service_from_secure_server ::
  "string \<Rightarrow> string \<Rightarrow> string \<Rightarrow> string \<Rightarrow> secure_server \<Rightarrow> addr option option" where
  "get_service_from_secure_server dt di st si ss =
     (if \<not> secure_d ss then None
      else search (\<lambda>e. map_option (\<lambda>k. k = (dt, di, st, si)) (four_tuple (mem (base ss)) e)) (secure_service_head ss))"

definition get_device_from_secure_server :: "string \<Rightarrow> string \<Rightarrow> secure_server \<Rightarrow> addr option option" where
  "get_device_from_secure_server dt di ss =
     (if \<not> secure_d ss then None
      else let m = mem (base ss) in do {
        e \<leftarrow> search (\<lambda>e. do { sv \<leftarrow> services m e; d \<leftarrow> sdevice sv; dv \<leftarrow> devices m d; Some (dtype dv = dt \<and> dID dv = di) })
          (secure_service_head ss);
        (case e of None \<Rightarrow> Some None | Some i \<Rightarrow> do { sv \<leftarrow> services m i; d \<leftarrow> sdevice sv; Some (Some d) })
      })"

text \<open>
  With \<open>HPD_HTTPS\<close>, \<open>is_service_registered\<close> asks the secure list for a secure device, and so does
  \<open>destroy_service_struct\<close>.
\<close>

definition is_service_registered_https :: "addr \<Rightarrow> secure_server \<Rightarrow> int option" where
  "is_service_registered_https s ss = do {
     sv \<leftarrow> services (mem (base ss)) s;
     d \<leftarrow> sdevice sv;
     dv \<leftarrow> devices (mem (base ss)) d;
     (if secure_device dv = 1 then map_option (\<lambda>b. if b then 1 else 0) (is_secure_service_registered s ss)
      else is_service_registered (Some s) (mem (base ss)))
   }"

definition destroy_service_https :: "addr \<Rightarrow> secure_server \<Rightarrow> (int \<times> secure_server) option" where
  "destroy_service_https s ss = do {
     r \<leftarrow> is_service_registered_https s ss;
     (if r \<noteq> 0 then Some (HPD_E_SERVICE_IN_USE, ss)
      else do {
        (rc, m) \<leftarrow> destroy_service_struct (Some s) (mem (base ss));
        Some (rc, ss\<lparr>base := (base ss)\<lparr>mem := m\<rparr>\<rparr>)
      })
   }"

fun free_secure_services :: "addr list \<Rightarrow> secure_server \<Rightarrow> secure_server option" where
  "free_secure_services [] ss = Some ss"
| "free_secure_services (s # l) ss = do {
     (rc, ss1) \<leftarrow> destroy_service_https s (ss\<lparr>secure_service_head := remove1 s (secure_service_head ss)\<rparr>);
     free_secure_services l ss1
   }"

definition free_secure_server_services :: "secure_server \<Rightarrow> (int \<times> secure_server) option" where
  "free_secure_server_services ss =
     (if secure_service_head ss = [] then Some (HPD_E_NULL_POINTER, ss)
      else do { ss1 \<leftarrow> free_secure_services (secure_service_head ss) ss; Some (HPD_E_SUCCESS, ss1) })"

section \<open>Start and stop\<close>

definition loaded :: "string option \<Rightarrow> string pointer" where
  "loaded f = (case f of None \<Rightarrow> Unset | Some b \<Rightarrow> Live b)"

definition drop_pem :: "string pointer \<Rightarrow> string pointer" where
  "drop_pem p = (case p of Live b \<Rightarrow> Freed | _ \<Rightarrow> p)"

text \<open>
  The files of the root, the key and the certificate, and whether libmicrohttpd starts. The pointers are
  not reset when their blocks are freed.
\<close>

definition start_secure_server ::
  "disk_file option \<Rightarrow> disk_file option \<Rightarrow> disk_file option \<Rightarrow> bool \<Rightarrow> secure_server \<Rightarrow> int \<times> secure_server" where
  "start_secure_server root_file key_file cert_file started ss =
     (let r = loaded (load_file root_file); k = loaded (load_file key_file); c = loaded (load_file cert_file) in
      if r = Unset \<or> k = Unset \<or> c = Unset
      then (HPD_E_SSL_CERT_ERROR, ss\<lparr>root_pem := drop_pem r, key_pem := drop_pem k, cert_pem := drop_pem c\<rparr>)
      else if \<not> started
      then (HPD_E_MHD_ERROR, ss\<lparr>secure_d := False, root_pem := drop_pem r, key_pem := drop_pem k, cert_pem := drop_pem c\<rparr>)
      else (HPD_E_SUCCESS, ss\<lparr>secure_d := True, root_pem := r, key_pem := k, cert_pem := c\<rparr>))"

definition free_pem :: "string pointer \<Rightarrow> string pointer option" where
  "free_pem p = (case p of Freed \<Rightarrow> None | _ \<Rightarrow> Some (drop_pem p))"

definition stop_secure_server :: "secure_server \<Rightarrow> (int \<times> secure_server) option" where
  "stop_secure_server ss =
     (if \<not> secure_d ss then None
      else do {
        (rc, ss1) \<leftarrow> free_secure_server_services ss;
        k \<leftarrow> free_pem (key_pem ss1);
        c \<leftarrow> free_pem (cert_pem ss1);
        r \<leftarrow> free_pem (root_pem ss1);
        Some (HPD_E_SUCCESS, ss1\<lparr>key_pem := k, cert_pem := c, root_pem := r\<rparr>)
      })"

section \<open>No answer without a certificate\<close>

text \<open>
  Calls of the handler for many connections: a call names its connection, whose pointer is kept between
  the calls. The answers come back with their connections.
\<close>

type_synonym call = "nat \<times> tls_session option \<times> env \<times> request"

fun secure_run :: "call list \<Rightarrow> (nat \<Rightarrow> con) \<Rightarrow> secure_server \<Rightarrow>
    ((nat \<times> int \<times> response option) list \<times> (nat \<Rightarrow> con) \<times> secure_server) option" where
  "secure_run [] cs ss = Some ([], cs, ss)"
| "secure_run ((i, t, v, r) # cl) cs ss = do {
     (rc, a, c, ss1) \<leftarrow> secure_answer_to_connection t v r (cs i) ss;
     (as, cs2, ss2) \<leftarrow> secure_run cl (cs(i := c)) ss1;
     Some ((i, rc, a) # as, cs2, ss2)
   }"

lemma untrusted_call:
  "\<not> trusted t \<Longrightarrow> secure_answer_to_connection t v r Null ss =
    Some (fst (secure_send_error v 401), snd (secure_send_error v 401), Null, ss)"
  by (simp add: secure_answer_to_connection_def verify_trusted Let_def)

definition refusal :: "int \<times> response option \<Rightarrow> bool" where
  "refusal a \<longleftrightarrow> snd a \<in> {None, Some (Response 401 ''<html><head><title>Unauthorized</title></head></html>'' None)}"

lemma refusal_401: "refusal (secure_send_error v 401)"
  by (simp add: refusal_def secure_send_error_def secure_error_text_def)

lemma secure_run_purge:
  assumes "\<forall>(i, t, v, r) \<in> set cl. i \<in> U \<longrightarrow> \<not> trusted t" and "\<forall>i\<in>U. cs i = Null"
  shows "map_option (\<lambda>(as, cs', ss'). (filter (\<lambda>x. fst x \<notin> U) as, cs', ss')) (secure_run cl cs ss) =
      secure_run (filter (\<lambda>x. fst x \<notin> U) cl) cs ss \<and>
    (\<forall>as cs' ss'. secure_run cl cs ss = Some (as, cs', ss') \<longrightarrow> (\<forall>(i, a) \<in> set as. i \<in> U \<longrightarrow> refusal a))"
  using assms
proof (induction cl arbitrary: cs ss)
  case (Cons call cl)
  obtain i t v r where call: "call = (i, t, v, r)" by (cases call)
  have rest: "\<forall>(i, t, v, r) \<in> set cl. i \<in> U \<longrightarrow> \<not> trusted t" using Cons.prems(1) by auto
  show ?case
  proof (cases "i \<in> U")
    case True
    then have "cs i = Null" "\<not> trusted t" using Cons.prems call by auto
    then have eq: "secure_run (call # cl) cs ss = do {
        (as, cs2, ss2) \<leftarrow> secure_run cl cs ss;
        Some ((i, secure_send_error v 401) # as, cs2, ss2) }"
      using fun_upd_triv [of cs i] by (simp add: call untrusted_call)
    show ?thesis
      using Cons.IH [OF rest Cons.prems(2), of ss] True unfolding eq
      by (cases "secure_run cl cs ss") (auto simp: call refusal_401)
  next
    case False
    show ?thesis
    proof (cases "secure_answer_to_connection t v r (cs i) ss")
      case (Some out)
      obtain rc a c ss1 where out: "out = (rc, a, c, ss1)" by (cases out)
      define cs1 where cs1: "cs1 = cs(i := c)"
      have "\<forall>j\<in>U. cs1 j = Null" using Cons.prems(2) False by (auto simp: cs1)
      note IH = Cons.IH [OF rest this, of ss1]
      have "secure_run (filter (\<lambda>x. fst x \<notin> U) cl) cs1 ss1 =
          map_option (\<lambda>(as, cs', ss'). (filter (\<lambda>x. fst x \<notin> U) as, cs', ss')) (secure_run cl cs1 ss1)"
        by (rule conjunct1 [OF IH, symmetric])
      then show ?thesis
        using False Some conjunct2 [OF IH] by (cases "secure_run cl cs1 ss1") (auto simp: call out cs1 [symmetric])
    qed (use False call in simp)
  qed
qed simp

text \<open>
  C10. Connections without a trusted certificate have no influence: whatever they ask, in any interleaving
  with the other connections, they get nothing but 401, and the other answers, the services, the events and
  the log are those of a run without them.
\<close>

theorem untrusted_clients_excluded:
  assumes "\<forall>(i, t, v, r) \<in> set cl. i \<in> U \<longrightarrow> \<not> trusted t" and "\<forall>i\<in>U. cs i = Null"
  shows "map_option (\<lambda>(as, cs', ss'). (filter (\<lambda>x. fst x \<notin> U) as, cs', ss')) (secure_run cl cs ss) =
      secure_run (filter (\<lambda>x. fst x \<notin> U) cl) cs ss \<and>
    (\<forall>as cs' ss'. secure_run cl cs ss = Some (as, cs', ss') \<longrightarrow> (\<forall>(i, a) \<in> set as. i \<in> U \<longrightarrow> refusal a))"
  using secure_run_purge [OF assms] .

definition good_tls :: tls_session where
  "good_tls = \<lparr>verified = 0, cert_invalid = False, signer_not_found = False, revoked = False, expired = False,
     not_activated = False, is_x509 = True, crt_init = 0, has_peers = True, crt_import = 0\<rparr>"

definition secure_served :: secure_server where
  "secure_served = \<lparr>base = served, secure_service_head = [1], secure_d = True,
     root_pem = Unset, key_pem = Unset, cert_pem = Unset\<rparr>"

definition get_lamp :: request where
  "get_lamp = \<lparr>url = ''/Lamp/1/Switch/0'', http_method = ''GET'', arg_x = None, arg_p = None, cookie = None, upload = []\<rparr>"

lemma secure_served_sel [simp]:
  "base secure_served = served" "secure_service_head secure_served = [1]" "secure_d secure_served"
  "root_pem secure_served = Unset" "key_pem secure_served = Unset" "cert_pem secure_served = Unset"
  by (simp_all add: secure_served_def)

theorem untrusted_clients_excluded_witness:
  "\<exists>x. secure_run [(0, Some good_tls, demo_env, get_lamp)] (\<lambda>_. Null) secure_served = Some x \<and>
    map_option (\<lambda>(as, cs', ss'). (filter (\<lambda>x. fst x \<notin> {1}) as, cs', ss'))
      (secure_run [(1, Some (good_tls\<lparr>revoked := True\<rparr>), demo_env, get_lamp), (0, Some good_tls, demo_env, get_lamp)]
        (\<lambda>_. Null) secure_served) = Some x"
  using untrusted_clients_excluded [of "[(1, Some (good_tls\<lparr>revoked := True\<rparr>), demo_env, get_lamp),
      (0, Some good_tls, demo_env, get_lamp)]" "{1}" "\<lambda>_. Null" secure_served]
  by (simp add: trusted_def good_tls_def secure_answer_to_connection_def verify_certificate_def)

section \<open>The same answers as the HTTP server\<close>

definition as_http :: "secure_server \<Rightarrow> server" where
  "as_http ss = (base ss)\<lparr>mem := (mem (base ss))\<lparr>service_head := secure_service_head ss, daemon := secure_d ss\<rparr>\<rparr>"

text \<open>The status of a response, and its text unless it is the text of an error.\<close>

fun brief :: "response \<Rightarrow> int \<times> string option" where
  "brief (Response code x k) = (code, if code = MHD_HTTP_OK then Some x else None)"
| "brief (EventStream k) = (MHD_HTTP_OK, None)"

definition answer_of :: "(int \<times> response option \<times> con \<times> 's) option \<Rightarrow> (int \<times> (int \<times> string option) option) option" where
  "answer_of out = map_option (\<lambda>(rc, a, c, st). (rc, map_option brief a)) out"

lemma brief_error:
  "code \<noteq> 200 \<Longrightarrow> map_option brief (snd (secure_send_error v code)) = map_option brief (snd (send_error v code))"
  "fst (secure_send_error v code) = fst (send_error v code)"
  by (auto simp: secure_send_error_def send_error_def)

lemma answer_of_with: "answer_of (answer_with a c st) = map_option (\<lambda>(rc, p). (rc, map_option brief p)) a"
  by (cases a) (auto simp: answer_of_def answer_with_def)

lemma answer_of_lift [simp]:
  "answer_of (map_option (\<lambda>(rc, a, c1, st). (rc, a, c1, f st)) out) = answer_of out"
  by (cases out) (auto simp: answer_of_def)

lemma as_http_sel [simp]:
  "services (mem (as_http ss)) = services (mem (base ss))" "service_head (mem (as_http ss)) = secure_service_head ss"
  "events (as_http ss) = events (base ss)" "hlog (as_http ss) = hlog (base ss)" "xml (as_http ss) = xml (base ss)"
  "matching_service (mem (as_http ss)) l u = matching_service (mem (base ss)) l u"
  by (simp_all add: as_http_def matching_service_def)

lemma log_some:
  assumes "tm_ok (now v)" and "global_ok (events st)"
  shows "\<exists>st'. log_request v r q st = Some st' \<and> mem st' = mem st \<and> xml st' = xml st \<and> global_ok (events st')"
proof -
  obtain g gq where "global_queue (events st) = Some g" "queues (events st) g = Some gq"
    using assms(2) by (auto simp: global_ok_def)
  from log_request_ok [OF assms(1) this, of r q] show ?thesis by (auto simp: global_ok_def)
qed

lemma answered_some:
  assumes "tm_ok (now v)" and "global_ok (events st)"
  shows "answer_of (answered v r q c st a) = Some (fst a, map_option brief (snd a))"
  using log_some [OF assms, of r q] by (auto simp: answered_def answer_of_def)

lemma value_event_some:
  assumes "global_ok m"
  shows "\<exists>m'. send_event_of_value_change (Some sv) (Some x) m = Some (0, m') \<and> global_ok m'"
proof -
  obtain g gq where "global_queue m = Some g" "queues m g = Some gq" using assms by (auto simp: global_ok_def)
  then show ?thesis
    using queue_event_global [of "\<lparr>eid = Some (value_url sv), edata = Some x\<rparr>" "value_url sv" gq]
    by (auto simp: send_event_of_value_change_def queue_event_at_def global_ok_def)
qed

lemma secure_get_same:
  assumes "tm_ok (now v)" and "global_ok (events (base ss))" and "url r \<notin> {''/log'', ''/events''}"
    and "arg_x r \<noteq> Some ''1''" and "arg_p r \<noteq> Some ''1''"
    and "\<And>x. print_value v x \<noteq> None" and "\<And>x. print_list v x \<noteq> None"
  shows "answer_of (secure_answer_get v r (secure_service_head ss) (base ss)) =
    answer_of (answer_get v r Aptr (as_http ss))"
proof -
  have g: "global_ok (events (as_http ss))" using assms(2) by simp
  note ans = answered_some [OF assms(1) g]
  obtain st1 where st1: "log_request v r None (base ss) = Some st1" "xml st1 = xml (base ss)" "global_ok (events st1)"
    using log_some [OF assms(1,2)] by blast
  obtain st2 where st2: "log_request v r None st1 = Some st2" using log_some [OF assms(1) st1(3)] by blast
  consider (devices) "url r = ''/devices''" | (fault) "matching_service (mem (base ss)) (secure_service_head ss) (url r) = None" "url r \<noteq> ''/devices''"
    | (unknown) "matching_service (mem (base ss)) (secure_service_head ss) (url r) = Some None" "url r \<noteq> ''/devices''"
    | (known) s where "matching_service (mem (base ss)) (secure_service_head ss) (url r) = Some (Some s)" "url r \<noteq> ''/devices''"
    by (cases "matching_service (mem (base ss)) (secure_service_head ss) (url r)") auto
  then show ?thesis
  proof cases
    case devices
    obtain t where "print_list v (get_xml_device_list (xml (base ss))) = Some t" using assms(7) by blast
    then show ?thesis
      using devices st1 by (simp add: secure_answer_get_def answer_get_def secure_send_xml_def send_xml_def answer_of_with ans)
  next
    case unknown
    then show ?thesis using assms(3)
      by (simp add: secure_answer_get_def answer_get_def answer_of_with ans case_prod_beta brief_error)
  next
    case (known s)
    show ?thesis
    proof (cases "services (mem (base ss)) s")
      case (Some sv)
      obtain n buf where n: "read_device v (get_function sv) = (n, buf)" by (cases "read_device v (get_function sv)")
      obtain t where "print_value v (takeWhile (\<lambda>c. c \<noteq> CHR 0x00) (take (nat n) buf)) = Some t" using assms(6) by blast
      then have "answer_of (secure_get_service_value v r s sv (base ss)) = answer_of (get_service_value v r s sv (as_http ss))"
        using assms(4,5) st1 st2 n
        by (simp add: secure_get_service_value_def get_service_value_def secure_send_xml_def send_xml_def terminated_def
            answer_of_with ans case_prod_beta brief_error)
      then show ?thesis using known Some assms(3) by (simp add: secure_answer_get_def answer_get_def)
    qed (use known assms(3) in \<open>simp add: secure_answer_get_def answer_get_def\<close>)
  qed (use assms(3) in \<open>simp add: secure_answer_get_def answer_get_def\<close>)
qed

lemma secure_put_same:
  assumes "tm_ok (now v)" and "global_ok (events (base ss))" and "\<And>x. print_value v x \<noteq> None"
  shows "answer_of (secure_answer_put v r (Data d) (secure_service_head ss) (base ss)) =
    answer_of (answer_put v r (Data d) (as_http ss))"
proof -
  have g: "global_ok (events (as_http ss))" using assms(2) by simp
  note ans = answered_some [OF assms(1)]
  obtain st1 where st1: "log_request v r None (base ss) = Some st1" "global_ok (events st1)"
    using log_some [OF assms(1,2)] by blast
  obtain st2 where st2: "log_request v r None st1 = Some st2" using log_some [OF assms(1) st1(2)] by blast
  have put: "answer_of (secure_put_service_value v r d f sv st1) = answer_of (put_service_value v r d f sv (as_http ss))" for f sv
  proof (cases "parse_value v (takeWhile (\<lambda>c. c \<noteq> CHR 0x00) d)")
    case None
    then show ?thesis
      by (simp add: secure_put_service_value_def put_service_value_def answer_of_with ans [OF g] case_prod_beta brief_error)
  next
    case (Some x)
    obtain n buf where n: "write_device v f x = (n, buf)" by (cases "write_device v f x")
    let ?y = "takeWhile (\<lambda>c. c \<noteq> CHR 0x00) (take (nat n) buf)"
    obtain t where t: "print_value v ?y = Some t" using assms(3) by blast
    obtain m1 where m1: "send_event_of_value_change (Some sv) (Some ?y) (events st1) = Some (0, m1)"
      using value_event_some [OF st1(2)] by blast
    obtain m2 where m2: "send_event_of_value_change (Some sv) (Some ?y) (events (base ss)) = Some (0, m2)" "global_ok m2"
      using value_event_some [OF assms(2)] by blast
    have "global_ok (events ((as_http ss)\<lparr>events := m2\<rparr>))" using m2(2) by simp
    note ans2 = ans [OF this]
    show ?thesis
      using Some n t m1 m2(1) st2
      by (simp add: secure_put_service_value_def put_service_value_def secure_send_xml_def send_xml_def terminated_def
          answer_of_with ans [OF g] ans2 case_prod_beta brief_error)
  qed
  show ?thesis
  proof (cases "matching_service (mem (base ss)) (secure_service_head ss) (url r)")
    case (Some e)
    show ?thesis
    proof (cases e)
      case None
      then show ?thesis using Some
        by (simp add: secure_answer_put_def answer_put_def answer_of_with case_prod_beta brief_error)
          (simp add: answer_of_def Let_def brief_error)
    next
      case s: (Some s)
      show ?thesis
      proof (cases "services (mem (base ss)) s")
        case sv: (Some sv)
        then show ?thesis using Some s st1 put
          by (cases "put_function sv")
            (simp_all add: secure_answer_put_def answer_put_def answer_of_with ans [OF g] case_prod_beta brief_error)
      qed (use Some s in \<open>simp add: secure_answer_put_def answer_put_def\<close>)
    qed
  qed (simp add: secure_answer_put_def answer_put_def)
qed

lemma secure_same:
  assumes "trusted t" and "tm_ok (now v)" and "global_ok (events (base ss))"
    and "http_method r = ''GET'' \<and> c = Aptr \<and> url r \<notin> {''/log'', ''/events''} \<and> arg_x r \<noteq> Some ''1'' \<and> arg_p r \<noteq> Some ''1'' \<or>
      http_method r = ''PUT'' \<and> c = Data d"
    and "\<And>x. print_value v x \<noteq> None" and "\<And>x. print_list v x \<noteq> None"
  shows "secure_answer_to_connection t v r Null ss = Some (MHD_YES, None, Aptr, ss) \<and>
    answer_of (secure_answer_to_connection t v r c ss) = answer_of (answer_to_connection v r c (as_http ss))"
proof (intro conjI)
  show "secure_answer_to_connection t v r Null ss = Some (MHD_YES, None, Aptr, ss)"
    using assms(1) by (simp add: secure_answer_to_connection_def verify_trusted)
  show "answer_of (secure_answer_to_connection t v r c ss) = answer_of (answer_to_connection v r c (as_http ss))"
    using assms(4)
  proof
    assume g: "http_method r = ''GET'' \<and> c = Aptr \<and> url r \<notin> {''/log'', ''/events''} \<and> arg_x r \<noteq> Some ''1'' \<and> arg_p r \<noteq> Some ''1''"
    then have "answer_of (secure_answer_get v r (secure_service_head ss) (base ss)) = answer_of (answer_get v r Aptr (as_http ss))"
      using secure_get_same [OF assms(2,3) _ _ _ assms(5,6)] by blast
    then show ?thesis using g by (simp add: secure_answer_to_connection_def answer_to_connection_def)
  next
    assume "http_method r = ''PUT'' \<and> c = Data d"
    then show ?thesis
      using secure_put_same [OF assms(2,3,5)] by (simp add: secure_answer_to_connection_def answer_to_connection_def)
  qed
qed



text \<open>
  A text that Mini-XML cannot print is a crash here, while the HTTP server only drops the connection.
\<close>

theorem null_xml_crashes:
  assumes "tm_ok (now v)" and "global_ok (events (base ss))" and "url r = ''/devices''" and "http_method r = ''GET''"
    and "print_list v (get_xml_device_list (xml (base ss))) = None"
  shows "secure_answer_to_connection t v r Aptr ss = None \<and>
    answer_of (answer_to_connection v r Aptr (as_http ss)) = Some (MHD_NO, None)"
proof -
  obtain st1 where "log_request v r None (base ss) = Some st1" "xml st1 = xml (base ss)"
    using log_some [OF assms(1,2)] by blast
  moreover have "global_ok (events (as_http ss))" using assms(2) by simp
  ultimately show ?thesis
    using assms answered_some [OF assms(1), of "as_http ss"]
    by (simp add: secure_answer_to_connection_def answer_to_connection_def secure_answer_get_def answer_get_def
        secure_send_xml_def send_xml_def answer_with_def)
qed

theorem null_xml_crashes_witness:
  "secure_answer_to_connection (Some good_tls) demo_env (get_lamp\<lparr>url := ''/devices''\<rparr>) Aptr secure_served = None"
  using null_xml_crashes [of demo_env secure_served "get_lamp\<lparr>url := ''/devices''\<rparr>" "Some good_tls"] global_ok_demo
  by (simp add: get_lamp_def demo_env_def tm_ok_def)

section \<open>The list is a register\<close>

definition https_wf :: "secure_server \<Rightarrow> addr list \<Rightarrow> bool" where
  "https_wf ss l \<longleftrightarrow> secure_d ss \<and> list_wf (keyed (mem (base ss))) (the_key (mem (base ss))) l"

definition https_mem :: "secure_server \<Rightarrow> addr \<Rightarrow> addr list \<Rightarrow> bool" where
  "https_mem ss s l \<longleftrightarrow> is_secure_service_registered s (ss\<lparr>secure_service_head := l\<rparr>) = Some True"

definition https_add :: "secure_server \<Rightarrow> addr \<Rightarrow> addr list \<Rightarrow> addr list" where
  "https_add ss s l = secure_service_head (snd (register_service_in_secure_server (Some s) (ss\<lparr>secure_service_head := l\<rparr>)))"

definition https_del :: "secure_server \<Rightarrow> addr \<Rightarrow> addr list \<Rightarrow> addr list" where
  "https_del ss s l = secure_service_head (snd (the (unregister_service_in_secure_server s (ss\<lparr>secure_service_head := l\<rparr>))))"

lemma https_registry:
  "registry (https_wf ss) (\<lambda>l. the_key (mem (base ss)) ` set l) (the_key (mem (base ss))) (keyed (mem (base ss)))
    (https_add ss) (https_del ss) (https_mem ss)"
proof (rule list_registry)
  let ?m = "mem (base ss)"
  fix l s assume "https_wf ss l" and s: "keyed ?m s"
  then have l: "secure_d ss" "list_all (keyed ?m) l" "distinct (map (the_key ?m) l)" by (simp_all add: https_wf_def list_wf_def)
  show "https_mem ss s l \<longleftrightarrow> the_key ?m s \<in> the_key ?m ` set l"
    using search_keys(1) [OF l(2) s] l(1) find_key [of "the_key ?m" s l]
    by (simp add: https_mem_def is_secure_service_registered_def)
  show "https_add ss s l = l @ [s]" by (simp add: https_add_def register_service_in_secure_server_def)
  show "https_del ss s l = filter (\<lambda>e. the_key ?m e \<noteq> the_key ?m s) l"
    using search_keys(2) [OF l(2) s] l(1) filter_find_remove1 [OF l(3), of "the_key ?m s"]
    by (simp add: https_del_def unregister_service_in_secure_server_def split: option.splits)
qed (simp add: https_wf_def)

interpretation https: registry "https_wf ss" "\<lambda>l. the_key (mem (base ss)) ` set l" "the_key (mem (base ss))"
    "keyed (mem (base ss))" "https_add ss" "https_del ss" "https_mem ss" for ss
  by (rule https_registry)

text \<open>
  A sequence of registrations and unregistrations of secure services, each after its test whether the
  service is registered, leaves exactly one entry for every service that was registered and not
  unregistered since.
\<close>

theorem secure_list_tracks:
  assumes "https_wf ss l" and "list_all (\<lambda>(b, s). keyed (mem (base ss)) s) ops"
  shows "https_wf ss (fold (guarded (https_mem ss) (https_add ss) (https_del ss)) ops l) \<and>
    the_key (mem (base ss)) ` set (fold (guarded (https_mem ss) (https_add ss) (https_del ss)) ops l) =
      fold (track (the_key (mem (base ss)))) ops (the_key (mem (base ss)) ` set l)"
  by (rule https.replay [OF assms])

theorem secure_list_tracks_witness:
  "https_wf (secure_served\<lparr>base := demo_server\<rparr>)
    (fold (guarded (https_mem (secure_served\<lparr>base := demo_server\<rparr>)) (https_add (secure_served\<lparr>base := demo_server\<rparr>))
      (https_del (secure_served\<lparr>base := demo_server\<rparr>))) [(True, 1), (True, 1), (False, 1), (True, 1)] [])"
proof -
  have "keyed (mem demo_server) 1" using entry_keyed [OF one_service_entry] by (simp add: demo_server_def)
  then show ?thesis
    using secure_list_tracks [of "secure_served\<lparr>base := demo_server\<rparr>" "[]" "[(True, 1), (True, 1), (False, 1), (True, 1)]"]
    by (simp add: https_wf_def list_wf_def)
qed

section \<open>Life of the secure server\<close>

lemma load_missing: "load_file None = None" "ftell_result x = 0 \<Longrightarrow> load_file (Some x) = None"
  by (simp_all add: load_file_def get_file_size_def)

lemmas secure_life = start_secure_server_def stop_secure_server_def loaded_def drop_pem_def free_pem_def
  free_secure_server_services_def Let_def

text \<open>
  The start reports a file that is missing or empty, or that libmicrohttpd does not start, and gives back
  every file that was loaded; a stop that follows all the same fails its assertion. Otherwise the server
  has the three files and stops once; stopping it again frees the key twice.
\<close>

theorem secure_server_lifecycle:
  assumes "secure_service_head ss = []" and "\<not> secure_d ss"
  shows "case start_secure_server rf kf cf started ss of (rc, ss1) \<Rightarrow>
    if load_file rf = None \<or> load_file kf = None \<or> load_file cf = None
    then rc = HPD_E_SSL_CERT_ERROR \<and> {root_pem ss1, key_pem ss1, cert_pem ss1} \<subseteq> {Unset, Freed} \<and> stop_secure_server ss1 = None
    else if \<not> started
    then rc = HPD_E_MHD_ERROR \<and> {root_pem ss1, key_pem ss1, cert_pem ss1} = {Freed} \<and> stop_secure_server ss1 = None
    else rc = HPD_E_SUCCESS \<and>
      (root_pem ss1, key_pem ss1, cert_pem ss1) = (loaded (load_file rf), loaded (load_file kf), loaded (load_file cf)) \<and>
      (\<exists>ss2. stop_secure_server ss1 = Some (HPD_E_SUCCESS, ss2) \<and> base ss2 = base ss \<and> stop_secure_server ss2 = None)"
  using assms
  by (cases "load_file rf"; cases "load_file kf"; cases "load_file cf") (simp_all add: secure_life)

theorem secure_server_lifecycle_witness:
  "let f = Some \<lparr>seek_ok = True, ftell_result = 2, reopened = True, allocated = True, contents = ''pem''\<rparr> in
    \<exists>ss1 ss2. start_secure_server f f f True (secure_served\<lparr>secure_service_head := [], secure_d := False\<rparr>) = (0, ss1) \<and>
      key_pem ss1 = Live ''pe'' \<and> stop_secure_server ss1 = Some (0, ss2) \<and> stop_secure_server ss2 = None"
proof -
  let ?f = "Some \<lparr>seek_ok = True, ftell_result = 2, reopened = True, allocated = True, contents = ''pem''\<rparr>"
  have f: "load_file ?f = Some ''pe''" by (simp add: load_file_def get_file_size_def numeral_2_eq_2)
  obtain rc ss1 where ss1: "start_secure_server ?f ?f ?f True (secure_served\<lparr>secure_service_head := [], secure_d := False\<rparr>) = (rc, ss1)"
    by fastforce
  show ?thesis
    using secure_server_lifecycle [of "secure_served\<lparr>secure_service_head := [], secure_d := False\<rparr>" ?f ?f ?f True] f ss1
    by (auto simp: loaded_def)
qed

end
