(* ===== verification/HttpsRegister.thy ===== *)
theory HttpsRegister
  imports HttpsServer
begin

text \<open>
  Registration in a daemon that has both web servers (\<open>hpdaemon/hpd_web_server.c\<close>, built with HTTP and HTTPS): a
  service goes to the list of the server that its device asks for, and to the one XML description.
\<close>

text \<open>What a registration and its reverse do for a secure device; \<open>avahi\<close> is the result of the Avahi function.\<close>

definition register_service_https :: "int \<Rightarrow> addr \<Rightarrow> secure_server \<Rightarrow> (int \<times> secure_server) option" where
  "register_service_https avahi s ss = do {
     sv \<leftarrow> services (mem (base ss)) s;
     d \<leftarrow> sdevice sv;
     dv \<leftarrow> devices (mem (base ss)) d;
     (if secure_device dv \<noteq> 1 then
        map_option (\<lambda>(rc, st). (rc, ss\<lparr>base := st\<rparr>)) (register_service_in_server avahi s (base ss))
      else do {
        b \<leftarrow> is_secure_service_registered s ss;
        (if b then Some (HPD_E_SERVICE_ALREADY_REGISTER, ss)
         else let (rc, ss1) = register_service_in_secure_server (Some s) ss in
         if rc < 0 then Some (rc, ss1)
         else do {
           (rx, x1) \<leftarrow> add_service_to_xml (mem (base ss1)) s (xml (base ss1));
           let st1 = (base ss1)\<lparr>xml := x1\<rparr>;
           (if rx = -1 then Some (HPD_E_XML_ERROR, ss1\<lparr>base := st1\<rparr>)
            else if avahi < 0 then Some (avahi, ss1\<lparr>base := st1\<rparr>)
            else do {
              (rn, e1) \<leftarrow> notify_service_availability (Some sv) HPD_YES (events st1);
              Some (if rn < 0 then rn else HPD_E_SUCCESS, ss1\<lparr>base := st1\<lparr>events := e1\<rparr>\<rparr>)
            })
         })
      })
   }"

definition unregister_service_https :: "int \<Rightarrow> addr \<Rightarrow> secure_server \<Rightarrow> (int \<times> secure_server) option" where
  "unregister_service_https avahi s ss = do {
     sv \<leftarrow> services (mem (base ss)) s;
     d \<leftarrow> sdevice sv;
     dv \<leftarrow> devices (mem (base ss)) d;
     (if secure_device dv \<noteq> 1 then
        map_option (\<lambda>(rc, st). (rc, ss\<lparr>base := st\<rparr>)) (unregister_service_in_server avahi s (base ss))
      else do {
        r \<leftarrow> is_service_registered_https s ss;
        (if r = 0 then Some (HPD_E_SERVICE_NOT_REGISTER, ss)
         else do {
           (rc, ss1) \<leftarrow> unregister_service_in_secure_server s ss;
           (if rc < 0 then Some (rc, ss1)
            else do {
              (rx, x1) \<leftarrow> remove_service_from_XML (mem (base ss1)) s (xml (base ss1));
              let st1 = (base ss1)\<lparr>xml := x1\<rparr>;
              (if rx < 0 then Some (HPD_E_XML_ERROR, ss1\<lparr>base := st1\<rparr>)
               else if avahi < 0 then Some (avahi, ss1\<lparr>base := st1\<rparr>)
               else do {
                 (rn, e1) \<leftarrow> notify_service_availability (Some sv) HPD_NO (events st1);
                 Some (if rn < 0 then rn else HPD_E_SUCCESS, ss1\<lparr>base := st1\<lparr>events := e1\<rparr>\<rparr>)
               })
            })
         })
      })
   }"

text \<open>
  Start and stop with both servers. A start that fails in the secure server returns at once, so that the HTTP server
  goes on.
\<close>

definition start_server_https :: "bool \<Rightarrow> string \<Rightarrow> bool \<Rightarrow> disk_file option \<Rightarrow> disk_file option \<Rightarrow> disk_file option \<Rightarrow> bool \<Rightarrow>
    int \<Rightarrow> secure_server \<Rightarrow> int \<times> secure_server" where
  "start_server_https writable_dir u started root_file key_file cert_file secure_started avahi ss =
     (let (rc, st) = start_server writable_dir u started 0 (base ss); ss1 = ss\<lparr>base := st\<rparr> in
      if rc < 0 then (rc, ss1) else
      let (rs, ss2) = start_secure_server root_file key_file cert_file secure_started ss1 in
      (if rs < 0 then rs else avahi, ss2))"

definition stop_server_https :: "secure_server \<Rightarrow> (int \<times> secure_server) option" where
  "stop_server_https ss = do {
     (rc, st) \<leftarrow> stop_server (base ss);
     (if rc < 0 then Some (rc, ss\<lparr>base := st\<rparr>) else stop_secure_server (ss\<lparr>base := st\<rparr>))
   }"

lemma failed_secure_start:
  assumes "load_file cert_file = None" and "service_head (mem (base ss)) = []" and "queue_list (events (base ss)) = []"
  shows "\<exists>ss1. start_server_https w u True rf kf cert_file b avahi ss = (HPD_E_SSL_CERT_ERROR, ss1) \<and> server_ok (base ss1)"
  using start_server_ok [OF assms(2,3), of w u 0] assms(1)
  by (auto simp: start_server_https_def start_secure_server_def loaded_def Let_def)

section \<open>Both lists and the description\<close>

definition secure_entry :: "hpd \<Rightarrow> addr \<Rightarrow> bool" where
  "secure_entry m s \<longleftrightarrow> describable m s \<and> keyed m s \<and>
     (\<exists>sv d dv. services m s = Some sv \<and> sdevice sv = Some d \<and> devices m d = Some dv \<and> secure_device dv = 1)"

definition secure_keys :: "secure_server \<Rightarrow> service_key set" where
  "secure_keys ss = the_key (mem (base ss)) ` set (secure_service_head ss)"

text \<open>
  \<open>P\<close> are the names of plain services: a plain and a secure service with the same four names would share one
  entry of the description.
\<close>

definition servers_ok :: "service_key set \<Rightarrow> secure_server \<Rightarrow> bool" where
  "servers_ok P ss \<longleftrightarrow> server_ok_with (secure_keys ss) (base ss) \<and> https_wf ss (secure_service_head ss) \<and>
     registered (base ss) \<subseteq> P \<and> secure_keys ss \<inter> P = {}"

lemma servers_keys:
  assumes "servers_ok P ss"
  shows "registered (base ss) = xml_keys (xml (base ss)) \<inter> P" "secure_keys ss = xml_keys (xml (base ss)) - P"
  using assms by (auto simp: servers_ok_def server_ok_with_def registered_def)

lemma secure_entryD:
  assumes "secure_entry m s"
  shows "\<exists>sv d dv ty. services m s = Some sv \<and> sdevice sv = Some d \<and> devices m d = Some dv \<and> secure_device dv = 1 \<and>
    the_device m s = Some (sv, dv, ty) \<and> the_key m s = (dtype dv, dID dv, ty, sID sv) \<and>
    set (parameter_list sv) \<subseteq> dom (parameters m)"
  using assms by (auto simp: secure_entry_def describable_def keyed_def the_device_def four_tuple_def bind_eq_Some_conv)

text \<open>The description and the events after one operation on a secure service.\<close>

lemma secure_list_step:
  assumes "servers_ok P ss" and "secure_entry (mem (base ss)) s"
  shows "is_secure_service_registered s ss = Some (the_key (mem (base ss)) s \<in> secure_keys ss)"
    and "unregister_service_in_secure_server s ss =
      Some (0, ss\<lparr>secure_service_head := https_del ss s (secure_service_head ss)\<rparr>)"
    and "the_key (mem (base ss)) s \<notin> secure_keys ss \<Longrightarrow>
      https_wf ss (secure_service_head ss @ [s])"
    and "the_key (mem (base ss)) s \<in> secure_keys ss \<Longrightarrow>
      https_wf ss (https_del ss s (secure_service_head ss)) \<and>
      the_key (mem (base ss)) ` set (https_del ss s (secure_service_head ss)) = secure_keys ss - {the_key (mem (base ss)) s}"
proof -
  let ?m = "mem (base ss)" and ?l = "secure_service_head ss"
  have wf: "https_wf ss ?l" and k: "keyed ?m s" using assms by (auto simp: servers_ok_def secure_entry_def)
  then have l: "secure_d ss" "list_all (keyed ?m) ?l" by (simp_all add: https_wf_def list_wf_def)
  show reg: "is_secure_service_registered s ss = Some (the_key ?m s \<in> secure_keys ss)"
    using search_keys(1) [OF l(2) k] l(1) find_key [of "the_key ?m" s ?l]
    by (simp add: is_secure_service_registered_def secure_keys_def)
  show "unregister_service_in_secure_server s ss = Some (0, ss\<lparr>secure_service_head := https_del ss s ?l\<rparr>)"
    using search_keys(2) [OF l(2) k] l(1)
    by (simp add: unregister_service_in_secure_server_def https_del_def split: option.splits)
  have mem: "https_mem ss s ?l \<longleftrightarrow> the_key ?m s \<in> secure_keys ss"
    using https.mem_iff [OF wf k] by (simp add: secure_keys_def)
  show "https_wf ss (?l @ [s])" if "the_key ?m s \<notin> secure_keys ss"
    using https.add_wf [OF wf k] that mem by (simp add: https_add_def register_service_in_secure_server_def)
  show "https_wf ss (https_del ss s ?l) \<and> the_key ?m ` set (https_del ss s ?l) = secure_keys ss - {the_key ?m s}"
    if "the_key ?m s \<in> secure_keys ss"
    using https.del_wf [OF wf k] https.del_keys [OF wf k] that mem by (simp add: secure_keys_def)
qed

lemma secure_register_eq:
  assumes "servers_ok P ss" and "secure_entry (mem (base ss)) s" and "the_key (mem (base ss)) s \<notin> P"
  shows "\<exists>rc ss'. register_service_https avahi s ss = Some (rc, ss') \<and> servers_ok P ss' \<and>
    mem (base ss') = mem (base ss) \<and>
    xml_keys (xml (base ss')) = insert (the_key (mem (base ss)) s) (xml_keys (xml (base ss)))"
proof -
  let ?m = "mem (base ss)" and ?k = "the_key (mem (base ss)) s" and ?l = "secure_service_head ss"
  note step = secure_list_step [OF assms(1,2)]
  obtain sv d dv ty where s: "services ?m s = Some sv" "sdevice sv = Some d" "devices ?m d = Some dv" "secure_device dv = 1"
    "the_device ?m s = Some (sv, dv, ty)" "?k = (dtype dv, dID dv, ty, sID sv)" "set (parameter_list sv) \<subseteq> dom (parameters ?m)"
    using secure_entryD [OF assms(2)] by blast
  have iff: "?k \<in> secure_keys ss \<longleftrightarrow> ?k \<in> xml_keys (xml (base ss))" using servers_keys(2) [OF assms(1)] assms(3) by auto
  show ?thesis
  proof (cases "?k \<in> secure_keys ss")
    case True
    then show ?thesis using s(1-4) step(1) assms(1) iff by (auto simp: register_service_https_def insert_absorb)
  next
    case False
    have wf: "xml_wf (xml (base ss))" "events_ok (events (base ss))"
      using assms(1) by (auto simp: servers_ok_def server_ok_with_def)
    from add_service_to_xml_eq [OF wf(1) s(5,7)] False obtain x' where x: "add_service_to_xml ?m s (xml (base ss)) = Some (0, x')"
      "xml_wf x'" "xml_keys x' = insert ?k (xml_keys (xml (base ss)))" using iff s(6) by auto
    obtain e' where e: "notify_service_availability (Some sv) HPD_YES (events (base ss)) = Some (0, e')" "events_ok e'"
      using notify_ok [OF _ wf(2), of HPD_YES sv] by auto
    let ?ss = "ss\<lparr>secure_service_head := ?l @ [s], base := (base ss)\<lparr>xml := x', events := if avahi < 0 then events (base ss) else e'\<rparr>\<rparr>"
    have "register_service_https avahi s ss = Some (min avahi 0, ?ss)"
      using s(1-4) step(1) False x(1) e(1)
      by (simp add: register_service_https_def register_service_in_secure_server_def Let_def)
    moreover have "servers_ok P ?ss"
      using assms(1,3) step(3) [OF False] x(2,3) e(2)
      by (auto simp: servers_ok_def server_ok_with_def https_wf_def secure_keys_def registered_def)
    ultimately show ?thesis using x(3) by auto
  qed
qed

lemma secure_unregister_eq:
  assumes "servers_ok P ss" and "secure_entry (mem (base ss)) s" and "the_key (mem (base ss)) s \<notin> P"
  shows "\<exists>rc ss'. unregister_service_https avahi s ss = Some (rc, ss') \<and> servers_ok P ss' \<and>
    mem (base ss') = mem (base ss) \<and>
    xml_keys (xml (base ss')) = xml_keys (xml (base ss)) - {the_key (mem (base ss)) s}"
proof -
  let ?m = "mem (base ss)" and ?k = "the_key (mem (base ss)) s" and ?l = "secure_service_head ss"
  note step = secure_list_step [OF assms(1,2)]
  obtain sv d dv ty where s: "services ?m s = Some sv" "sdevice sv = Some d" "devices ?m d = Some dv" "secure_device dv = 1"
    "the_device ?m s = Some (sv, dv, ty)" "?k = (dtype dv, dID dv, ty, sID sv)" "set (parameter_list sv) \<subseteq> dom (parameters ?m)"
    using secure_entryD [OF assms(2)] by blast
  have iff: "?k \<in> secure_keys ss \<longleftrightarrow> ?k \<in> xml_keys (xml (base ss))" using servers_keys(2) [OF assms(1)] assms(3) by auto
  have reg: "is_service_registered_https s ss = Some (if ?k \<in> secure_keys ss then 1 else 0)"
    using s(1-4) step(1) by (simp add: is_service_registered_https_def)
  show ?thesis
  proof (cases "?k \<in> secure_keys ss")
    case False
    then show ?thesis using s(1-4) reg assms(1) iff by (auto simp: unregister_service_https_def)
  next
    case True
    let ?l' = "https_del ss s ?l"
    have wf: "xml_wf (xml (base ss))" "events_ok (events (base ss))"
      using assms(1) by (auto simp: servers_ok_def server_ok_with_def)
    from remove_service_from_XML_eq [OF wf(1) s(5)] True obtain x' where x: "remove_service_from_XML ?m s (xml (base ss)) = Some (1, x')"
      "xml_wf x'" "xml_keys x' = xml_keys (xml (base ss)) - {?k}" using iff s(6) by auto
    obtain e' where e: "notify_service_availability (Some sv) HPD_NO (events (base ss)) = Some (0, e')" "events_ok e'"
      using notify_ok [OF _ wf(2), of HPD_NO sv] by auto
    let ?ss = "ss\<lparr>secure_service_head := ?l', base := (base ss)\<lparr>xml := x', events := if avahi < 0 then events (base ss) else e'\<rparr>\<rparr>"
    have "unregister_service_https avahi s ss = Some (min avahi 0, ?ss)"
      using s(1-4) reg True step(2) x(1) e(1) by (simp add: unregister_service_https_def Let_def)
    moreover have "servers_ok P ?ss"
      using assms(1,3) step(4) [OF True] x(2,3) e(2)
      by (auto simp: servers_ok_def server_ok_with_def https_wf_def secure_keys_def registered_def)
    ultimately show ?thesis using x(3) by auto
  qed
qed

lemma keyed_head [simp]: "keyed (m\<lparr>service_head := l\<rparr>) = keyed m"
  by (simp add: keyed_def fun_eq_iff)

definition servers_step :: "bool \<times> int \<times> addr \<Rightarrow> secure_server \<Rightarrow> (int \<times> secure_server) option" where
  "servers_step = (\<lambda>(b, avahi, s). if b then register_service_https avahi s else unregister_service_https avahi s)"

lemma plain_step:
  assumes "servers_ok P ss" and "entry_ok (mem (base ss)) s" and "the_key (mem (base ss)) s \<in> P"
  shows "\<exists>rc ss'. servers_step (b, avahi, s) ss = Some (rc, ss') \<and> servers_ok P ss' \<and>
    mem (base ss') = (mem (base ss))\<lparr>service_head := service_head (mem (base ss'))\<rparr> \<and>
    xml_keys (xml (base ss')) = track (the_key (mem (base ss))) (b, s) (xml_keys (xml (base ss)))"
proof -
  let ?m = "mem (base ss)" and ?E = "secure_keys ss"
  obtain sv d dv where s: "services ?m s = Some sv" "sdevice sv = Some d" "devices ?m d = Some dv" "secure_device dv = 0"
    using entry_okD [OF assms(2)] by blast
  have ok: "server_ok_with ?E (base ss)" "the_key ?m s \<notin> ?E" using assms(1,3) by (auto simp: servers_ok_def)
  obtain rc st' where st': "(if b then register_service_in_server avahi s (base ss) else unregister_service_in_server avahi s (base ss)) =
      Some (rc, st')" "server_ok_with ?E st'" "mem st' = ?m\<lparr>service_head := service_head (mem st')\<rparr>"
    "registered st' = track (the_key ?m) (b, s) (registered (base ss))"
    using register_with_eq [OF ok(1) assms(2) ok(2), of avahi] unregister_with_eq [OF ok(1) assms(2) ok(2), of avahi]
    by (cases b) (auto simp: track_def)
  have k: "the_key (mem st') = the_key ?m" "keyed (mem st') = keyed ?m" by (subst st'(3); simp)+
  have "servers_ok P (ss\<lparr>base := st'\<rparr>)"
    using assms(1,3) st'(2,4) k by (auto simp: servers_ok_def https_wf_def secure_keys_def track_def)
  moreover have "xml_keys (xml st') = track (the_key ?m) (b, s) (xml_keys (xml (base ss)))"
    using st'(2,4) ok by (auto simp: server_ok_with_def registered_def track_def)
  moreover have "servers_step (b, avahi, s) ss = Some (rc, ss\<lparr>base := st'\<rparr>)"
    using s st'(1) by (cases b) (simp_all add: servers_step_def register_service_https_def unregister_service_https_def)
  ultimately show ?thesis using st'(3) by auto
qed

lemma secure_step:
  assumes "servers_ok P ss" and "secure_entry (mem (base ss)) s" and "the_key (mem (base ss)) s \<notin> P"
  shows "\<exists>rc ss'. servers_step (b, avahi, s) ss = Some (rc, ss') \<and> servers_ok P ss' \<and>
    mem (base ss') = (mem (base ss))\<lparr>service_head := service_head (mem (base ss'))\<rparr> \<and>
    xml_keys (xml (base ss')) = track (the_key (mem (base ss))) (b, s) (xml_keys (xml (base ss)))"
  using secure_register_eq [OF assms, of avahi] secure_unregister_eq [OF assms, of avahi]
  by (cases b) (auto simp: servers_step_def track_def)

fun run_servers :: "(bool \<times> int \<times> addr) list \<Rightarrow> secure_server \<Rightarrow> secure_server option" where
  "run_servers [] ss = Some ss"
| "run_servers (op # ops) ss = do { (rc, ss1) \<leftarrow> servers_step op ss; run_servers ops ss1 }"

definition may_register :: "service_key set \<Rightarrow> hpd \<Rightarrow> addr \<Rightarrow> bool" where
  "may_register P m s \<longleftrightarrow> entry_ok m s \<and> the_key m s \<in> P \<or> secure_entry m s \<and> the_key m s \<notin> P"

lemma may_register_head [simp]: "may_register P (m\<lparr>service_head := l\<rparr>) = may_register P m"
  by (simp add: may_register_def secure_entry_def fun_eq_iff)

lemma run_servers_ok:
  assumes "servers_ok P ss" and "list_all (\<lambda>(b, avahi, s). may_register P (mem (base ss)) s) ops"
  shows "\<exists>ss'. run_servers ops ss = Some ss' \<and> servers_ok P ss' \<and>
    xml_keys (xml (base ss')) = fold (\<lambda>(b, avahi, s). track (the_key (mem (base ss))) (b, s)) ops (xml_keys (xml (base ss)))"
  using assms
proof (induction ops arbitrary: ss)
  case (Cons op ops)
  obtain b avahi s where op: "op = (b, avahi, s)" by (cases op)
  have "may_register P (mem (base ss)) s" using Cons.prems(2) by (simp add: op)
  then obtain rc ss1 where ss1: "servers_step op ss = Some (rc, ss1)" "servers_ok P ss1"
    "mem (base ss1) = (mem (base ss))\<lparr>service_head := service_head (mem (base ss1))\<rparr>"
    "xml_keys (xml (base ss1)) = track (the_key (mem (base ss))) (b, s) (xml_keys (xml (base ss)))"
    using plain_step [OF Cons.prems(1), of s b avahi] secure_step [OF Cons.prems(1), of s b avahi]
    by (auto simp: may_register_def op)
  have "the_key (mem (base ss1)) = the_key (mem (base ss))" "may_register P (mem (base ss1)) = may_register P (mem (base ss))"
    by (subst ss1(3); simp)+
  with Cons.IH [OF ss1(2)] Cons.prems(2) ss1(1,4) show ?case by (simp add: op)
qed simp

text \<open>
  C12. Two servers and one description. Whatever sequence of plain and secure services is registered and unregistered,
  with repetitions and failures of Avahi: nothing crashes, the description lists exactly the services that were
  registered and not unregistered since, and each server serves those of its kind. (No plain service has the four
  names of a secure one: \<open>P\<close> are the names of the plain ones.)
\<close>

theorem both_servers_agree:
  assumes "servers_ok P ss" and "list_all (\<lambda>(b, avahi, s). may_register P (mem (base ss)) s) ops"
  shows "\<exists>ss'. run_servers ops ss = Some ss' \<and>
    (let K = fold (\<lambda>(b, avahi, s). track (the_key (mem (base ss))) (b, s)) ops (xml_keys (xml (base ss))) in
      xml_keys (xml (base ss')) = K \<and> registered (base ss') = K \<inter> P \<and> secure_keys ss' = K - P)"
  using run_servers_ok [OF assms] servers_keys by (metis (no_types, lifting))

text \<open>A plain lamp at address 1 and a secure one at address 3, of a device at address 2.\<close>

definition two_kinds :: "string \<Rightarrow> hpd" where
  "two_kinds ID = (one_service 0 0)\<lparr>
     devices := (devices (one_service 0 0))(2 \<mapsto> (the (devices (one_service 0 0) 0))\<lparr>dID := ID, secure_device := 1, service_list := [3]\<rparr>),
     services := (services (one_service 0 0))(3 \<mapsto> (the (services (one_service 0 0) 1))\<lparr>sdevice := Some 2,
       value_url := ''/Lamp/'' @ ID @ ''/Switch/0''\<rparr>)\<rparr>"

definition both_servers :: "string \<Rightarrow> secure_server" where
  "both_servers ID = \<lparr>base = demo_server\<lparr>mem := two_kinds ID\<rparr>, secure_service_head = [], secure_d = True,
     root_pem = Unset, key_pem = Unset, cert_pem = Unset\<rparr>"

lemmas two_kinds_defs = two_kinds_def one_service_eq created_def new_service_def one_device_def create_device_struct_def

lemma two_kinds_key: "the_key (two_kinds ID) 1 = (''Lamp'', ''1'', ''Switch'', ''0'')" "the_key (two_kinds ID) 3 = (''Lamp'', ID, ''Switch'', ''0'')"
  by (simp_all add: the_key_def four_tuple_def two_kinds_defs str_at_def)

lemma two_kinds_describable: "describable (two_kinds ID) 1" "describable (two_kinds ID) 3"
  by (simp_all add: describable_def the_device_def two_kinds_defs str_at_def)

lemma two_kinds_entry: "entry_ok (two_kinds ID) 1"
proof -
  have "\<exists>sv d dv ty. services (two_kinds ID) 1 = Some sv \<and> sdevice sv = Some d \<and> devices (two_kinds ID) d = Some dv \<and>
     str_at (two_kinds ID) (stype sv) = Some ty \<and> secure_device dv = 0 \<and> value_url sv = value_url_of dv ty (sID sv)"
    by (simp add: two_kinds_defs str_at_def value_url_of_def) (rule exI [of _ True], rule TrueI)
  then show ?thesis unfolding entry_ok_def two_kinds_key using two_kinds_describable by simp
qed

lemma two_kinds_secure: "CHR ''/'' \<notin> set ID \<Longrightarrow> secure_entry (two_kinds ID) 3"
  unfolding secure_entry_def keyed_def two_kinds_key using two_kinds_describable
  by (simp add: four_tuple_def two_kinds_defs str_at_def)

lemma both_servers_sel [simp]:
  "mem (base (both_servers ID)) = two_kinds ID" "secure_service_head (both_servers ID) = []" "secure_d (both_servers ID)"
  "xml_keys (xml (base (both_servers ID))) = {}"
  by (simp_all add: both_servers_def demo_server_def init_xml_file_def xml_keys_def)

lemma two_kinds_head: "service_head (two_kinds ID) = []" "daemon (two_kinds ID)"
  by (simp_all add: two_kinds_defs)

lemma both_servers_ok: "server_ok (base (both_servers ID))" "servers_ok P (both_servers ID)"
proof -
  have "xml_wf (xml demo_server)" "events_ok (events demo_server)" "xml_keys (xml demo_server) = {}"
    using demo_server_ok by (simp_all add: server_ok_def demo_server_def init_xml_file_def xml_keys_def)
  then show "server_ok (base (both_servers ID))" "servers_ok P (both_servers ID)"
    using two_kinds_head
    by (simp_all add: both_servers_def server_ok_def servers_ok_def server_ok_with_def http_wf_def http_keys_def secure_keys_def
        https_wf_def list_wf_def registered_def)
qed

theorem both_servers_agree_witness:
  "\<exists>ss'. run_servers [(True, 0, 1), (True, 0, 3), (True, -21, 3), (False, -21, 1), (True, 0, 1), (False, 0, 3)] (both_servers ''2'') = Some ss' \<and>
    registered (base ss') = {(''Lamp'', ''1'', ''Switch'', ''0'')} \<and> secure_keys ss' = {}"
proof -
  let ?P = "{(''Lamp'', ''1'', ''Switch'', ''0'')}"
  have "may_register ?P (two_kinds ''2'') 1" "may_register ?P (two_kinds ''2'') 3"
    using two_kinds_entry two_kinds_secure [of "''2''"] unfolding may_register_def two_kinds_key by simp_all
  then have "list_all (\<lambda>(b, avahi, s). may_register ?P (mem (base (both_servers ''2''))) s)
      [(True, 0, 1), (True, 0, 3), (True, -21, 3), (False, -21, 1), (True, 0, 1), (False, 0, 3)]"
    by simp
  from both_servers_agree [OF both_servers_ok(2) this] show ?thesis
    by (auto simp: track_def Let_def two_kinds_key [unfolded One_nat_def])
qed

text \<open>
  Each server is asked for itself, but there is one description: a secure service with the names of a plain one that
  is registered has no entry of its own, and when it is unregistered the plain one loses its entry.
\<close>

theorem shared_name_lost:
  assumes "server_ok (base ss)" and "secure_d ss" and "secure_service_head ss = []"
    and "secure_entry (mem (base ss)) s" and "the_key (mem (base ss)) s \<in> registered (base ss)"
  shows "\<exists>ss1 ss2. register_service_https 0 s ss = Some (0, ss1) \<and> unregister_service_https 0 s ss1 = Some (0, ss2) \<and>
    the_key (mem (base ss)) s \<in> registered (base ss2) \<and> the_key (mem (base ss)) s \<notin> xml_keys (xml (base ss2))"
proof -
  let ?m = "mem (base ss)" and ?k = "the_key (mem (base ss)) s"
  obtain sv d dv ty where s: "services ?m s = Some sv" "sdevice sv = Some d" "devices ?m d = Some dv" "secure_device dv = 1"
    "the_device ?m s = Some (sv, dv, ty)" "?k = (dtype dv, dID dv, ty, sID sv)" "set (parameter_list sv) \<subseteq> dom (parameters ?m)"
    using secure_entryD [OF assms(4)] by blast
  have wf: "xml_wf (xml (base ss))" "events_ok (events (base ss))" "?k \<in> xml_keys (xml (base ss))"
    using assms(1,5) by (auto simp: server_ok_def registered_def)
  have four: "four_tuple ?m s = Some ?k" "cmp_ServiceElement ?m s s = Some True"
    using assms(4) by (auto simp: secure_entry_def keyed_def cmp_ServiceElement_def)
  have x: "add_service_to_xml ?m s (xml (base ss)) = Some (-36, xml (base ss))"
    using add_service_to_xml_eq [OF wf(1) s(5,7)] wf(3) s(6) by auto
  obtain x' where x': "remove_service_from_XML ?m s (xml (base ss)) = Some (1, x')" "?k \<notin> xml_keys x'"
    using remove_service_from_XML_eq [OF wf(1) s(5)] wf(3) s(6) by auto
  obtain e1 where e1: "notify_service_availability (Some sv) HPD_YES (events (base ss)) = Some (0, e1)" "events_ok e1"
    using notify_ok [OF _ wf(2), of HPD_YES sv] by auto
  obtain e2 where e2: "notify_service_availability (Some sv) HPD_NO e1 = Some (0, e2)"
    using notify_ok [OF _ e1(2), of HPD_NO sv] by auto
  let ?ss1 = "ss\<lparr>secure_service_head := [s], base := (base ss)\<lparr>events := e1\<rparr>\<rparr>"
  let ?ss2 = "ss\<lparr>secure_service_head := [], base := (base ss)\<lparr>events := e2, xml := x'\<rparr>\<rparr>"
  have "register_service_https 0 s ss = Some (0, ?ss1)"
    using s(1-4) assms(2,3) x e1(1)
    by (simp add: register_service_https_def is_secure_service_registered_def register_service_in_secure_server_def Let_def)
  moreover have "unregister_service_https 0 s ?ss1 = Some (0, ?ss2)"
    using s(1-4) assms(2) four x'(1) e2
    by (simp add: unregister_service_https_def is_service_registered_https_def is_secure_service_registered_def
        unregister_service_in_secure_server_def Let_def)
  ultimately show ?thesis
    using assms(5) x'(2) by (intro exI [of _ ?ss1] exI [of _ ?ss2]) (simp add: registered_def)
qed

theorem shared_name_lost_witness:
  "\<exists>ss ss1 ss2. register_service_https 0 1 (both_servers ''1'') = Some (0, ss) \<and> register_service_https 0 3 ss = Some (0, ss1) \<and>
    unregister_service_https 0 3 ss1 = Some (0, ss2) \<and> registered (base ss2) \<noteq> {} \<and>
    (''Lamp'', ''1'', ''Switch'', ''0'') \<notin> xml_keys (xml (base ss2))"
proof -
  let ?k = "(''Lamp'', ''1'', ''Switch'', ''0'')"
  have e: "entry_ok (mem (base (both_servers ''1''))) 1" using two_kinds_entry by simp
  have "registered (base (both_servers ''1'')) = {}" using two_kinds_head by (simp add: registered_def http_keys_def)
  then obtain st where st: "register_service_in_server 0 1 (base (both_servers ''1'')) = Some (0, st)" "server_ok st"
    "mem st = (two_kinds ''1'')\<lparr>service_head := service_head (mem st)\<rparr>" "registered st = {?k}"
    using register_eq [OF both_servers_ok(1) e, of 0] two_kinds_key by auto
  let ?ss = "(both_servers ''1'')\<lparr>base := st\<rparr>"
  have reg: "register_service_https 0 1 (both_servers ''1'') = Some (0, ?ss)"
  proof -
    obtain sv d dv where "services (two_kinds ''1'') 1 = Some sv" "sdevice sv = Some d" "devices (two_kinds ''1'') d = Some dv"
      "secure_device dv = 0" using entry_okD [OF two_kinds_entry] by blast
    then show ?thesis using st(1) by (simp add: register_service_https_def)
  qed
  have "secure_entry (mem st) 3"
    by (subst st(3)) (use two_kinds_secure [of "''1''"] in \<open>simp add: secure_entry_def\<close>)
  moreover have k: "the_key (mem st) 3 = ?k" by (subst st(3)) (simp add: two_kinds_key)
  ultimately obtain ss1 ss2 where r: "register_service_https 0 3 ?ss = Some (0, ss1)" "unregister_service_https 0 3 ss1 = Some (0, ss2)"
    "?k \<in> registered (base ss2)" "?k \<notin> xml_keys (xml (base ss2))"
    using shared_name_lost [of ?ss 3] st(2,4) k by auto
  with reg show ?thesis by blast
qed

end
