(* ===== verification/EventsManager.thy ===== *)
theory EventsManager
  imports HttpClient
begin

text \<open>
  The resources of an events manager (\<open>hpclientSD/curl_fct.c\<close>): what \<open>create_events_manager\<close> allocates and
  releases again when a later allocation fails, the end of the thread that waits for events, and
  \<open>destroy_events_manager\<close>. Theory HttpClient has its buffer and its subscriptions.

  A state is the set of the resources that are allocated; releasing another one is a fault (\<open>None\<close>). The
  URL belongs to the caller before it belongs to the manager.
\<close>

datatype resource = Manager | Url | CbcBuf | CbcBlock | GetEvents | GetSubscription | Share | ExitMutex | Thread | Subscribed nat

text \<open>Releasing in order.\<close>

fun release_in :: "resource list \<Rightarrow> resource set \<Rightarrow> resource set option" where
  "release_in [] H = Some H"
| "release_in (r # rs) H = (if r \<in> H then release_in rs (H - {r}) else None)"

text \<open>
  \<open>avail\<close> says which allocations succeed. Every failure releases what is there, and the URL of the caller
  with it, except when it is the manager itself that is not allocated.
\<close>

definition create_manager :: "string option \<Rightarrow> (resource \<Rightarrow> bool) \<Rightarrow> resource set \<Rightarrow> (bool \<times> resource set) option" where
  "create_manager hp_server_url avail H0 =
     (if hp_server_url = None \<or> \<not> avail Manager then Some (False, H0)
      else let H1 = insert Manager H0 in
      if \<not> avail CbcBuf then map_option (Pair False) (release_in [Url, Manager] H1)
      else let H2 = insert CbcBuf H1 in
      if \<not> avail CbcBlock then map_option (Pair False) (release_in [CbcBuf, Url, Manager] H2)
      else let H3 = insert CbcBlock H2 in
      if \<not> avail GetEvents then map_option (Pair False) (release_in [CbcBlock, CbcBuf, Url, Manager] H3)
      else let H4 = insert GetEvents H3 in
      if \<not> avail GetSubscription then map_option (Pair False) (release_in [GetEvents, CbcBlock, CbcBuf, Url, Manager] H4)
      else let H5 = insert GetSubscription H4 in
      if \<not> avail Share then map_option (Pair False) (release_in [GetSubscription, GetEvents, CbcBlock, CbcBuf, Url, Manager] H5)
      else let H6 = insert Share H5 in
      if \<not> avail ExitMutex then map_option (Pair False) (release_in [GetSubscription, GetEvents, Share, CbcBlock, CbcBuf, Url, Manager] H6)
      else Some (True, insert ExitMutex H6))"

text \<open>
  What a manager points to besides: its thread, once there is a subscription, and the services that are
  subscribed to, each a block of its own; \<open>exit_flag\<close> is the field \<open>exit\<close>.
\<close>

record manager =
  has_thread :: bool
  subscribed_service_head :: "nat list"
  exit_flag :: bool

definition progress_fct :: "manager \<Rightarrow> int" where
  "progress_fct m = (if exit_flag m then 1 else 0)"

text \<open>The thread is started by the first subscription; \<open>nb\<close> counts them.\<close>

definition start_events_thread :: "nat \<Rightarrow> manager \<Rightarrow> resource set \<Rightarrow> int \<times> manager \<times> resource set" where
  "start_events_thread nb m H = (if nb = 0 then (-1, m, H) else (0, m\<lparr>has_thread := True\<rparr>, insert Thread H))"

text \<open>
  The part of \<open>destroy_events_manager\<close> after the thread has been joined.
\<close>

definition owned :: "manager \<Rightarrow> resource list" where
  "owned m = map Subscribed (subscribed_service_head m) @
     [Url, CbcBuf, CbcBlock, GetEvents, GetSubscription, Share, ExitMutex] @ (if has_thread m then [Thread] else []) @ [Manager]"

definition destroy_end :: "manager \<Rightarrow> resource set \<Rightarrow> resource set option" where
  "destroy_end m H = (if Manager \<notin> H then None else release_in (owned m) H)"

text \<open>
  The end of the thread, by the code with which its transfer ends. After \<open>CURLE_PARTIAL_FILE\<close>
  \<open>exitEventsCallback\<close> destroys the manager in the thread itself, which does not join.
\<close>

abbreviation (input) CURLE_PARTIAL_FILE :: int where "CURLE_PARTIAL_FILE \<equiv> 18"
abbreviation (input) CURLE_ABORTED_BY_CALLBACK :: int where "CURLE_ABORTED_BY_CALLBACK \<equiv> 42"

definition events_thread_end :: "int \<Rightarrow> manager \<Rightarrow> resource set \<Rightarrow> resource set option" where
  "events_thread_end code m H = (if code = CURLE_PARTIAL_FILE then destroy_end m H else Some H)"

text \<open>
  \<open>self\<close>: the caller is the thread of the manager. Another caller sets the flag and waits for the thread,
  whose transfer may end with any code, as the flag is seen only when \<open>progress_fct\<close> is called next.
\<close>

definition destroy_events_manager :: "bool \<Rightarrow> int \<Rightarrow> manager option \<Rightarrow> resource set \<Rightarrow> (int \<times> resource set) option" where
  "destroy_events_manager self code em H = (case em of
     None \<Rightarrow> Some (-1, H)
   | Some m \<Rightarrow>
       if Manager \<notin> H then None
       else if has_thread m \<and> \<not> self then do {
         H1 \<leftarrow> events_thread_end code (m\<lparr>exit_flag := True\<rparr>) H;
         H2 \<leftarrow> destroy_end m H1;
         Some (0, H2)
       }
       else do { H2 \<leftarrow> destroy_end m H; Some (0, H2) })"

section \<open>Every resource is released once\<close>

lemma release_in_eq: "distinct rs \<Longrightarrow> set rs \<subseteq> H \<Longrightarrow> release_in rs H = Some (H - set rs)"
proof (induction rs arbitrary: H)
  case (Cons r rs)
  then have "release_in rs (H - {r}) = Some (H - {r} - set rs)" by (intro Cons.IH) auto
  then show ?case using Cons.prems by (auto simp: Diff_insert2 [symmetric] insert_commute)
qed simp

definition own_resources :: "resource set" where
  "own_resources = {Manager, CbcBuf, CbcBlock, GetEvents, GetSubscription, Share, ExitMutex}"

lemma create_manager_eq:
  assumes "Url \<in> H" and "H \<inter> own_resources = {}"
  shows "create_manager (Some u) avail H = Some (
    if \<forall>r \<in> own_resources. avail r then (True, H \<union> own_resources)
    else (False, if avail Manager then H - {Url} else H))"
proof -
  have fresh: "Manager \<notin> H" "CbcBuf \<notin> H" "CbcBlock \<notin> H" "GetEvents \<notin> H" "GetSubscription \<notin> H" "Share \<notin> H" "ExitMutex \<notin> H"
    using assms(2) by (auto simp: own_resources_def)
  show ?thesis
    using assms(1) fresh
    by (auto simp: create_manager_def Let_def own_resources_def release_in_eq)
qed

lemma destroy_end_eq:
  assumes "set (owned m) \<subseteq> H" and "distinct (subscribed_service_head m)"
  shows "destroy_end m H = Some (H - set (owned m))"
proof -
  have "distinct (owned m)" using assms(2) by (auto simp: owned_def distinct_map inj_on_def)
  then show ?thesis using assms(1) release_in_eq by (auto simp: destroy_end_def owned_def)
qed

text \<open>A manager after \<open>nb\<close> subscriptions for the services \<open>ss\<close>.\<close>

definition subscribed :: "nat \<Rightarrow> nat list \<Rightarrow> resource set \<Rightarrow> manager \<times> resource set" where
  "subscribed nb ss H = (case start_events_thread nb
      \<lparr>has_thread = False, subscribed_service_head = ss, exit_flag = False\<rparr> (H \<union> Subscribed ` set ss) of (rc, m, H') \<Rightarrow> (m, H'))"

lemma subscribed_owned:
  assumes "subscribed nb ss (H \<union> own_resources) = (m, H')" and "Url \<in> H" and "distinct ss"
    and "Thread \<notin> H" and "\<forall>n. Subscribed n \<notin> H" and "H \<inter> own_resources = {}"
  shows "has_thread m \<longleftrightarrow> 0 < nb" "set (owned m) \<subseteq> H'" "distinct (subscribed_service_head m)" "Manager \<in> H'"
    "H' - set (owned m) = H - {Url}" "Manager \<notin> H - {Url}" "owned (m\<lparr>exit_flag := b\<rparr>) = owned m"
  using assms by (auto simp: subscribed_def start_events_thread_def own_resources_def owned_def split: if_splits)

text \<open>
  C30. Creating an events manager either has every resource or releases everything it had, the URL of the caller
  included unless there was no memory for the manager itself. Destroying it releases every resource exactly
  once, in its own thread and in another one, but for one case: a transfer that ends with a partial file while
  the destroyer waits has destroyed the manager already, which is then used and released again.
\<close>

theorem events_manager_balance:
  assumes "Url \<in> H" and "H \<inter> own_resources = {}" and "Thread \<notin> H" and "\<forall>n. Subscribed n \<notin> H" and "distinct ss"
  shows "case create_manager (Some u) avail H of None \<Rightarrow> False
    | Some (made, H1) \<Rightarrow>
        (made \<longleftrightarrow> (\<forall>r \<in> own_resources. avail r)) \<and>
        (\<not> made \<longrightarrow> H1 = (if avail Manager then H - {Url} else H)) \<and>
        (made \<longrightarrow> (case subscribed nb ss H1 of (m, H2) \<Rightarrow>
          destroy_events_manager self code (Some m) H2 =
            (if 0 < nb \<and> \<not> self \<and> code = CURLE_PARTIAL_FILE then None else Some (0, H - {Url}))))"
proof (cases "\<forall>r \<in> own_resources. avail r")
  case True
  obtain m H2 where m: "subscribed nb ss (H \<union> own_resources) = (m, H2)" by fastforce
  note o = subscribed_owned [OF m assms(1,5,3,4,2)]
  have e: "destroy_end m H2 = Some (H - {Url})" "destroy_end (m\<lparr>exit_flag := True\<rparr>) H2 = Some (H - {Url})"
    using destroy_end_eq [OF o(2,3)] destroy_end_eq [of "m\<lparr>exit_flag := True\<rparr>" H2] o by simp_all
  have "destroy_end m (H - {Url}) = None" using o(6) by (simp add: destroy_end_def)
  then show ?thesis
    using True m o(1,4) e by (simp add: create_manager_eq [OF assms(1,2)] destroy_events_manager_def events_thread_end_def)
next
  case False
  then have "(\<forall>r \<in> own_resources. avail r) = False" by blast
  then show ?thesis by (simp only: create_manager_eq [OF assms(1,2)]) simp
qed

theorem events_manager_balance_witness:
  "\<exists>m H1 H2. create_manager (Some ''http://10.0.0.1:8890'') (\<lambda>r. True) {Url} = Some (True, H1) \<and> subscribed 1 [4, 5] H1 = (m, H2) \<and>
    destroy_events_manager False CURLE_ABORTED_BY_CALLBACK (Some m) H2 = Some (0, {}) \<and>
    destroy_events_manager False CURLE_PARTIAL_FILE (Some m) H2 = None"
proof -
  have pre: "Url \<in> {Url}" "{Url} \<inter> own_resources = {}" "Thread \<notin> {Url}" "\<forall>n. Subscribed n \<notin> {Url}" "distinct [4, 5 :: nat]"
    by (auto simp: own_resources_def)
  obtain H1 where h1: "create_manager (Some ''http://10.0.0.1:8890'') (\<lambda>r. True) {Url} = Some (True, H1)"
    by (simp add: create_manager_def)
  obtain m H2 where m: "subscribed 1 [4, 5] H1 = (m, H2)" by fastforce
  show ?thesis
    using events_manager_balance [OF pre, where u = "''http://10.0.0.1:8890''" and avail = "\<lambda>r. True" and nb = 1 and self = False and code = CURLE_ABORTED_BY_CALLBACK]
      events_manager_balance [OF pre, where u = "''http://10.0.0.1:8890''" and avail = "\<lambda>r. True" and nb = 1 and self = False and code = CURLE_PARTIAL_FILE] h1 m
    by auto
qed

end
